(* ===== verification/Prelude.thy ===== *)
theory Prelude
  imports "HOL-Library.Word" "HOL-Library.Sublist"
begin

text \<open>
  What every theory of the development shares: the fixed-width integer types of the C and C++
  sources, the value of a byte string read as a big-endian number, and the facts on words and
  lists that the component proofs use.

  \<^item> \<open>uint8_t\<close>, \<open>uint32_t\<close>, \<open>uint64_t\<close> and \<open>size_t\<close> arithmetic that can wrap is done on words
    (\<open>u8\<close>, \<open>u32\<close>, \<open>u64\<close>);
  \<^item> sizes and indices of objects that exist in memory are \<open>nat\<close>;
  \<^item> \<open>int32_t\<close> and \<open>int64_t\<close> are \<open>int\<close>, with \<open>int32_ok\<close> and \<open>int64_ok\<close> stating that a value fits:
    signed overflow is undefined behaviour in the sources, so that no operation leaves the range
    is something to prove, not something to compute with.
\<close>

unbundle bit_operations_syntax

type_synonym u8 = "8 word"
type_synonym u16 = "16 word"
type_synonym u32 = "32 word"
type_synonym u64 = "64 word"

named_theorems be_simps \<open>evaluation of big-endian byte strings\<close>

subsection \<open>Signed ranges\<close>

definition int32_ok :: "int \<Rightarrow> bool" where
  "int32_ok x \<longleftrightarrow> - (2 ^ 31) \<le> x \<and> x < 2 ^ 31"

definition int64_ok :: "int \<Rightarrow> bool" where
  "int64_ok x \<longleftrightarrow> - (2 ^ 63) \<le> x \<and> x < 2 ^ 63"

subsection \<open>Words\<close>

text \<open>Appending a byte below a word that leaves room for it.\<close>

lemma unat_push8_or:
  fixes a :: "'a::len word" and b :: u8
  assumes len: "8 \<le> LENGTH('a)" and room: "unat a < 2 ^ (LENGTH('a) - 8)"
  shows "unat (push_bit 8 a OR ucast b) = unat a * 256 + unat b"
proof -
  have disj: "push_bit 8 a AND ucast b = 0"
    by (rule bit_word_eqI) (auto simp: bit_simps dest: bit_imp_le_length)
  then have "push_bit 8 a OR ucast b = push_bit 8 a + ucast b"
    by (simp add: disjunctive_add_eq_or)
  moreover have "unat (push_bit 8 a) = unat a * 256"
  proof -
    have "(2::nat) ^ LENGTH('a) = 2 ^ (LENGTH('a) - 8) * 2 ^ 8"
      using power_add [of "2::nat" "LENGTH('a) - 8" 8] len by simp
    then show ?thesis using room
      by (simp add: unsigned_push_bit_eq take_bit_eq_mod)
        (simp add: push_bit_eq_mult)
  qed
  moreover have "unat (ucast b :: 'a word) = unat b"
  proof -
    have "(2::nat) ^ 8 \<le> 2 ^ LENGTH('a)" using len by (intro power_increasing) simp_all
    moreover have "unat b < 2 ^ 8" using unsigned_less [of b] by simp
    ultimately have "unat b < 2 ^ LENGTH('a)" by linarith
    then show ?thesis by (simp add: unsigned_ucast_eq take_bit_nat_eq_self)
  qed
  moreover have "unat a * 256 + unat b < 2 ^ LENGTH('a)"
  proof -
    have "unat b < 256" using unsigned_less [of b] by simp
    then have "unat a * 256 + unat b < Suc (unat a) * 2 ^ 8" by simp
    also have "\<dots> \<le> 2 ^ (LENGTH('a) - 8) * 2 ^ 8"
      using room by (intro mult_le_mono1) simp
    also have "\<dots> = 2 ^ LENGTH('a)"
      using power_add [of "2::nat" "LENGTH('a) - 8" 8] len by simp
    finally show ?thesis .
  qed
  ultimately show ?thesis by (simp add: unat_word_ariths)
qed

subsection \<open>The big-endian value of a byte string\<close>

primrec be_val :: "u8 list \<Rightarrow> nat" where
  "be_val [] = 0"
| "be_val (b # bs) = unat b * 256 ^ length bs + be_val bs"

lemma be_val_append: "be_val (xs @ ys) = be_val xs * 256 ^ length ys + be_val ys"
  by (induction xs) (simp_all add: power_add algebra_simps)

lemma be_val_snoc [be_simps]: "be_val (xs @ [b]) = be_val xs * 256 + unat b"
  by (simp add: be_val_append)

lemma unat_u8_less [simp]: "unat (b :: u8) < 256"
  using unsigned_less [of b] by simp

lemma be_val_less: "be_val bs < 256 ^ length bs"
proof (induction bs)
  case (Cons b bs)
  have "unat b * 256 ^ length bs + be_val bs < unat b * 256 ^ length bs + 256 ^ length bs"
    using Cons.IH by simp
  also have "\<dots> = Suc (unat b) * 256 ^ length bs" by simp
  also have "\<dots> \<le> 256 * 256 ^ length bs"
    using unat_u8_less [of b] by (intro mult_le_mono1) (simp only: Suc_le_eq)
  finally show ?case by simp
qed simp

lemma be_val_replicate_0 [be_simps]: "be_val (replicate n 0 @ bs) = be_val bs"
  by (induction n) simp_all

lemma be_val_replicate_0' [be_simps]: "be_val (replicate n 0) = 0"
  using be_val_replicate_0 [of n "[]"] by simp

text \<open>Two numbers with a common base: the high digits decide, then the low ones.\<close>

lemma digits_less_iff:
  fixes a b c d m :: nat
  assumes "b < m" "d < m"
  shows "a * m + b < c * m + d \<longleftrightarrow> a < c \<or> a = c \<and> b < d"
proof -
  have less: "x * m + u < y * m + v" if "x < y" "u < m" for x y u v :: nat
  proof -
    have "x * m + u < Suc x * m" using that by simp
    also have "\<dots> \<le> y * m" using that by (intro mult_le_mono1) simp
    finally show ?thesis by simp
  qed
  show ?thesis
    using less [of a c b d] less [of c a d b] assms by (cases a c rule: linorder_cases) auto
qed

lemma digits_eq_iff:
  fixes a b c d m :: nat
  assumes "b < m" "d < m"
  shows "a * m + b = c * m + d \<longleftrightarrow> a = c \<and> b = d"
  using digits_less_iff [OF assms, of a c] digits_less_iff [OF assms(2,1), of c a]
  by (metis nat_neq_iff)

lemma be_val_inject:
  assumes "length xs = length ys"
  shows "be_val xs = be_val ys \<longleftrightarrow> xs = ys"
  using assms
proof (induction xs ys rule: list_induct2)
  case (Cons x xs y ys)
  then have "be_val xs < 256 ^ length xs" "be_val ys < 256 ^ length xs"
    using be_val_less [of xs] be_val_less [of ys] by simp_all
  then show ?case using Cons by (auto simp: digits_eq_iff word_unat_eq_iff)
qed simp

lemma be_val_append_less_iff:
  assumes "length xs = length ys" "length us = length vs"
  shows "be_val (us @ xs) < be_val (vs @ ys) \<longleftrightarrow>
    be_val us < be_val vs \<or> us = vs \<and> be_val xs < be_val ys"
  using assms be_val_less [of xs] be_val_less [of ys]
  by (simp add: be_val_append digits_less_iff be_val_inject)

subsection \<open>Lists\<close>

text \<open>Overwriting a region of an array, as \<open>memcpy\<close> into \<open>&xs[i]\<close> does.\<close>

definition blit :: "'a list \<Rightarrow> nat \<Rightarrow> 'a list \<Rightarrow> 'a list" where
  "blit xs i ys = take i xs @ ys @ drop (i + length ys) xs"

lemma length_blit [simp]: "i + length ys \<le> length xs \<Longrightarrow> length (blit xs i ys) = length xs"
  by (simp add: blit_def)

lemma blit_Nil [simp]: "i \<le> length xs \<Longrightarrow> blit xs i [] = xs"
  by (simp add: blit_def)

lemma nth_blit:
  "i + length ys \<le> length xs \<Longrightarrow> k < length xs \<Longrightarrow>
    blit xs i ys ! k = (if i \<le> k \<and> k < i + length ys then ys ! (k - i) else xs ! k)"
  by (auto simp: blit_def nth_append min_def)

lemma take_drop_blit [simp]:
  "i + length ys \<le> length xs \<Longrightarrow> take (length ys) (drop i (blit xs i ys)) = ys"
  by (simp add: blit_def)

end
