(* ===== verification/Bytes.thy ===== *)
theory Bytes
  imports Prelude
begin

text \<open>
  The fixed-size byte containers of \<open>include/qrvmc/qrvmc.h\<close> and the operators that
  \<open>include/qrvmc/qrvmc.hpp\<close> defines on them: the constructors from \<open>uint64_t\<close>, the big- and
  little-endian loads, the comparison operators (written in the source as comparisons of eight
  64-bit loads), the zero test and the FNV-1a based \<open>std::hash\<close>.

  The two C structs are types of their own, whose values are exactly the byte lists of length 64.
  The source states every operator twice, once for each type; the shared bodies are the
  \<open>words_\<close> functions, and the locale \<open>byte_key\<close> holds what follows for either type.
\<close>

subsection \<open>The containers\<close>

typedef qrvmc_bytes64 = "{bs :: u8 list. length bs = 64}"
  morphisms bytes64_bytes Bytes64
  by (rule exI [of _ "replicate 64 0"]) simp

typedef qrvmc_address = "{bs :: u8 list. length bs = 64}"
  morphisms address_bytes Address
  by (rule exI [of _ "replicate 64 0"]) simp

setup_lifting type_definition_qrvmc_bytes64
setup_lifting type_definition_qrvmc_address

type_synonym qrvmc_uint512be = qrvmc_bytes64

lemma length_bytes64 [simp]: "length (bytes64_bytes b) = 64"
  using bytes64_bytes [of b] by simp

lemma length_address [simp]: "length (address_bytes a) = 64"
  using address_bytes [of a] by simp

text \<open>\<open>T{}\<close>, all bytes zero.\<close>

lift_definition bytes64_zero :: qrvmc_bytes64 is "replicate 64 0"
  by simp

lift_definition address_zero :: qrvmc_address is "replicate 64 0"
  by simp

text \<open>The struct with the given array of 64 bytes.\<close>

lift_definition address_of_bytes :: "u8 list \<Rightarrow> qrvmc_address"
  is "\<lambda>bs :: u8 list. if length bs = 64 then bs else replicate 64 0"
  by simp

lift_definition bytes64_of_bytes :: "u8 list \<Rightarrow> qrvmc_bytes64"
  is "\<lambda>bs :: u8 list. if length bs = 64 then bs else replicate 64 0"
  by simp

text \<open>The last eight bytes of the constructors from \<open>uint64_t\<close>.\<close>

definition u64_be_bytes :: "u64 \<Rightarrow> u8 list" where
  "u64_be_bytes v =
    [ucast (drop_bit 56 v), ucast (drop_bit 48 v), ucast (drop_bit 40 v), ucast (drop_bit 32 v),
     ucast (drop_bit 24 v), ucast (drop_bit 16 v), ucast (drop_bit 8 v), ucast (drop_bit 0 v)]"

lift_definition bytes64_of_u64 :: "u64 \<Rightarrow> qrvmc_bytes64"
  is "\<lambda>v. replicate 56 0 @ u64_be_bytes v"
  by (simp add: u64_be_bytes_def)

lift_definition address_of_u64 :: "u64 \<Rightarrow> qrvmc_address"
  is "\<lambda>v. replicate 56 0 @ u64_be_bytes v"
  by (simp add: u64_be_bytes_def)

lemma address_bytes_of_bytes [simp]:
  "length bs = 64 \<Longrightarrow> address_bytes (address_of_bytes bs) = bs"
  by (simp add: address_of_bytes.rep_eq)

lemma bytes64_bytes_of_bytes [simp]:
  "length bs = 64 \<Longrightarrow> bytes64_bytes (bytes64_of_bytes bs) = bs"
  by (simp add: bytes64_of_bytes.rep_eq)

lemma address_of_bytes_bytes [simp]: "address_of_bytes (address_bytes a) = a"
  by (simp flip: address_bytes_inject)

lemma bytes64_of_bytes_bytes [simp]: "bytes64_of_bytes (bytes64_bytes b) = b"
  by (simp flip: bytes64_bytes_inject)

subsection \<open>Loads\<close>

text \<open>A pointer to byte \<open>i\<close> of an array is the list of the bytes from \<open>i\<close> on.\<close>

definition load64be :: "u8 list \<Rightarrow> u64" where
  "load64be data =
    push_bit 56 (ucast (data ! 0)) OR push_bit 48 (ucast (data ! 1)) OR
    push_bit 40 (ucast (data ! 2)) OR push_bit 32 (ucast (data ! 3)) OR
    push_bit 24 (ucast (data ! 4)) OR push_bit 16 (ucast (data ! 5)) OR
    push_bit 8 (ucast (data ! 6)) OR ucast (data ! 7)"

definition load64le :: "u8 list \<Rightarrow> u64" where
  "load64le data =
    ucast (data ! 0) OR push_bit 8 (ucast (data ! 1)) OR push_bit 16 (ucast (data ! 2)) OR
    push_bit 24 (ucast (data ! 3)) OR push_bit 32 (ucast (data ! 4)) OR
    push_bit 40 (ucast (data ! 5)) OR push_bit 48 (ucast (data ! 6)) OR
    push_bit 56 (ucast (data ! 7))"

definition load32be :: "u8 list \<Rightarrow> u32" where
  "load32be data =
    push_bit 24 (ucast (data ! 0)) OR push_bit 16 (ucast (data ! 1)) OR
    push_bit 8 (ucast (data ! 2)) OR ucast (data ! 3)"

definition load32le :: "u8 list \<Rightarrow> u32" where
  "load32le data =
    ucast (data ! 0) OR push_bit 8 (ucast (data ! 1)) OR push_bit 16 (ucast (data ! 2)) OR
    push_bit 24 (ucast (data ! 3))"

lemma take_8_nth:
  assumes "8 \<le> length data"
  shows "take 8 data = [data ! 0, data ! 1, data ! 2, data ! 3, data ! 4, data ! 5, data ! 6, data ! 7]"
  using assms by (intro nth_equalityI) (auto simp: less_Suc_eq numeral_eq_Suc)

lemma take_4_nth:
  assumes "4 \<le> length data"
  shows "take 4 data = [data ! 0, data ! 1, data ! 2, data ! 3]"
  using assms by (intro nth_equalityI) (auto simp: less_Suc_eq numeral_eq_Suc)

text \<open>The shifts and ors are Horner's scheme, so the load is the big-endian number.\<close>

fun horner_be :: "'a::len word \<Rightarrow> u8 list \<Rightarrow> 'a word" where
  "horner_be acc [] = acc"
| "horner_be acc (b # bs) = horner_be (push_bit 8 acc OR ucast b) bs"

lemma unat_horner_be:
  fixes acc :: "'a::len word"
  assumes "8 * length bs \<le> LENGTH('a)" "unat acc < 2 ^ (LENGTH('a) - 8 * length bs)"
  shows "unat (horner_be acc bs) = unat acc * 256 ^ length bs + be_val bs"
  using assms
proof (induction bs arbitrary: acc)
  case (Cons b bs)
  let ?n = "LENGTH('a) - 8 * length (b # bs)"
  have room: "unat acc < 2 ^ (LENGTH('a) - 8)"
    by (rule less_le_trans [OF Cons.prems(2)]) (intro power_increasing, simp_all)
  have step: "unat (push_bit 8 acc OR ucast b) = unat acc * 256 + unat b"
    using Cons.prems(1) room by (intro unat_push8_or) simp_all
  have "unat acc * 256 + unat b < Suc (unat acc) * 256"
    using unat_u8_less [of b] by simp
  also have "\<dots> \<le> 2 ^ ?n * 256"
    using Cons.prems(2) by (intro mult_le_mono1) (simp only: Suc_le_eq)
  also have "\<dots> = 2 ^ (LENGTH('a) - 8 * length bs)"
    using power_add [of "2::nat" ?n 8] Cons.prems(1) by simp
  finally have "unat (push_bit 8 acc OR ucast b) < 2 ^ (LENGTH('a) - 8 * length bs)"
    using step by simp
  then show ?case
    using Cons.IH [of "push_bit 8 acc OR ucast b"] Cons.prems(1) step
    by (simp add: algebra_simps)
qed simp

lemma load64be_horner:
  "load64be data =
    horner_be 0 [data ! 0, data ! 1, data ! 2, data ! 3, data ! 4, data ! 5, data ! 6, data ! 7]"
  by (simp add: load64be_def ac_simps)

lemma load32be_horner: "load32be data = horner_be 0 [data ! 0, data ! 1, data ! 2, data ! 3]"
  by (simp add: load32be_def ac_simps)

lemma unat_load64be:
  assumes "8 \<le> length data"
  shows "unat (load64be data) = be_val (take 8 data)"
  unfolding load64be_horner take_8_nth [OF assms] by (subst unat_horner_be) simp_all

lemma unat_load32be:
  assumes "4 \<le> length data"
  shows "unat (load32be data) = be_val (take 4 data)"
  unfolding load32be_horner take_4_nth [OF assms] by (subst unat_horner_be) simp_all

lemma load64le_rev:
  assumes "8 \<le> length data"
  shows "load64le data = load64be (rev (take 8 data))"
  by (simp add: take_8_nth [OF assms] load64le_def load64be_def ac_simps)

lemma load32le_rev:
  assumes "4 \<le> length data"
  shows "load32le data = load32be (rev (take 4 data))"
  by (simp add: take_4_nth [OF assms] load32le_def load32be_def ac_simps)

lemma load64be_inject:
  assumes "8 \<le> length xs" "8 \<le> length ys"
  shows "load64be xs = load64be ys \<longleftrightarrow> take 8 xs = take 8 ys"
  using assms by (simp add: word_unat_eq_iff unat_load64be be_val_inject)

lemma load64le_inject:
  assumes "8 \<le> length xs" "8 \<le> length ys"
  shows "load64le xs = load64le ys \<longleftrightarrow> take 8 xs = take 8 ys"
  using assms by (simp add: load64le_rev load64be_inject)

subsection \<open>Comparison and hashing, on the bytes\<close>

text \<open>The body of both \<open>operator==\<close>.\<close>

definition words_eq :: "u8 list \<Rightarrow> u8 list \<Rightarrow> bool" where
  "words_eq a b \<longleftrightarrow>
    load64le (drop 0 a) = load64le (drop 0 b) \<and> load64le (drop 8 a) = load64le (drop 8 b) \<and>
    load64le (drop 16 a) = load64le (drop 16 b) \<and> load64le (drop 24 a) = load64le (drop 24 b) \<and>
    load64le (drop 32 a) = load64le (drop 32 b) \<and> load64le (drop 40 a) = load64le (drop 40 b) \<and>
    load64le (drop 48 a) = load64le (drop 48 b) \<and> load64le (drop 56 a) = load64le (drop 56 b)"

text \<open>The loop of both \<open>operator<\<close>, from index \<open>i\<close> on.\<close>

function words_less :: "nat \<Rightarrow> u8 list \<Rightarrow> u8 list \<Rightarrow> bool" where
  "words_less i a b =
    (if i < 64 then
       let va = load64be (drop i a); vb = load64be (drop i b)
       in if va \<noteq> vb then va < vb else words_less (i + 8) a b
     else False)"
  by pat_completeness auto
termination
  by (relation "measure (\<lambda>(i, a, b). 64 - i)") auto

declare words_less.simps [simp del]

text \<open>The namespace \<open>fnv\<close> and the body of both \<open>std::hash\<close> specialisations.\<close>

definition fnv_prime :: u64 where
  "fnv_prime = 0x100000001b3"

definition fnv_offset_basis :: u64 where
  "fnv_offset_basis = 0xcbf29ce484222325"

definition fnv1a_by64 :: "u64 \<Rightarrow> u64 \<Rightarrow> u64" where
  "fnv1a_by64 h x = (h XOR x) * fnv_prime"

definition words_hash :: "u8 list \<Rightarrow> u64" where
  "words_hash s =
    fnv1a_by64 (fnv1a_by64 (fnv1a_by64 (fnv1a_by64 (fnv1a_by64 (fnv1a_by64
      (fnv1a_by64 (fnv1a_by64 fnv_offset_basis (load64le (drop 0 s)))
        (load64le (drop 8 s)))
        (load64le (drop 16 s)))
        (load64le (drop 24 s)))
        (load64le (drop 32 s)))
        (load64le (drop 40 s)))
        (load64le (drop 48 s)))
        (load64le (drop 56 s))"

lemma drop_split8: "drop i zs = take 8 (drop i zs) @ drop (i + 8) zs"
  by (metis append_take_drop_id drop_drop add.commute)

lemma list_eq_by_8:
  assumes "length xs = length ys" "i < length xs"
  shows "drop i xs = drop i ys \<longleftrightarrow>
    take 8 (drop i xs) = take 8 (drop i ys) \<and> drop (i + 8) xs = drop (i + 8) ys"
proof -
  have "drop i xs = drop i ys \<longleftrightarrow>
      take 8 (drop i xs) @ drop (i + 8) xs = take 8 (drop i ys) @ drop (i + 8) ys"
    by (simp flip: drop_split8)
  also have "\<dots> \<longleftrightarrow> take 8 (drop i xs) = take 8 (drop i ys) \<and> drop (i + 8) xs = drop (i + 8) ys"
    using assms by (intro append_eq_append_conv) simp
  finally show ?thesis .
qed

lemma words_eq_iff:
  assumes "length a = 64" "length b = 64"
  shows "words_eq a b \<longleftrightarrow> a = b"
proof -
  have by_8: "drop i a = drop i b \<longleftrightarrow>
      load64le (drop i a) = load64le (drop i b) \<and> drop (i + 8) a = drop (i + 8) b"
    if "i + 8 \<le> 64" for i
    using assms that list_eq_by_8 [of a b i] by (simp add: load64le_inject)
  show ?thesis
    using assms by_8 [of 0] by_8 [of 8] by_8 [of 16] by_8 [of 24] by_8 [of 32] by_8 [of 40]
      by_8 [of 48] by_8 [of 56]
    by (simp add: words_eq_def)
qed

lemma words_less_iff:
  assumes "length a = 64" "length b = 64" "8 dvd i"
  shows "words_less i a b \<longleftrightarrow> be_val (drop i a) < be_val (drop i b)"
  using assms
proof (induction i a b rule: words_less.induct)
  case (1 i a b)
  show ?case
  proof (cases "i < 64")
    case True
    with "1.prems" have i: "i + 8 \<le> 64" by presburger
    have "be_val (drop i a) < be_val (drop i b) \<longleftrightarrow>
        be_val (take 8 (drop i a) @ drop (i + 8) a) < be_val (take 8 (drop i b) @ drop (i + 8) b)"
      by (simp flip: drop_split8)
    also have "\<dots> \<longleftrightarrow>
        load64be (drop i a) < load64be (drop i b) \<or>
        load64be (drop i a) = load64be (drop i b) \<and> be_val (drop (i + 8) a) < be_val (drop (i + 8) b)"
      using i "1.prems"
      by (subst be_val_append_less_iff)
        (simp_all add: word_less_nat_alt unat_load64be load64be_inject)
    finally have "be_val (drop i a) < be_val (drop i b) \<longleftrightarrow>
        load64be (drop i a) < load64be (drop i b) \<or>
        load64be (drop i a) = load64be (drop i b) \<and> be_val (drop (i + 8) a) < be_val (drop (i + 8) b)" .
    moreover have "words_less (i + 8) a b \<longleftrightarrow> be_val (drop (i + 8) a) < be_val (drop (i + 8) b)"
      if "load64be (drop i a) = load64be (drop i b)"
      using "1.IH" [OF True refl refl] that "1.prems" by (simp add: dvd_add)
    ultimately show ?thesis
      using True by (auto simp: words_less.simps [of i] Let_def)
  next
    case False
    then show ?thesis using "1.prems" by (simp add: words_less.simps)
  qed
qed

lemma fnv1a_by64_inject: "fnv1a_by64 h x = fnv1a_by64 h' x' \<longleftrightarrow> h XOR x = h' XOR x'"
proof -
  have "fnv_prime * 0xce965057aff6957b = 1"
    by (simp add: fnv_prime_def)
  then have inv: "u * fnv_prime * 0xce965057aff6957b = u" for u :: u64
    by (simp add: mult.assoc)
  show ?thesis
    unfolding fnv1a_by64_def by (metis inv)
qed

lemma xor_left_cancel: "(z :: u64) XOR x = z XOR y \<longleftrightarrow> x = y"
proof
  assume "z XOR x = z XOR y"
  then have "z XOR (z XOR x) = z XOR (z XOR y)" by simp
  then show "x = y" by (simp flip: xor.assoc)
qed simp

lemma foldl_fnv_inject: "foldl fnv1a_by64 h xs = foldl fnv1a_by64 h' xs \<longleftrightarrow> h = h'"
  by (induction xs arbitrary: h h')
    (simp_all add: fnv1a_by64_inject xor_left_cancel xor.commute [of _ "_ :: u64"])

lemma words_hash_foldl:
  "words_hash s = foldl fnv1a_by64 fnv_offset_basis (map (\<lambda>k. load64le (drop (8 * k) s)) [0..<8])"
  by (simp add: words_hash_def upt_rec)

lemma words_eqI:
  assumes "\<And>k. k < 8 \<Longrightarrow> load64le (drop (8 * k) a) = load64le (drop (8 * k) b)"
  shows "words_eq a b"
  using assms [of 0] assms [of 1] assms [of 2] assms [of 3] assms [of 4] assms [of 5] assms [of 6]
    assms [of 7]
  by (simp add: words_eq_def)

text \<open>Byte strings that differ in one of the eight words only have different hashes.\<close>

lemma words_hash_one_word:
  assumes "length a = 64" "length b = 64" "words_hash a = words_hash b"
    and same: "\<And>j. j < 8 \<Longrightarrow> j \<noteq> k \<Longrightarrow> load64le (drop (8 * j) a) = load64le (drop (8 * j) b)"
  shows "a = b"
proof -
  define ws where "ws s = map (\<lambda>k. load64le (drop (8 * k) s)) [0..<8]" for s
  have len: "length (ws s) = 8" and nth: "j < 8 \<Longrightarrow> ws s ! j = load64le (drop (8 * j) s)" for s j
    by (simp_all add: ws_def)
  have other: "ws a ! j = ws b ! j" if "j < 8" "j \<noteq> k" for j
    using same that by (simp add: nth)
  have "ws a ! k = ws b ! k" if k: "k < 8"
  proof -
    have split: "ws s = take k (ws s) @ ws s ! k # drop (Suc k) (ws s)" for s
      using k by (intro id_take_nth_drop) (simp add: len)
    have "take k (ws a) = take k (ws b)" "drop (Suc k) (ws a) = drop (Suc k) (ws b)"
      using k by (auto intro!: nth_equalityI simp: len other)
    then have "foldl fnv1a_by64 fnv_offset_basis (take k (ws a) @ ws a ! k # drop (Suc k) (ws a)) =
        foldl fnv1a_by64 fnv_offset_basis (take k (ws a) @ ws b ! k # drop (Suc k) (ws a))"
      using assms(3) split [of a] split [of b] by (simp add: words_hash_foldl flip: ws_def)
    then show ?thesis
      by (simp add: foldl_fnv_inject fnv1a_by64_inject xor_left_cancel)
  qed
  then have "words_eq a b"
    using other nth by (intro words_eqI) metis
  then show ?thesis
    using assms(1,2) words_eq_iff by blast
qed

subsection \<open>The operators of the two types\<close>

definition address_eq :: "qrvmc_address \<Rightarrow> qrvmc_address \<Rightarrow> bool" where
  "address_eq a b = words_eq (address_bytes a) (address_bytes b)"

definition address_ne :: "qrvmc_address \<Rightarrow> qrvmc_address \<Rightarrow> bool" where
  "address_ne a b = (\<not> address_eq a b)"

definition address_less :: "qrvmc_address \<Rightarrow> qrvmc_address \<Rightarrow> bool" where
  "address_less a b = words_less 0 (address_bytes a) (address_bytes b)"

definition address_greater :: "qrvmc_address \<Rightarrow> qrvmc_address \<Rightarrow> bool" where
  "address_greater a b = address_less b a"

definition address_le :: "qrvmc_address \<Rightarrow> qrvmc_address \<Rightarrow> bool" where
  "address_le a b = (\<not> address_less b a)"

definition address_ge :: "qrvmc_address \<Rightarrow> qrvmc_address \<Rightarrow> bool" where
  "address_ge a b = (\<not> address_less a b)"

definition address_is_zero :: "qrvmc_address \<Rightarrow> bool" where
  "address_is_zero a = address_eq a address_zero"

definition address_bool :: "qrvmc_address \<Rightarrow> bool" where
  "address_bool a = (\<not> address_is_zero a)"

definition address_hash :: "qrvmc_address \<Rightarrow> u64" where
  "address_hash s = words_hash (address_bytes s)"

definition bytes64_eq :: "qrvmc_bytes64 \<Rightarrow> qrvmc_bytes64 \<Rightarrow> bool" where
  "bytes64_eq a b = words_eq (bytes64_bytes a) (bytes64_bytes b)"

definition bytes64_ne :: "qrvmc_bytes64 \<Rightarrow> qrvmc_bytes64 \<Rightarrow> bool" where
  "bytes64_ne a b = (\<not> bytes64_eq a b)"

definition bytes64_less :: "qrvmc_bytes64 \<Rightarrow> qrvmc_bytes64 \<Rightarrow> bool" where
  "bytes64_less a b = words_less 0 (bytes64_bytes a) (bytes64_bytes b)"

definition bytes64_greater :: "qrvmc_bytes64 \<Rightarrow> qrvmc_bytes64 \<Rightarrow> bool" where
  "bytes64_greater a b = bytes64_less b a"

definition bytes64_le :: "qrvmc_bytes64 \<Rightarrow> qrvmc_bytes64 \<Rightarrow> bool" where
  "bytes64_le a b = (\<not> bytes64_less b a)"

definition bytes64_ge :: "qrvmc_bytes64 \<Rightarrow> qrvmc_bytes64 \<Rightarrow> bool" where
  "bytes64_ge a b = (\<not> bytes64_less a b)"

definition bytes64_is_zero :: "qrvmc_bytes64 \<Rightarrow> bool" where
  "bytes64_is_zero a = bytes64_eq a bytes64_zero"

definition bytes64_bool :: "qrvmc_bytes64 \<Rightarrow> bool" where
  "bytes64_bool a = (\<not> bytes64_is_zero a)"

definition bytes64_hash :: "qrvmc_bytes64 \<Rightarrow> u64" where
  "bytes64_hash s = words_hash (bytes64_bytes s)"

subsection \<open>What keys of the standard containers need\<close>

text \<open>
  \<open>std::map\<close> relies on \<open>operator<\<close> being a strict order whose incomparable elements are equal,
  \<open>std::unordered_map\<close> on \<open>operator==\<close> being an equivalence that \<open>std::hash\<close> respects. Both
  follow, for any 64-byte container, from how the operators read the bytes.
\<close>

locale byte_key =
  fixes get :: "'a \<Rightarrow> u8 list"
    and eq :: "'a \<Rightarrow> 'a \<Rightarrow> bool"
    and lt :: "'a \<Rightarrow> 'a \<Rightarrow> bool"
    and hash :: "'a \<Rightarrow> u64"
  assumes get_length: "length (get x) = 64"
    and get_inject: "get x = get y \<Longrightarrow> x = y"
    and eq_words: "eq x y \<longleftrightarrow> words_eq (get x) (get y)"
    and lt_words: "lt x y \<longleftrightarrow> words_less 0 (get x) (get y)"
    and hash_words: "hash x = words_hash (get x)"
begin

lemma eq_iff: "eq x y \<longleftrightarrow> x = y"
  using get_inject by (auto simp: eq_words words_eq_iff get_length)

lemma lt_iff: "lt x y \<longleftrightarrow> be_val (get x) < be_val (get y)"
  by (simp add: lt_words words_less_iff get_length)

lemma val_inject: "be_val (get x) = be_val (get y) \<longleftrightarrow> x = y"
  using get_inject by (auto simp: be_val_inject get_length)

lemma lt_irrefl: "\<not> lt x x"
  by (simp add: lt_iff)

lemma lt_trans: "lt x y \<Longrightarrow> lt y z \<Longrightarrow> lt x z"
  by (simp add: lt_iff)

lemma lt_total: "lt x y \<or> x = y \<or> lt y x"
  by (auto simp: lt_iff simp flip: val_inject)

lemma incomparable_iff: "\<not> lt x y \<and> \<not> lt y x \<longleftrightarrow> eq x y"
  using lt_total [of x y] by (auto simp: eq_iff lt_irrefl)

lemma hash_respects_eq: "eq x y \<Longrightarrow> hash x = hash y"
  by (simp add: eq_iff)

text \<open>Each step of the hash is injective in the word it folds in.\<close>

lemma hash_one_word:
  assumes "hash x = hash y"
    and "\<And>j. j < 8 \<Longrightarrow> j \<noteq> k \<Longrightarrow>
      load64le (drop (8 * j) (get x)) = load64le (drop (8 * j) (get y))"
  shows "x = y"
  using assms words_hash_one_word [of "get x" "get y" k] get_inject
  by (simp add: hash_words get_length)

end

interpretation address_key: byte_key address_bytes address_eq address_less address_hash
  by unfold_locales
    (simp_all add: address_bytes_inject address_eq_def address_less_def address_hash_def)

interpretation bytes64_key: byte_key bytes64_bytes bytes64_eq bytes64_less bytes64_hash
  by unfold_locales
    (simp_all add: bytes64_bytes_inject bytes64_eq_def bytes64_less_def bytes64_hash_def)

text \<open>
  So the operators give the library's classes on the two types: equality is \<open>operator==\<close>, and
  the order is \<open>operator<\<close> and \<open>operator<=\<close>.
\<close>

instantiation qrvmc_address :: equal
begin

definition equal_qrvmc_address :: "qrvmc_address \<Rightarrow> qrvmc_address \<Rightarrow> bool" where
  "equal_qrvmc_address = address_eq"

instance
  by standard (simp add: equal_qrvmc_address_def address_key.eq_iff)

end

instantiation qrvmc_bytes64 :: equal
begin

definition equal_qrvmc_bytes64 :: "qrvmc_bytes64 \<Rightarrow> qrvmc_bytes64 \<Rightarrow> bool" where
  "equal_qrvmc_bytes64 = bytes64_eq"

instance
  by standard (simp add: equal_qrvmc_bytes64_def bytes64_key.eq_iff)

end

instantiation qrvmc_address :: linorder
begin

definition less_qrvmc_address :: "qrvmc_address \<Rightarrow> qrvmc_address \<Rightarrow> bool" where
  "less_qrvmc_address = address_less"

definition less_eq_qrvmc_address :: "qrvmc_address \<Rightarrow> qrvmc_address \<Rightarrow> bool" where
  "less_eq_qrvmc_address = address_le"

instance
  by standard
    (auto simp: less_qrvmc_address_def less_eq_qrvmc_address_def address_le_def
      address_key.lt_iff simp flip: address_key.val_inject)

end

instantiation qrvmc_bytes64 :: linorder
begin

definition less_qrvmc_bytes64 :: "qrvmc_bytes64 \<Rightarrow> qrvmc_bytes64 \<Rightarrow> bool" where
  "less_qrvmc_bytes64 = bytes64_less"

definition less_eq_qrvmc_bytes64 :: "qrvmc_bytes64 \<Rightarrow> qrvmc_bytes64 \<Rightarrow> bool" where
  "less_eq_qrvmc_bytes64 = bytes64_le"

instance
  by standard
    (auto simp: less_qrvmc_bytes64_def less_eq_qrvmc_bytes64_def bytes64_le_def
      bytes64_key.lt_iff simp flip: bytes64_key.val_inject)

end

lemma address_less_val: "a < b \<longleftrightarrow> be_val (address_bytes a) < be_val (address_bytes b)"
  by (simp add: less_qrvmc_address_def address_key.lt_iff)

lemma address_le_val: "a \<le> b \<longleftrightarrow> be_val (address_bytes a) \<le> be_val (address_bytes b)"
  by (simp add: less_eq_qrvmc_address_def address_le_def address_key.lt_iff not_less)

lemma bytes64_less_val: "a < b \<longleftrightarrow> be_val (bytes64_bytes a) < be_val (bytes64_bytes b)"
  by (simp add: less_qrvmc_bytes64_def bytes64_key.lt_iff)

subsection \<open>The constructors from integers\<close>

lemma be_val_u64_be_bytes: "be_val (u64_be_bytes v) = unat v"
proof -
  have join: "push_bit 8 (drop_bit (k + 8) v) OR ucast (ucast (drop_bit k v) :: u8) = drop_bit k v"
    for k
  proof (rule bit_word_eqI)
    fix n
    assume "n < LENGTH(64)"
    then show "bit (push_bit 8 (drop_bit (k + 8) v) OR ucast (ucast (drop_bit k v) :: u8)) n =
        bit (drop_bit k v) n"
      by (cases "n < 8") (simp_all add: bit_simps ac_simps)
  qed
  have "load64be (u64_be_bytes v) = v"
    using join [of 56] join [of 48] join [of 40] join [of 32] join [of 24] join [of 16]
      join [of 8] join [of 0]
    by (simp add: load64be_horner u64_be_bytes_def)
  then have "unat v = be_val (take 8 (u64_be_bytes v))"
    using unat_load64be [of "u64_be_bytes v"] by (simp add: u64_be_bytes_def)
  then show ?thesis by (simp add: u64_be_bytes_def)
qed

lemma be_val_address_of_u64 [be_simps]: "be_val (address_bytes (address_of_u64 v)) = unat v"
  by (simp add: address_of_u64.rep_eq be_val_u64_be_bytes be_val_replicate_0)

lemma be_val_bytes64_of_u64 [be_simps]: "be_val (bytes64_bytes (bytes64_of_u64 v)) = unat v"
  by (simp add: bytes64_of_u64.rep_eq be_val_u64_be_bytes be_val_replicate_0)

lemma be_val_address_zero [be_simps]: "be_val (address_bytes address_zero) = 0"
  by (simp add: address_zero.rep_eq be_val_replicate_0')

lemma be_val_bytes64_zero [be_simps]: "be_val (bytes64_bytes bytes64_zero) = 0"
  by (simp add: bytes64_zero.rep_eq be_val_replicate_0')

lemma address_is_zero_iff: "address_is_zero a \<longleftrightarrow> a = address_zero"
  by (simp add: address_is_zero_def address_key.eq_iff)

lemma bytes64_is_zero_iff: "bytes64_is_zero b \<longleftrightarrow> b = bytes64_zero"
  by (simp add: bytes64_is_zero_def bytes64_key.eq_iff)

subsection \<open>Properties\<close>

text \<open>C25: The comparison operators of the two containers, which the source writes over eight 64-bit
loads (equality over little-endian loads, the order over big-endian ones), are equality and the
order of the 512-bit big-endian numbers that the containers hold; the boolean conversion tests for
a number that is not zero.\<close>

theorem byte_operators_compare_numbers:
  "(address_eq a b \<longleftrightarrow> be_val (address_bytes a) = be_val (address_bytes b)) \<and>
   (address_ne a b \<longleftrightarrow> be_val (address_bytes a) \<noteq> be_val (address_bytes b)) \<and>
   (address_less a b \<longleftrightarrow> be_val (address_bytes a) < be_val (address_bytes b)) \<and>
   (address_greater a b \<longleftrightarrow> be_val (address_bytes a) > be_val (address_bytes b)) \<and>
   (address_le a b \<longleftrightarrow> be_val (address_bytes a) \<le> be_val (address_bytes b)) \<and>
   (address_ge a b \<longleftrightarrow> be_val (address_bytes a) \<ge> be_val (address_bytes b)) \<and>
   (address_bool a \<longleftrightarrow> be_val (address_bytes a) \<noteq> 0) \<and>
   (bytes64_eq x y \<longleftrightarrow> be_val (bytes64_bytes x) = be_val (bytes64_bytes y)) \<and>
   (bytes64_ne x y \<longleftrightarrow> be_val (bytes64_bytes x) \<noteq> be_val (bytes64_bytes y)) \<and>
   (bytes64_less x y \<longleftrightarrow> be_val (bytes64_bytes x) < be_val (bytes64_bytes y)) \<and>
   (bytes64_greater x y \<longleftrightarrow> be_val (bytes64_bytes x) > be_val (bytes64_bytes y)) \<and>
   (bytes64_le x y \<longleftrightarrow> be_val (bytes64_bytes x) \<le> be_val (bytes64_bytes y)) \<and>
   (bytes64_ge x y \<longleftrightarrow> be_val (bytes64_bytes x) \<ge> be_val (bytes64_bytes y)) \<and>
   (bytes64_bool x \<longleftrightarrow> be_val (bytes64_bytes x) \<noteq> 0)"
  using address_key.val_inject [of a address_zero] bytes64_key.val_inject [of x bytes64_zero]
  by (simp add: address_ne_def address_greater_def address_le_def address_ge_def
      address_bool_def address_is_zero_iff bytes64_ne_def bytes64_greater_def bytes64_le_def
      bytes64_ge_def bytes64_bool_def bytes64_is_zero_iff address_key.eq_iff address_key.lt_iff
      bytes64_key.eq_iff bytes64_key.lt_iff address_key.val_inject bytes64_key.val_inject not_less
      be_simps)

text \<open>The hash of the containers gives equal keys equal hashes, and never confuses two keys
that agree on all but one of their eight 64-bit words, which small numbers always do: keys made
from different \<open>uint64_t\<close> values never collide.\<close>

theorem hash_separates_words:
  assumes "\<forall>j<8. j \<noteq> k \<longrightarrow>
      load64le (drop (8 * j) (address_bytes a)) = load64le (drop (8 * j) (address_bytes b))"
    and "\<forall>j<8. j \<noteq> k \<longrightarrow>
      load64le (drop (8 * j) (bytes64_bytes x)) = load64le (drop (8 * j) (bytes64_bytes y))"
  shows "(address_hash a = address_hash b \<longleftrightarrow> address_eq a b) \<and>
    (bytes64_hash x = bytes64_hash y \<longleftrightarrow> bytes64_eq x y)"
  using assms address_key.hash_one_word [of a b k] bytes64_key.hash_one_word [of x y k]
  by (auto simp: address_key.eq_iff bytes64_key.eq_iff)

lemma of_u64_other_words:
  assumes "j < 8" "j \<noteq> 7"
  shows "take 8 (drop (8 * j) (replicate 56 0 @ bs)) = replicate 8 (0::u8)"
  using assms by (intro nth_equalityI) (auto simp: nth_append)

theorem hash_separates_words_witness:
  "address_hash (address_of_u64 1) \<noteq> address_hash (address_of_u64 2) \<and>
    bytes64_hash (bytes64_of_u64 1) \<noteq> bytes64_hash (bytes64_of_u64 256)"
proof -
  have ne: "address_of_u64 1 \<noteq> address_of_u64 2" "bytes64_of_u64 1 \<noteq> bytes64_of_u64 256"
    using be_val_address_of_u64 [of 1] be_val_address_of_u64 [of 2] be_val_bytes64_of_u64 [of 1]
      be_val_bytes64_of_u64 [of 256] by auto
  have same: "load64le (drop (8 * j) (replicate 56 0 @ u64_be_bytes v)) =
      load64le (drop (8 * j) (replicate 56 0 @ u64_be_bytes w))" if "j < 8" "j \<noteq> 7" for j v w
    using that by (subst load64le_inject) (simp_all add: of_u64_other_words u64_be_bytes_def)
  have "\<forall>j<8. j \<noteq> 7 \<longrightarrow> load64le (drop (8 * j) (address_bytes (address_of_u64 1))) =
      load64le (drop (8 * j) (address_bytes (address_of_u64 2)))"
    "\<forall>j<8. j \<noteq> 7 \<longrightarrow> load64le (drop (8 * j) (bytes64_bytes (bytes64_of_u64 1))) =
      load64le (drop (8 * j) (bytes64_bytes (bytes64_of_u64 256)))"
    using same by (auto simp: address_of_u64.rep_eq bytes64_of_u64.rep_eq)
  then show ?thesis
    using hash_separates_words [of 7 "address_of_u64 1" "address_of_u64 2" "bytes64_of_u64 1"
        "bytes64_of_u64 256"] ne
    by (simp add: address_key.eq_iff bytes64_key.eq_iff)
qed

text \<open>The constructors from \<open>uint64_t\<close> store the number in big-endian order in the last eight
bytes behind zeros, so the container holds that number, the big-endian load of its end reads it
back, and the byte-reversed copy is read back by the little-endian load.\<close>

theorem u64_constructor_roundtrip:
  "(be_val (address_bytes (address_of_u64 v)) = unat v) \<and>
   (be_val (bytes64_bytes (bytes64_of_u64 v)) = unat v) \<and>
   (load64be (drop 56 (address_bytes (address_of_u64 v))) = v) \<and>
   (load64le (rev (drop 56 (bytes64_bytes (bytes64_of_u64 v)))) = v) \<and>
   (address_is_zero (address_of_u64 v) \<longleftrightarrow> v = 0)"
proof (intro conjI)
  have len: "length (u64_be_bytes v) = 8"
    by (simp add: u64_be_bytes_def)
  have load: "load64be (u64_be_bytes v) = v"
    using unat_load64be [of "u64_be_bytes v"] len
    by (simp add: be_val_u64_be_bytes word_unat_eq_iff)
  then show "load64be (drop 56 (address_bytes (address_of_u64 v))) = v"
    by (simp add: address_of_u64.rep_eq)
  show "load64le (rev (drop 56 (bytes64_bytes (bytes64_of_u64 v)))) = v"
    using load len by (simp add: bytes64_of_u64.rep_eq load64le_rev)
  show "address_is_zero (address_of_u64 v) \<longleftrightarrow> v = 0"
    using address_key.val_inject [of "address_of_u64 v" address_zero]
    by (simp add: address_is_zero_iff be_simps unat_eq_0)
qed (simp_all add: be_simps)

end
