(* ===== verification/Hex.thy ===== *)
theory Hex
  imports Bytes
begin

text \<open>
  Hex encoding and decoding (\<open>include/qrvmc/hex.hpp\<close>), the iterator that skips white space
  (\<open>include/qrvmc/filter_iterator.hpp\<close>) and the literals of \<open>include/qrvmc/qrvmc.hpp\<close>.

  The decoder is a template over an input iterator. Its model \<open>from_hex_loop\<close> takes the
  iterator's operations as arguments, as the template does, and may in principle not return; the
  locale \<open>input_range\<close> states what the loop needs of an iterator pair and proves that it then
  returns the result of decoding the characters that are left.
\<close>

subsection \<open>Characters\<close>

text \<open>The value of a \<open>char\<close>, which is signed on the platforms the project builds for.\<close>

definition char_val :: "char \<Rightarrow> int" where
  "char_val c = (let n = int (of_char c) in if n < 128 then n else n - 256)"

definition isspace :: "char \<Rightarrow> bool" where
  "isspace ch \<longleftrightarrow> ch = CHR '' '' \<or> (word_of_int (char_val ch) :: u32) - 9 < 5"

definition is_not_space :: "char \<Rightarrow> bool" where
  "is_not_space ch = (\<not> isspace ch)"

definition from_hex_digit :: "char \<Rightarrow> int" where
  "from_hex_digit c =
    (let h = char_val c in
     if h \<ge> char_val CHR ''0'' \<and> h \<le> char_val CHR ''9'' then h - char_val CHR ''0''
     else if h \<ge> char_val CHR ''a'' \<and> h \<le> char_val CHR ''f'' then h - char_val CHR ''a'' + 10
     else if h \<ge> char_val CHR ''A'' \<and> h \<le> char_val CHR ''F'' then h - char_val CHR ''A'' + 10
     else -1)"

lemma char_val_digits [simp]:
  "char_val CHR ''0'' = 48" "char_val CHR ''9'' = 57" "char_val CHR ''a'' = 97"
  "char_val CHR ''f'' = 102" "char_val CHR ''A'' = 65" "char_val CHR ''F'' = 70"
  by (simp_all add: char_val_def)

lemma from_hex_digit_chars:
  "from_hex_digit CHR ''0'' = 0"
  "from_hex_digit CHR ''1'' = 1"
  "from_hex_digit CHR ''2'' = 2"
  "from_hex_digit CHR ''3'' = 3"
  "from_hex_digit CHR ''4'' = 4"
  "from_hex_digit CHR ''5'' = 5"
  "from_hex_digit CHR ''6'' = 6"
  "from_hex_digit CHR ''7'' = 7"
  "from_hex_digit CHR ''8'' = 8"
  "from_hex_digit CHR ''9'' = 9"
  "from_hex_digit CHR ''a'' = 10"
  "from_hex_digit CHR ''b'' = 11"
  "from_hex_digit CHR ''c'' = 12"
  "from_hex_digit CHR ''d'' = 13"
  "from_hex_digit CHR ''e'' = 14"
  "from_hex_digit CHR ''f'' = 15"
  "from_hex_digit CHR ''A'' = 10"
  "from_hex_digit CHR ''B'' = 11"
  "from_hex_digit CHR ''C'' = 12"
  "from_hex_digit CHR ''D'' = 13"
  "from_hex_digit CHR ''E'' = 14"
  "from_hex_digit CHR ''F'' = 15"
  "from_hex_digit CHR ''x'' = -1" "from_hex_digit CHR ''X'' = -1"
  by (simp_all add: from_hex_digit_def char_val_def)

lemma from_hex_digit_range: "-1 \<le> from_hex_digit c" "from_hex_digit c \<le> 15"
  by (auto simp: from_hex_digit_def Let_def)

lemma char_val_range: "-128 \<le> char_val c" "char_val c < 128"
  using nat_of_char_less_256 [of c]
  by (auto simp: char_val_def Let_def simp del: nat_of_char_less_256)

text \<open>The six characters of \<open>std::isspace\<close> in the C locale.\<close>

lemma isspace_iff: "isspace ch \<longleftrightarrow> of_char ch \<in> {9, 10, 11, 12, 13, 32 :: nat}"
proof -
  let ?v = "char_val ch"
  have range: "-128 \<le> ?v" "?v < 128"
    by (rule char_val_range)+
  have "(word_of_int ?v :: u32) - 9 < 5 \<longleftrightarrow> (?v - 9) mod 2 ^ 32 < 5"
    by (simp add: word_less_def uint_word_ariths uint_word_of_int take_bit_eq_mod mod_simps)
  also have "\<dots> \<longleftrightarrow> 9 \<le> ?v \<and> ?v < 14"
  proof (cases "9 \<le> ?v")
    case True
    then show ?thesis using range by simp
  next
    case False
    then show ?thesis using range int_mod_pos_eq [of "?v - 9" "2 ^ 32" "-1" "?v - 9 + 2 ^ 32"] by simp
  qed
  also have "\<dots> \<longleftrightarrow> of_char ch \<in> {9, 10, 11, 12, 13 :: nat}"
    using nat_of_char_less_256 [of ch]
    by (auto simp: char_val_def Let_def simp del: nat_of_char_less_256)
  finally have "(word_of_int ?v :: u32) - 9 < 5 \<longleftrightarrow> of_char ch \<in> {9, 10, 11, 12, 13 :: nat}" .
  moreover have "ch = CHR '' '' \<longleftrightarrow> of_char ch = (32 :: nat)"
    using of_char_eq_iff [of ch "CHR '' ''", where 'a = nat] by simp
  ultimately show ?thesis
    by (auto simp: isspace_def)
qed

subsection \<open>Encoding\<close>

definition hex_byte :: "u8 \<Rightarrow> string" where
  "hex_byte b =
    (let hex_digits = ''0123456789abcdef''
     in [hex_digits ! unat (drop_bit 4 b), hex_digits ! unat (b AND 0xf)])"

definition hex :: "u8 list \<Rightarrow> string" where
  "hex bs = foldl (\<lambda>str b. str @ hex_byte b) [] bs"

lemma hex_Nil [simp]: "hex [] = []"
  by (simp add: hex_def)

lemma hex_foldl: "foldl (\<lambda>str b. str @ hex_byte b) xs bs = xs @ concat (map hex_byte bs)"
  by (induction bs arbitrary: xs) simp_all

lemma hex_Cons [simp]: "hex (b # bs) = hex_byte b @ hex bs"
  by (simp add: hex_def hex_foldl)

lemma length_hex [simp]: "length (hex bs) = 2 * length bs"
  by (induction bs) (simp_all add: hex_byte_def Let_def)

lemma hex_digits_nth:
  assumes "k < 16"
  shows "from_hex_digit (''0123456789abcdef'' ! k) = int k"
proof -
  have "[0..<16] = [0, 1, 2, 3, 4, 5, 6, 7, 8, 9, 10, 11, 12, 13, 14, 15]"
    by (simp add: upt_rec)
  then have "\<forall>k \<in> set [0..<16]. from_hex_digit (''0123456789abcdef'' ! k) = int k"
    by (simp add: from_hex_digit_chars del: set_upt)
  then show ?thesis using assms by simp
qed

lemma hex_byte_digits:
  "\<exists>c d. hex_byte b = [c, d] \<and> from_hex_digit c = int (unat b div 16) \<and>
    from_hex_digit d = int (unat b mod 16)"
proof -
  have "b AND 0xf = take_bit 4 b"
    by (simp add: take_bit_eq_mask mask_eq_exp_minus_1)
  then have lo: "unat (b AND 0xf) = unat b mod 16"
    by (simp add: take_bit_eq_mod unat_mod)
  have hi: "unat (drop_bit 4 b) = unat b div 16"
    by (simp add: drop_bit_eq_div unat_div)
  have "unat b div 16 < 16"
    using unat_u8_less [of b] by linarith
  then show ?thesis
    unfolding hex_byte_def Let_def lo hi by (simp add: hex_digits_nth)
qed

subsection \<open>The generic decoder\<close>

text \<open>
  \<open>from_hex(begin, end, out)\<close>: the iterator \<open>it\<close>, the loop variables \<open>i\<close> and \<open>hi_nibble\<close>, and the
  bytes written through \<open>out\<close> so far. The result holds the returned flag and the bytes written,
  which the caller sees also when the input is invalid.
\<close>

partial_function (option) from_hex_loop ::
    "('it \<Rightarrow> bool) \<Rightarrow> ('it \<Rightarrow> char) \<Rightarrow> ('it \<Rightarrow> 'it) \<Rightarrow> 'it \<Rightarrow> nat \<Rightarrow> int \<Rightarrow> u8 list \<Rightarrow>
      (bool \<times> u8 list) option" where
  "from_hex_loop at_end deref inc it i hi_nibble out =
    (if at_end it then Some (i mod 2 = 0, out)
     else let h = deref it; v = from_hex_digit h in
       if v < 0 then
         (if i = 1 \<and> hi_nibble = 0 \<and> h = CHR ''x''
          then from_hex_loop at_end deref inc (inc it) (i + 1) hi_nibble out
          else Some (False, out))
       else if i mod 2 = 0
         then from_hex_loop at_end deref inc (inc it) (i + 1) (push_bit 4 v) out
         else from_hex_loop at_end deref inc (inc it) (i + 1) hi_nibble
           (out @ [word_of_int (hi_nibble OR v)]))"

text \<open>The same loop over the list of the characters that are left.\<close>

fun from_hex_list :: "string \<Rightarrow> nat \<Rightarrow> int \<Rightarrow> u8 list \<Rightarrow> bool \<times> u8 list" where
  "from_hex_list [] i hi_nibble out = (i mod 2 = 0, out)"
| "from_hex_list (h # hs) i hi_nibble out =
    (if from_hex_digit h < 0 then
       (if i = 1 \<and> hi_nibble = 0 \<and> h = CHR ''x'' then from_hex_list hs (i + 1) hi_nibble out
        else (False, out))
     else if i mod 2 = 0 then from_hex_list hs (i + 1) (push_bit 4 (from_hex_digit h)) out
     else from_hex_list hs (i + 1) hi_nibble (out @ [word_of_int (hi_nibble OR from_hex_digit h)]))"

text \<open>What the decoder needs of a pair of input iterators.\<close>

locale input_range =
  fixes at_end :: "'it \<Rightarrow> bool"
    and deref :: "'it \<Rightarrow> char"
    and inc :: "'it \<Rightarrow> 'it"
    and remaining :: "'it \<Rightarrow> string"
    and invar :: "'it \<Rightarrow> bool"
  assumes at_end_iff: "invar it \<Longrightarrow> at_end it \<longleftrightarrow> remaining it = []"
    and deref_hd: "invar it \<Longrightarrow> \<not> at_end it \<Longrightarrow> deref it = hd (remaining it)"
    and remaining_inc: "invar it \<Longrightarrow> \<not> at_end it \<Longrightarrow> remaining (inc it) = tl (remaining it)"
    and invar_inc: "invar it \<Longrightarrow> \<not> at_end it \<Longrightarrow> invar (inc it)"
begin

lemma loop_returns:
  assumes "invar it"
  shows "from_hex_loop at_end deref inc it i hi out = Some (from_hex_list (remaining it) i hi out)"
  using assms
proof (induction "remaining it" arbitrary: it i hi out)
  case Nil
  then show ?case by (subst from_hex_loop.simps) (simp add: at_end_iff flip: Nil.hyps)
next
  case (Cons h hs)
  then have rem: "remaining it = h # hs" by simp
  have end_it: "\<not> at_end it" by (simp add: at_end_iff Cons.prems rem)
  have "deref it = h" "remaining (inc it) = hs" "invar (inc it)"
    using deref_hd remaining_inc invar_inc Cons.prems end_it by (simp_all add: rem)
  then show ?case
    using Cons.hyps(1) [of "inc it"] end_it
    by (subst from_hex_loop.simps) (simp add: Let_def rem)
qed

end

text \<open>The iterators of a \<open>std::string_view\<close>.\<close>

interpretation string_view: input_range "\<lambda>s :: string. s = []" hd tl "\<lambda>s. s" "\<lambda>_. True"
  by unfold_locales simp_all

definition from_hex_range :: "string \<Rightarrow> (bool \<times> u8 list) option" where
  "from_hex_range s = from_hex_loop (\<lambda>s. s = []) hd tl s 0 (-1) []"

lemma from_hex_range_list: "from_hex_range s = Some (from_hex_list s 0 (-1) [])"
  by (simp add: from_hex_range_def string_view.loop_returns)

definition validate_hex :: "string \<Rightarrow> bool" where
  "validate_hex s = (case from_hex_range s of Some (ok, _) \<Rightarrow> ok | None \<Rightarrow> False)"

definition from_hex :: "string \<Rightarrow> u8 list option" where
  "from_hex s = (case from_hex_range s of Some (True, bs) \<Rightarrow> Some bs | _ \<Rightarrow> None)"

subsection \<open>A reference decoder\<close>

text \<open>Two digits make a byte; an optional \<open>0x\<close> stands in front.\<close>

fun decode_pairs :: "string \<Rightarrow> u8 list option" where
  "decode_pairs [] = Some []"
| "decode_pairs [c] = None"
| "decode_pairs (c # d # s) =
    (if from_hex_digit c < 0 \<or> from_hex_digit d < 0 then None
     else map_option ((#) (word_of_int (16 * from_hex_digit c + from_hex_digit d))) (decode_pairs s))"

definition strip_0x :: "string \<Rightarrow> string" where
  "strip_0x s = (if take 2 s = ''0x'' then drop 2 s else s)"

lemma nibbles:
  assumes "0 \<le> d" "d < 16"
  shows "push_bit 4 c OR d = 16 * c + (d :: int)"
proof -
  have d: "take_bit 4 d = d"
    using assms by (simp add: take_bit_int_eq_self)
  have "push_bit 4 c AND d = 0"
  proof (rule bit_eqI)
    fix n
    have "bit d n \<Longrightarrow> n < 4"
      using d by (metis bit_take_bit_iff)
    then show "bit (push_bit 4 c AND d) n = bit (0 :: int) n"
      by (auto simp: bit_simps)
  qed
  then have "push_bit 4 c OR d = push_bit 4 c + d"
    by (simp add: disjunctive_add_eq_or)
  then show ?thesis by (simp add: push_bit_eq_mult)
qed

lemma pair_byte:
  assumes "0 \<le> from_hex_digit d"
  shows "(word_of_int (push_bit 4 (from_hex_digit c) OR from_hex_digit d) :: u8) =
    word_of_int (16 * from_hex_digit c + from_hex_digit d)"
  using assms from_hex_digit_range(2) [of d] by (simp add: nibbles)

lemma from_hex_digit_0:
  assumes "from_hex_digit c = 0"
  shows "c = CHR ''0''"
proof -
  have "char_val c = 48"
    using assms by (auto simp: from_hex_digit_def Let_def split: if_splits)
  then have "of_char c = (48 :: nat)"
    using nat_of_char_less_256 [of c]
    by (auto simp: char_val_def Let_def split: if_splits simp del: nat_of_char_less_256)
  then show ?thesis
    using of_char_eq_iff [of c "CHR ''0''", where 'a = nat] by simp
qed

lemma from_hex_list_Some:
  "decode_pairs s = Some bs \<Longrightarrow> i mod 2 = 0 \<Longrightarrow> from_hex_list s i hi out = (True, out @ bs)"
proof (induction s arbitrary: i hi out bs rule: decode_pairs.induct)
  case (3 c d s)
  then obtain bs' where "decode_pairs s = Some bs'" "0 \<le> from_hex_digit c" "0 \<le> from_hex_digit d"
      "bs = word_of_int (16 * from_hex_digit c + from_hex_digit d) # bs'"
    by (auto simp: not_less split: if_splits)
  then show ?case
    using 3 by (simp add: pair_byte mod_Suc)
qed simp_all

lemma from_hex_list_None:
  "decode_pairs s = None \<Longrightarrow> i mod 2 = 0 \<Longrightarrow> 2 \<le> i \<Longrightarrow> \<not> fst (from_hex_list s i hi out)"
  by (induction s arbitrary: i hi out rule: decode_pairs.induct) (auto simp: mod_Suc split: if_splits)

lemma from_hex_decode: "from_hex s = decode_pairs (strip_0x s)"
proof (cases "take 2 s = ''0x''")
  case True
  then obtain r where s: "s = CHR ''0'' # CHR ''x'' # r"
    by (cases s rule: decode_pairs.cases) auto
  have "from_hex_list s 0 (-1) [] = from_hex_list r 2 0 []"
    by (simp add: s from_hex_digit_chars numeral_2_eq_2)
  then show ?thesis
    using from_hex_list_Some [of r _ 2 0 "[]"] from_hex_list_None [of r 2 0 "[]"]
    by (cases "decode_pairs r")
      (auto simp: from_hex_def from_hex_range_list strip_0x_def s split: prod.splits bool.splits)
next
  case False
  have "\<not> fst (from_hex_list s 0 (-1) [])" if "decode_pairs s = None"
  proof (cases s rule: decode_pairs.cases)
    case (3 c d r)
    have "from_hex_digit c = 0 \<Longrightarrow> d \<noteq> CHR ''x''"
      using False from_hex_digit_0 [of c] by (auto simp: 3)
    then show ?thesis
      using that from_hex_list_None [of r 2] by (auto simp: 3 numeral_2_eq_2 split: if_splits)
  qed (use that in \<open>auto split: if_splits\<close>)
  then show ?thesis
    using False from_hex_list_Some [of s _ 0 "-1" "[]"]
    by (cases "decode_pairs s")
      (auto simp: from_hex_def from_hex_range_list strip_0x_def split: prod.splits bool.splits)
qed

lemma from_hex_list_length:
  "length (snd (from_hex_list s i hi out)) \<le> length out + (length s + i mod 2) div 2"
proof (induction s i hi out rule: from_hex_list.induct)
  case (2 h hs i hi out)
  then show ?case by (cases "i mod 2 = 0") (auto simp: mod_Suc)
qed simp

lemma decode_pairs_hex: "decode_pairs (hex bs) = Some bs"
proof (induction bs)
  case (Cons b bs)
  obtain c d where "hex_byte b = [c, d]" "from_hex_digit c = int (unat b div 16)"
    "from_hex_digit d = int (unat b mod 16)"
    using hex_byte_digits by blast
  moreover have "16 * int (unat b div 16) + int (unat b mod 16) = int (unat b)"
    by (simp add: zdiv_int zmod_int)
  ultimately show ?case using Cons.IH by simp
qed simp

lemma validate_hex_from_hex: "validate_hex s \<longleftrightarrow> from_hex s \<noteq> None"
  by (auto simp: validate_hex_def from_hex_def split: option.splits prod.splits bool.splits)

lemma strip_0x_decodes: "decode_pairs s \<noteq> None \<Longrightarrow> strip_0x s = s"
  by (cases s rule: decode_pairs.cases) (auto simp: strip_0x_def from_hex_digit_chars)

lemma decode_pairs_length: "decode_pairs s = Some bs \<Longrightarrow> length s = 2 * length bs"
  by (induction s arbitrary: bs rule: decode_pairs.induct) (auto split: if_splits)

subsection \<open>Decoding into a fixed-size type\<close>

text \<open>
  The templates \<open>from_prefixed_hex<T>\<close> and \<open>from_hex<T>\<close>, for a \<open>T\<close> with \<open>num_out_bytes\<close> bytes: the
  decoder writes from offset \<open>num_out_bytes - num_in_bytes\<close> of the zeroed array on. A second \<open>0x\<close>
  is refused, as the decoder would skip it without writing a byte for it.
\<close>

definition rejects_0x :: "string \<Rightarrow> bool" where
  "rejects_0x s \<longleftrightarrow> length s \<ge> 2 \<and> s ! 0 = CHR ''0'' \<and> (s ! 1 = CHR ''x'' \<or> s ! 1 = CHR ''X'')"

definition decode_into :: "nat \<Rightarrow> string \<Rightarrow> u8 list option" where
  "decode_into num_out_bytes s =
    (let r = replicate num_out_bytes 0; num_in_bytes = length s div 2 in
     if num_in_bytes > num_out_bytes then None
     else case from_hex_range s of
       Some (True, out) \<Rightarrow> Some (blit r (num_out_bytes - num_in_bytes) out)
     | _ \<Rightarrow> None)"

definition from_prefixed_hex_T :: "nat \<Rightarrow> string \<Rightarrow> string \<Rightarrow> u8 list option" where
  "from_prefixed_hex_T num_out_bytes s pre =
    (if s \<noteq> [] \<and> take (length pre) s \<noteq> pre then None
     else let s' = (if s \<noteq> [] then drop (length pre) s else s) in
       if rejects_0x s' then None else decode_into num_out_bytes s')"

definition from_hex_T :: "nat \<Rightarrow> string \<Rightarrow> u8 list option" where
  "from_hex_T num_out_bytes s =
    (if length s \<ge> 2 \<and> s ! 0 = CHR ''0'' \<and> s ! 1 = CHR ''x'' then
       let s' = drop 2 s in if rejects_0x s' then None else decode_into num_out_bytes s'
     else decode_into num_out_bytes s)"

text \<open>The user-defined literals; \<open>None\<close> is the call of \<open>std::terminate\<close>.\<close>

definition address_literal :: "string \<Rightarrow> qrvmc_address option" where
  "address_literal s = map_option address_of_bytes (from_prefixed_hex_T 64 s ''Q'')"

definition bytes64_literal :: "string \<Rightarrow> qrvmc_bytes64 option" where
  "bytes64_literal s = map_option bytes64_of_bytes (from_hex_T 64 s)"

lemma rejects_0x_strip: "\<not> rejects_0x s \<Longrightarrow> strip_0x s = s"
  by (cases s rule: decode_pairs.cases) (auto simp: rejects_0x_def strip_0x_def)

lemma rejects_0X: "s ! 0 = CHR ''0'' \<Longrightarrow> s ! 1 = CHR ''X'' \<Longrightarrow> length s \<ge> 2 \<Longrightarrow> decode_pairs s = None"
  by (cases s rule: decode_pairs.cases) (auto simp: from_hex_digit_chars)

lemma not_rejects_0x_decodes: "decode_pairs s \<noteq> None \<Longrightarrow> \<not> rejects_0x s"
  by (cases s rule: decode_pairs.cases) (auto simp: rejects_0x_def from_hex_digit_chars)

text \<open>Under the guard, the array is exactly the decoded bytes behind a padding of zeros.\<close>

lemma decode_into_eq:
  assumes "\<not> rejects_0x s"
  shows "decode_into n s =
    (case decode_pairs s of
       None \<Rightarrow> None
     | Some bs \<Rightarrow> if length bs > n then None else Some (replicate (n - length bs) 0 @ bs))"
proof -
  have "from_hex s = decode_pairs s"
    using assms by (simp add: from_hex_decode rejects_0x_strip)
  moreover have "length s div 2 = length bs" if "decode_pairs s = Some bs" for bs
    using decode_pairs_length [OF that] by simp
  ultimately show ?thesis
    by (auto simp: decode_into_def from_hex_def blit_def Let_def
        split: option.splits prod.splits bool.splits)
qed

text \<open>Writes through the output pointer stay inside the array, whatever the input.\<close>

lemma decode_into_in_bounds:
  assumes "from_hex_range s = Some (ok, out)" "length s div 2 \<le> n"
  shows "n - length s div 2 + length out \<le> n"
  using assms from_hex_list_length [of s 0 "-1" "[]"] by (simp add: from_hex_range_list)

subsection \<open>The filter iterator\<close>

text \<open>
  An iterator into a string is the suffix that is left of it; two iterators into the same string
  are equal when as much is left. \<open>fi_val\<close> caches the character at the position. The source leaves
  it uninitialised until the first character is read, here it is \<open>CHR 0x00\<close> until then.
\<close>

record filter_iterator =
  fi_base :: string
  fi_val :: char

fun forward_to_next_value :: "(char \<Rightarrow> bool) \<Rightarrow> string \<Rightarrow> char \<Rightarrow> filter_iterator" where
  "forward_to_next_value p [] v = \<lparr>fi_base = [], fi_val = v\<rparr>"
| "forward_to_next_value p (x # xs) v =
    (if p x then \<lparr>fi_base = x # xs, fi_val = x\<rparr> else forward_to_next_value p xs x)"

definition filter_iterator_make :: "(char \<Rightarrow> bool) \<Rightarrow> string \<Rightarrow> filter_iterator" where
  "filter_iterator_make p s = forward_to_next_value p s (CHR 0x00)"

definition filter_iterator_deref :: "filter_iterator \<Rightarrow> char" where
  "filter_iterator_deref it = fi_val it"

definition filter_iterator_inc :: "(char \<Rightarrow> bool) \<Rightarrow> filter_iterator \<Rightarrow> filter_iterator" where
  "filter_iterator_inc p it = forward_to_next_value p (tl (fi_base it)) (fi_val it)"

definition filter_iterator_post_inc ::
    "(char \<Rightarrow> bool) \<Rightarrow> filter_iterator \<Rightarrow> filter_iterator \<times> filter_iterator" where
  "filter_iterator_post_inc p it = (let previous = it in (previous, filter_iterator_inc p it))"

definition filter_iterator_eq :: "filter_iterator \<Rightarrow> filter_iterator \<Rightarrow> bool" where
  "filter_iterator_eq a b \<longleftrightarrow> length (fi_base a) = length (fi_base b)"

definition filter_iterator_ne :: "filter_iterator \<Rightarrow> filter_iterator \<Rightarrow> bool" where
  "filter_iterator_ne a b \<longleftrightarrow> length (fi_base a) \<noteq> length (fi_base b)"

definition from_spaced_hex_range :: "string \<Rightarrow> (bool \<times> u8 list) option" where
  "from_spaced_hex_range s =
    from_hex_loop (\<lambda>it. \<not> filter_iterator_ne it (filter_iterator_make is_not_space []))
      filter_iterator_deref (filter_iterator_inc is_not_space)
      (filter_iterator_make is_not_space s) 0 (-1) []"

definition from_spaced_hex :: "string \<Rightarrow> u8 list option" where
  "from_spaced_hex s = (case from_spaced_hex_range s of Some (True, bs) \<Rightarrow> Some bs | _ \<Rightarrow> None)"

text \<open>
  An iterator made by the constructor or an increment stands on a character that the predicate
  keeps and has it cached, or it is at the end.
\<close>

definition filter_iterator_ok :: "(char \<Rightarrow> bool) \<Rightarrow> filter_iterator \<Rightarrow> bool" where
  "filter_iterator_ok p it \<longleftrightarrow>
    (fi_base it \<noteq> [] \<longrightarrow> p (hd (fi_base it)) \<and> fi_val it = hd (fi_base it))"

lemma forward_ok: "filter_iterator_ok p (forward_to_next_value p s v)"
  by (induction p s v rule: forward_to_next_value.induct) (simp_all add: filter_iterator_ok_def)

lemma forward_filter: "filter p (fi_base (forward_to_next_value p s v)) = filter p s"
  by (induction p s v rule: forward_to_next_value.induct) simp_all

interpretation skip_space: input_range
  "\<lambda>it. \<not> filter_iterator_ne it (filter_iterator_make is_not_space [])"
  filter_iterator_deref "filter_iterator_inc is_not_space"
  "\<lambda>it. filter is_not_space (fi_base it)" "filter_iterator_ok is_not_space"
proof unfold_locales
  fix it
  assume ok: "filter_iterator_ok is_not_space it"
  then show "(\<not> filter_iterator_ne it (filter_iterator_make is_not_space [])) =
      (filter is_not_space (fi_base it) = [])"
    by (cases "fi_base it")
      (simp_all add: filter_iterator_ne_def filter_iterator_make_def filter_iterator_ok_def)
  assume "\<not> \<not> filter_iterator_ne it (filter_iterator_make is_not_space [])"
  then obtain x xs where "fi_base it = x # xs"
    by (cases "fi_base it") (simp_all add: filter_iterator_ne_def filter_iterator_make_def)
  moreover from this have "is_not_space x" "fi_val it = x"
    using ok by (simp_all add: filter_iterator_ok_def)
  ultimately show "filter_iterator_deref it = hd (filter is_not_space (fi_base it))"
    and "filter is_not_space (fi_base (filter_iterator_inc is_not_space it)) =
      tl (filter is_not_space (fi_base it))"
    and "filter_iterator_ok is_not_space (filter_iterator_inc is_not_space it)"
    by (simp_all add: filter_iterator_deref_def filter_iterator_inc_def forward_filter forward_ok)
qed

lemma from_spaced_hex_range_list:
  "from_spaced_hex_range s = Some (from_hex_list (filter is_not_space s) 0 (-1) [])"
  unfolding from_spaced_hex_range_def filter_iterator_make_def
  by (subst skip_space.loop_returns [unfolded filter_iterator_make_def])
    (simp_all add: forward_ok forward_filter)

subsection \<open>Properties\<close>

text \<open>C27: Decoding inverts encoding: \<open>from_hex\<close> returns the bytes that \<open>hex\<close> printed, with and
without the \<open>0x\<close> prefix, and \<open>validate_hex\<close> accepts both texts.\<close>

theorem hex_roundtrip:
  "(from_hex (hex bs) = Some bs) \<and>
   (from_hex (''0x'' @ hex bs) = Some bs) \<and>
   (validate_hex (''0x'' @ hex bs))"
proof (intro conjI)
  have "strip_0x (hex bs) = hex bs"
    by (rule strip_0x_decodes) (simp add: decode_pairs_hex)
  then show "from_hex (hex bs) = Some bs"
    by (simp add: from_hex_decode decode_pairs_hex)
  show "from_hex (''0x'' @ hex bs) = Some bs"
    by (simp add: from_hex_decode strip_0x_def decode_pairs_hex)
  then show "validate_hex (''0x'' @ hex bs)"
    by (simp add: validate_hex_from_hex)
qed

text \<open>C26: The one-pass decoder, which carries a nibble and a character count and recognises the
prefix in the middle of the loop, decodes exactly the texts that are pairs of hex digits behind an
optional \<open>0x\<close>, to the bytes of the pairs; \<open>validate_hex\<close> accepts exactly these texts.\<close>

theorem from_hex_decodes_pairs:
  "(from_hex s = decode_pairs (strip_0x s)) \<and>
   (validate_hex s \<longleftrightarrow> decode_pairs (strip_0x s) \<noteq> None)"
  by (simp_all add: validate_hex_from_hex from_hex_decode)

text \<open>C29: The decoding loop returns on every input, over plain characters and over the iterator that
skips white space, and never writes more bytes through its output iterator than half the
number of characters, the space its callers provide, also when it rejects the input halfway.\<close>

theorem decoder_returns_in_bounds:
  "(\<exists>ok out. from_hex_range s = Some (ok, out) \<and> length out \<le> length s div 2) \<and>
   (\<exists>ok out. from_spaced_hex_range s = Some (ok, out) \<and> length out \<le> length s div 2)"
proof (intro conjI)
  let ?r = "from_hex_list s 0 (-1) []" and ?q = "from_hex_list (filter is_not_space s) 0 (-1) []"
  show "\<exists>ok out. from_hex_range s = Some (ok, out) \<and> length out \<le> length s div 2"
    using from_hex_list_length [of s 0 "-1" "[]"]
    by (intro exI [of _ "fst ?r"] exI [of _ "snd ?r"]) (simp add: from_hex_range_list)
  have "length (snd ?q) \<le> length s div 2"
    using from_hex_list_length [of "filter is_not_space s" 0 "-1" "[]"]
      div_le_mono [OF length_filter_le [of is_not_space s], of 2] by simp
  then show "\<exists>ok out. from_spaced_hex_range s = Some (ok, out) \<and> length out \<le> length s div 2"
    by (intro exI [of _ "fst ?q"] exI [of _ "snd ?q"]) (simp add: from_spaced_hex_range_list)
qed

text \<open>Decoding through the white-space skipping iterator is decoding the text with its
white space (the six characters of \<open>std::isspace\<close> in the C locale) removed.\<close>

theorem from_spaced_hex_filters:
  "from_spaced_hex s = from_hex (filter (\<lambda>c. of_char c \<notin> {9, 10, 11, 12, 13, 32 :: nat}) s)"
proof -
  have "is_not_space = (\<lambda>c. of_char c \<notin> {9, 10, 11, 12, 13, 32 :: nat})"
    by (simp add: fun_eq_iff is_not_space_def isspace_iff)
  then show ?thesis
    by (simp add: from_spaced_hex_def from_hex_def from_spaced_hex_range_list from_hex_range_list)
qed

text \<open>C28: Decoding into a type of \<open>n\<close> bytes accepts exactly the texts that \<open>from_hex\<close> accepts and
whose bytes fit, and right-aligns the bytes behind zeros. A doubled \<open>0x\<close>, which the decoder would
skip without writing, is refused and not shifted by a byte.\<close>

theorem from_hex_T_right_aligns:
  "from_hex_T n s =
    (case from_hex s of
       None \<Rightarrow> None
     | Some bs \<Rightarrow> if length bs > n then None else Some (replicate (n - length bs) 0 @ bs))"
proof (cases "take 2 s = ''0x''")
  case True
  then obtain r where s: "s = CHR ''0'' # CHR ''x'' # r"
    by (cases s rule: decode_pairs.cases) auto
  have "rejects_0x r \<Longrightarrow> decode_pairs r = None"
    by (cases r rule: decode_pairs.cases) (auto simp: rejects_0x_def from_hex_digit_chars)
  then show ?thesis
    by (simp add: s from_hex_T_def from_hex_decode strip_0x_def decode_into_eq)
next
  case False
  then have no: "\<not> (length s \<ge> 2 \<and> s ! 0 = CHR ''0'' \<and> s ! 1 = CHR ''x'')"
    by (cases s rule: decode_pairs.cases) auto
  show ?thesis
  proof (cases "rejects_0x s")
    case True
    then have "s ! 0 = CHR ''0''" "s ! 1 = CHR ''X''" "length s \<ge> 2"
      using no by (auto simp: rejects_0x_def)
    then have "from_hex s = None"
      using False by (simp add: rejects_0X from_hex_decode strip_0x_def)
    then show ?thesis
      using no
      by (auto simp: from_hex_T_def decode_into_def from_hex_def Let_def
          split: option.splits prod.splits bool.splits)
  next
    assume "\<not> rejects_0x s"
    then show ?thesis
      using no False by (auto simp: from_hex_T_def from_hex_decode strip_0x_def decode_into_eq)
  qed
qed

text \<open>The literals read back what is printed: the address literal of \<open>Q\<close> followed by the hex text
of an address is that address, and the 64-byte literal of the hex text of a value, with or without
\<open>0x\<close>, is that value.\<close>

theorem literal_roundtrip:
  "(address_literal (''Q'' @ hex (address_bytes a)) = Some a) \<and>
   (bytes64_literal (hex (bytes64_bytes b)) = Some b) \<and>
   (bytes64_literal (''0x'' @ hex (bytes64_bytes b)) = Some b)"
proof (intro conjI)
  have no: "\<not> rejects_0x (hex bs)" for bs
    by (rule not_rejects_0x_decodes) (simp add: decode_pairs_hex)
  show "address_literal (''Q'' @ hex (address_bytes a)) = Some a"
    using no by (simp add: address_literal_def from_prefixed_hex_T_def decode_into_eq decode_pairs_hex)
  have "from_hex_T 64 (hex (bytes64_bytes b)) = decode_into 64 (hex (bytes64_bytes b))"
    using no [of "bytes64_bytes b"] by (auto simp: from_hex_T_def rejects_0x_def)
  then show "bytes64_literal (hex (bytes64_bytes b)) = Some b"
    using no by (simp add: bytes64_literal_def decode_into_eq decode_pairs_hex)
  show "bytes64_literal (''0x'' @ hex (bytes64_bytes b)) = Some b"
    using no by (simp add: bytes64_literal_def from_hex_T_def decode_into_eq decode_pairs_hex)
qed

end
