(* ===== verification/Abi.thy ===== *)
theory Abi
  imports Bytes
begin

text \<open>
  The data of the C interface (\<open>include/qrvmc/qrvmc.h\<close>) and the text of its enums
  (\<open>include/qrvmc/helpers.h\<close>).

  An enum of the source is a datatype with a constructor for each enumerator. Where the interface
  lets other values of the underlying integer through (a VM may return negative status codes of
  its own, a caller may pass a revision that does not exist), a further constructor holds the
  integer, and the \<open>_of_int\<close> function reads an integer as a value of the enum.

  The structs that hold pointers are polymorphic in the pointer: \<open>view\<close> is a pointer the callee
  only reads through (the bytes that can be read, or \<open>NULL\<close>), \<open>heap_ptr\<close> a pointer to a block that
  \<open>malloc\<close> returned (or \<open>NULL\<close>).
\<close>

type_synonym view = "u8 list option"
type_synonym heap_ptr = "nat option"

definition QRVMC_ABI_VERSION :: int where
  "QRVMC_ABI_VERSION = 2"

subsection \<open>Calls\<close>

datatype qrvmc_call_kind = QRVMC_CALL | QRVMC_DELEGATECALL | QRVMC_CREATE | QRVMC_CREATE2

fun call_kind_value :: "qrvmc_call_kind \<Rightarrow> int" where
  "call_kind_value QRVMC_CALL = 0"
| "call_kind_value QRVMC_DELEGATECALL = 1"
| "call_kind_value QRVMC_CREATE = 3"
| "call_kind_value QRVMC_CREATE2 = 4"

definition QRVMC_STATIC :: u32 where
  "QRVMC_STATIC = 1"

record 'p qrvmc_message =
  msg_kind :: qrvmc_call_kind
  msg_flags :: u32
  msg_depth :: int
  msg_gas :: int
  msg_recipient :: qrvmc_address
  msg_sender :: qrvmc_address
  msg_input_data :: 'p
  msg_input_size :: nat
  msg_value :: qrvmc_uint512be
  msg_create2_salt :: qrvmc_bytes64
  msg_code_address :: qrvmc_address

text \<open>\<open>qrvmc_message{}\<close>, all fields zero.\<close>

definition message_zero :: "'p \<Rightarrow> 'p qrvmc_message" where
  "message_zero null =
    \<lparr>msg_kind = QRVMC_CALL, msg_flags = 0, msg_depth = 0, msg_gas = 0,
     msg_recipient = address_zero, msg_sender = address_zero,
     msg_input_data = null, msg_input_size = 0,
     msg_value = bytes64_zero, msg_create2_salt = bytes64_zero, msg_code_address = address_zero\<rparr>"

text \<open>The fixed-width fields hold a value of their type, and the input can be read.\<close>

definition message_ok :: "view qrvmc_message \<Rightarrow> bool" where
  "message_ok m \<longleftrightarrow> int32_ok (msg_depth m) \<and> int64_ok (msg_gas m) \<and>
    (case msg_input_data m of None \<Rightarrow> msg_input_size m = 0 | Some bs \<Rightarrow> msg_input_size m \<le> length bs)"

text \<open>Reading \<open>n\<close> bytes through a view stays in the memory behind it, unless it is null.\<close>

definition view_covers :: "view \<Rightarrow> nat \<Rightarrow> bool" where
  "view_covers v n = (case v of None \<Rightarrow> True | Some bs \<Rightarrow> n \<le> length bs)"

lemma view_covers_simps [simp]:
  "view_covers None n" "view_covers v 0" "view_covers (Some bs) n \<longleftrightarrow> n \<le> length bs"
  by (simp_all add: view_covers_def split: option.splits)

record qrvmc_tx_context =
  tx_gas_price :: qrvmc_uint512be
  tx_origin :: qrvmc_address
  block_coinbase :: qrvmc_address
  block_number :: int
  block_timestamp :: int
  block_gas_limit :: int
  block_prev_randao :: qrvmc_uint512be
  chain_id :: qrvmc_uint512be
  block_base_fee :: qrvmc_uint512be

definition tx_context_zero :: qrvmc_tx_context where
  "tx_context_zero =
    \<lparr>tx_gas_price = bytes64_zero, tx_origin = address_zero, block_coinbase = address_zero,
     block_number = 0, block_timestamp = 0, block_gas_limit = 0,
     block_prev_randao = bytes64_zero, chain_id = bytes64_zero, block_base_fee = bytes64_zero\<rparr>"

subsection \<open>Status codes and results\<close>

datatype qrvmc_status_code =
    QRVMC_SUCCESS
  | QRVMC_FAILURE
  | QRVMC_REVERT
  | QRVMC_OUT_OF_GAS
  | QRVMC_INVALID_INSTRUCTION
  | QRVMC_UNDEFINED_INSTRUCTION
  | QRVMC_STACK_OVERFLOW
  | QRVMC_STACK_UNDERFLOW
  | QRVMC_BAD_JUMP_DESTINATION
  | QRVMC_INVALID_MEMORY_ACCESS
  | QRVMC_CALL_DEPTH_EXCEEDED
  | QRVMC_STATIC_MODE_VIOLATION
  | QRVMC_PRECOMPILE_FAILURE
  | QRVMC_CONTRACT_VALIDATION_FAILURE
  | QRVMC_ARGUMENT_OUT_OF_RANGE
  | QRVMC_WASM_UNREACHABLE_INSTRUCTION
  | QRVMC_WASM_TRAP
  | QRVMC_INSUFFICIENT_BALANCE
  | QRVMC_INTERNAL_ERROR
  | QRVMC_REJECTED
  | QRVMC_OUT_OF_MEMORY
  | QRVMC_STATUS_OTHER int

fun status_code_value :: "qrvmc_status_code \<Rightarrow> int" where
  "status_code_value QRVMC_SUCCESS = 0"
| "status_code_value QRVMC_FAILURE = 1"
| "status_code_value QRVMC_REVERT = 2"
| "status_code_value QRVMC_OUT_OF_GAS = 3"
| "status_code_value QRVMC_INVALID_INSTRUCTION = 4"
| "status_code_value QRVMC_UNDEFINED_INSTRUCTION = 5"
| "status_code_value QRVMC_STACK_OVERFLOW = 6"
| "status_code_value QRVMC_STACK_UNDERFLOW = 7"
| "status_code_value QRVMC_BAD_JUMP_DESTINATION = 8"
| "status_code_value QRVMC_INVALID_MEMORY_ACCESS = 9"
| "status_code_value QRVMC_CALL_DEPTH_EXCEEDED = 10"
| "status_code_value QRVMC_STATIC_MODE_VIOLATION = 11"
| "status_code_value QRVMC_PRECOMPILE_FAILURE = 12"
| "status_code_value QRVMC_CONTRACT_VALIDATION_FAILURE = 13"
| "status_code_value QRVMC_ARGUMENT_OUT_OF_RANGE = 14"
| "status_code_value QRVMC_WASM_UNREACHABLE_INSTRUCTION = 15"
| "status_code_value QRVMC_WASM_TRAP = 16"
| "status_code_value QRVMC_INSUFFICIENT_BALANCE = 17"
| "status_code_value QRVMC_INTERNAL_ERROR = -1"
| "status_code_value QRVMC_REJECTED = -2"
| "status_code_value QRVMC_OUT_OF_MEMORY = -3"
| "status_code_value (QRVMC_STATUS_OTHER n) = n"

text \<open>The enumerators, in the order of their values.\<close>

definition status_codes :: "qrvmc_status_code list" where
  "status_codes =
    [QRVMC_OUT_OF_MEMORY, QRVMC_REJECTED, QRVMC_INTERNAL_ERROR, QRVMC_SUCCESS, QRVMC_FAILURE,
     QRVMC_REVERT, QRVMC_OUT_OF_GAS, QRVMC_INVALID_INSTRUCTION, QRVMC_UNDEFINED_INSTRUCTION,
     QRVMC_STACK_OVERFLOW, QRVMC_STACK_UNDERFLOW, QRVMC_BAD_JUMP_DESTINATION,
     QRVMC_INVALID_MEMORY_ACCESS, QRVMC_CALL_DEPTH_EXCEEDED, QRVMC_STATIC_MODE_VIOLATION,
     QRVMC_PRECOMPILE_FAILURE, QRVMC_CONTRACT_VALIDATION_FAILURE, QRVMC_ARGUMENT_OUT_OF_RANGE,
     QRVMC_WASM_UNREACHABLE_INSTRUCTION, QRVMC_WASM_TRAP, QRVMC_INSUFFICIENT_BALANCE]"

definition status_code_of_int :: "int \<Rightarrow> qrvmc_status_code" where
  "status_code_of_int n =
    (case List.find (\<lambda>s. status_code_value s = n) status_codes of
       Some s \<Rightarrow> s
     | None \<Rightarrow> QRVMC_STATUS_OTHER n)"

fun qrvmc_status_code_to_string :: "qrvmc_status_code \<Rightarrow> string" where
  "qrvmc_status_code_to_string QRVMC_SUCCESS = ''success''"
| "qrvmc_status_code_to_string QRVMC_FAILURE = ''failure''"
| "qrvmc_status_code_to_string QRVMC_REVERT = ''revert''"
| "qrvmc_status_code_to_string QRVMC_OUT_OF_GAS = ''out of gas''"
| "qrvmc_status_code_to_string QRVMC_INVALID_INSTRUCTION = ''invalid instruction''"
| "qrvmc_status_code_to_string QRVMC_UNDEFINED_INSTRUCTION = ''undefined instruction''"
| "qrvmc_status_code_to_string QRVMC_STACK_OVERFLOW = ''stack overflow''"
| "qrvmc_status_code_to_string QRVMC_STACK_UNDERFLOW = ''stack underflow''"
| "qrvmc_status_code_to_string QRVMC_BAD_JUMP_DESTINATION = ''bad jump destination''"
| "qrvmc_status_code_to_string QRVMC_INVALID_MEMORY_ACCESS = ''invalid memory access''"
| "qrvmc_status_code_to_string QRVMC_CALL_DEPTH_EXCEEDED = ''call depth exceeded''"
| "qrvmc_status_code_to_string QRVMC_STATIC_MODE_VIOLATION = ''static mode violation''"
| "qrvmc_status_code_to_string QRVMC_PRECOMPILE_FAILURE = ''precompile failure''"
| "qrvmc_status_code_to_string QRVMC_CONTRACT_VALIDATION_FAILURE = ''contract validation failure''"
| "qrvmc_status_code_to_string QRVMC_ARGUMENT_OUT_OF_RANGE = ''argument out of range''"
| "qrvmc_status_code_to_string QRVMC_WASM_UNREACHABLE_INSTRUCTION = ''wasm unreachable instruction''"
| "qrvmc_status_code_to_string QRVMC_WASM_TRAP = ''wasm trap''"
| "qrvmc_status_code_to_string QRVMC_INSUFFICIENT_BALANCE = ''insufficient balance''"
| "qrvmc_status_code_to_string QRVMC_INTERNAL_ERROR = ''internal error''"
| "qrvmc_status_code_to_string QRVMC_REJECTED = ''rejected''"
| "qrvmc_status_code_to_string QRVMC_OUT_OF_MEMORY = ''out of memory''"
| "qrvmc_status_code_to_string (QRVMC_STATUS_OTHER n) = ''<unknown>''"

text \<open>
  A release function pointer: the one that \<open>qrvmc_make_result\<close> sets, or a function of the VM that
  made the result, which is not part of the sources.
\<close>

datatype release_fn = Qrvmc_free_result_memory | Release_other nat

record 'p qrvmc_result =
  status_code :: qrvmc_status_code
  gas_left :: int
  gas_refund :: int
  output_data :: 'p
  output_size :: nat
  release :: "release_fn option"
  create_address :: qrvmc_address
  padding :: "u8 list"

subsection \<open>Storage and access status\<close>

datatype qrvmc_storage_status =
    QRVMC_STORAGE_ASSIGNED
  | QRVMC_STORAGE_ADDED
  | QRVMC_STORAGE_DELETED
  | QRVMC_STORAGE_MODIFIED
  | QRVMC_STORAGE_DELETED_ADDED
  | QRVMC_STORAGE_MODIFIED_DELETED
  | QRVMC_STORAGE_DELETED_RESTORED
  | QRVMC_STORAGE_ADDED_DELETED
  | QRVMC_STORAGE_MODIFIED_RESTORED

datatype qrvmc_access_status = QRVMC_ACCESS_COLD | QRVMC_ACCESS_WARM

subsection \<open>Revisions, options and capabilities\<close>

datatype qrvmc_revision = QRVMC_ZOND | QRVMC_REVISION_OTHER int

definition revision_of_int :: "int \<Rightarrow> qrvmc_revision" where
  "revision_of_int n = (if n = 0 then QRVMC_ZOND else QRVMC_REVISION_OTHER n)"

definition QRVMC_MAX_REVISION :: qrvmc_revision where
  "QRVMC_MAX_REVISION = QRVMC_ZOND"

definition QRVMC_LATEST_STABLE_REVISION :: qrvmc_revision where
  "QRVMC_LATEST_STABLE_REVISION = QRVMC_ZOND"

fun qrvmc_revision_to_string :: "qrvmc_revision \<Rightarrow> string" where
  "qrvmc_revision_to_string QRVMC_ZOND = ''Zond''"
| "qrvmc_revision_to_string (QRVMC_REVISION_OTHER n) = ''<unknown>''"

datatype qrvmc_set_option_result =
  QRVMC_SET_OPTION_SUCCESS | QRVMC_SET_OPTION_INVALID_NAME | QRVMC_SET_OPTION_INVALID_VALUE |
  QRVMC_SET_OPTION_OTHER int

definition QRVMC_CAPABILITY_QRVM1 :: u32 where
  "QRVMC_CAPABILITY_QRVM1 = push_bit 0 1"

definition QRVMC_CAPABILITY_PRECOMPILES :: u32 where
  "QRVMC_CAPABILITY_PRECOMPILES = push_bit 2 1"

subsection \<open>Facts\<close>

lemma status_code_of_int_value: "status_code_value (status_code_of_int n) = n"
  by (auto simp: status_code_of_int_def find_Some_iff split: option.splits)

lemma status_code_of_value:
  assumes "s \<in> set status_codes"
  shows "status_code_of_int (status_code_value s) = s"
proof -
  have "list_all (\<lambda>s. status_code_of_int (status_code_value s) = s) status_codes"
    by (simp add: status_codes_def status_code_of_int_def)
  then show ?thesis using assms by (simp add: list_all_iff)
qed

text \<open>Different status codes have different texts, none of them the text for unknown codes.\<close>

lemma distinct_status_strings:
  "distinct (''<unknown>'' # map qrvmc_status_code_to_string status_codes)"
  by (simp add: status_codes_def)

lemma status_code_to_string_inject:
  assumes "s \<in> set status_codes" "t \<in> set status_codes"
    "qrvmc_status_code_to_string s = qrvmc_status_code_to_string t"
  shows "s = t"
  using assms distinct_status_strings by (auto simp: distinct_map dest: inj_onD)

subsection \<open>Properties\<close>

text \<open>Status codes survive the trip through their integer values in both directions, the texts of
the 21 defined codes are pairwise different, and the text for unknown codes is given to exactly
the integers that are not the value of a defined code.\<close>

theorem status_codes_roundtrip:
  "(status_code_value (status_code_of_int n) = n) \<and>
   (map (\<lambda>s. status_code_of_int (status_code_value s)) status_codes = status_codes) \<and>
   (distinct (map qrvmc_status_code_to_string status_codes)) \<and>
   (qrvmc_status_code_to_string (status_code_of_int n) = ''<unknown>'' \<longleftrightarrow>
    n \<notin> set (map status_code_value status_codes))"
proof (intro conjI)
  have map: "map (\<lambda>s. status_code_of_int (status_code_value s)) status_codes = status_codes"
    using status_code_of_value by (simp add: map_idI)
  then show "map (\<lambda>s. status_code_of_int (status_code_value s)) status_codes = status_codes" .
  show "distinct (map qrvmc_status_code_to_string status_codes)"
    using distinct_status_strings by simp
  show "qrvmc_status_code_to_string (status_code_of_int n) = ''<unknown>'' \<longleftrightarrow>
      n \<notin> set (map status_code_value status_codes)"
  proof (cases "n \<in> set (map status_code_value status_codes)")
    case True
    then have "status_code_of_int n \<in> set status_codes"
      using status_code_of_value by auto
    then have "qrvmc_status_code_to_string (status_code_of_int n) \<noteq> ''<unknown>''"
      using distinct_status_strings by (metis distinct.simps(2) imageI set_map)
    then show ?thesis using True by simp
  next
    case False
    then have "List.find (\<lambda>s. status_code_value s = n) status_codes = None"
      by (auto simp: find_None_iff)
    then have "status_code_of_int n = QRVMC_STATUS_OTHER n"
      by (simp add: status_code_of_int_def)
    then show ?thesis using False by simp
  qed
qed (rule status_code_of_int_value)

end
