(* ===== verification/Results.thy ===== *)
theory Results
  imports Abi
begin

text \<open>
  Execution results and who releases them: \<open>qrvmc_make_result\<close>, \<open>qrvmc_release_result\<close> and the
  optional storage of \<open>include/qrvmc/helpers.h\<close>, and the C++ class \<open>Result\<close> of
  \<open>include/qrvmc/qrvmc.hpp\<close>, which owns the resources of a result and releases them once.

  The heap maps the blocks that are allocated to their bytes. An allocation may fail: \<open>heap_fails\<close>
  says of each allocation, by its number, whether it does. Freeing a block that is not allocated is
  undefined behaviour, and so is copying more bytes than the source has: the value \<open>None\<close>.
\<close>

subsection \<open>The heap\<close>

record heap =
  heap_blocks :: "nat \<Rightarrow> u8 list option"
  heap_next :: nat
  heap_fails :: "nat \<Rightarrow> bool"

definition heap_empty :: heap where
  "heap_empty = \<lparr>heap_blocks = (\<lambda>_. None), heap_next = 0, heap_fails = (\<lambda>_. False)\<rparr>"

text \<open>\<open>malloc\<close>; the contents of a new block are indeterminate until written, here zeros.\<close>

definition malloc :: "nat \<Rightarrow> heap \<Rightarrow> heap_ptr \<times> heap" where
  "malloc n h =
    (let p = heap_next h in
     if heap_fails h p then (None, h\<lparr>heap_next := Suc p\<rparr>)
     else (Some p, h\<lparr>heap_blocks := (heap_blocks h)(p \<mapsto> replicate n 0), heap_next := Suc p\<rparr>))"

definition heap_write :: "nat \<Rightarrow> u8 list \<Rightarrow> heap \<Rightarrow> heap" where
  "heap_write p bs h = h\<lparr>heap_blocks := (heap_blocks h)(p \<mapsto> bs)\<rparr>"

definition heap_free :: "heap_ptr \<Rightarrow> heap \<Rightarrow> heap option" where
  "heap_free ptr h =
    (case ptr of
       None \<Rightarrow> Some h
     | Some p \<Rightarrow>
         (case heap_blocks h p of
            None \<Rightarrow> None
          | Some _ \<Rightarrow> Some (h\<lparr>heap_blocks := (heap_blocks h)(p := None)\<rparr>)))"

definition heap_read :: "heap_ptr \<Rightarrow> heap \<Rightarrow> view" where
  "heap_read ptr h = Option.bind ptr (heap_blocks h)"

text \<open>Blocks are numbered in the order of their allocation.\<close>

definition heap_ok :: "heap \<Rightarrow> bool" where
  "heap_ok h \<longleftrightarrow> (\<forall>p. heap_blocks h p \<noteq> None \<longrightarrow> p < heap_next h)"

lemma heap_ok_empty [simp]: "heap_ok heap_empty"
  by (simp add: heap_ok_def heap_empty_def)

lemma heap_ok_fresh: "heap_ok h \<Longrightarrow> heap_blocks h (heap_next h) = None"
  by (auto simp: heap_ok_def)

subsection \<open>Making and releasing a result\<close>

definition result_zero :: "heap_ptr qrvmc_result" where
  "result_zero =
    \<lparr>status_code = QRVMC_SUCCESS, gas_left = 0, gas_refund = 0, output_data = None,
     output_size = 0, release = None, create_address = address_zero, padding = replicate 4 0\<rparr>"

definition qrvmc_free_result_memory :: "heap_ptr qrvmc_result \<Rightarrow> heap \<Rightarrow> heap option" where
  "qrvmc_free_result_memory r h = heap_free (output_data r) h"

definition qrvmc_make_result ::
    "qrvmc_status_code \<Rightarrow> int \<Rightarrow> int \<Rightarrow> view \<Rightarrow> nat \<Rightarrow> heap \<Rightarrow>
      (heap_ptr qrvmc_result \<times> heap) option" where
  "qrvmc_make_result sc gl gr out_data out_size h =
    (let result = result_zero in
     if out_size \<noteq> 0 then
       (case out_data of
          None \<Rightarrow> Some (result\<lparr>status_code := QRVMC_FAILURE\<rparr>, h)
        | Some bs \<Rightarrow>
            (case malloc out_size h of
               (None, h') \<Rightarrow> Some (result\<lparr>status_code := QRVMC_OUT_OF_MEMORY\<rparr>, h')
             | (Some buffer, h') \<Rightarrow>
                 if out_size \<le> length bs
                 then Some (result\<lparr>output_data := Some buffer, output_size := out_size,
                     release := Some Qrvmc_free_result_memory,
                     status_code := sc, gas_left := gl, gas_refund := gr\<rparr>,
                   heap_write buffer (take out_size bs) h')
                 else None))
     else Some (result\<lparr>status_code := sc, gas_left := gl, gas_refund := gr\<rparr>, h))"

text \<open>
  Calling the release function of a result. Functions other than the one of this library are the
  argument \<open>other\<close>.
\<close>

definition call_release ::
    "(nat \<Rightarrow> heap_ptr qrvmc_result \<Rightarrow> heap \<Rightarrow> heap option) \<Rightarrow> release_fn \<Rightarrow>
      heap_ptr qrvmc_result \<Rightarrow> heap \<Rightarrow> heap option" where
  "call_release other f r h =
    (case f of
       Qrvmc_free_result_memory \<Rightarrow> qrvmc_free_result_memory r h
     | Release_other n \<Rightarrow> other n r h)"

definition qrvmc_release_result ::
    "(nat \<Rightarrow> heap_ptr qrvmc_result \<Rightarrow> heap \<Rightarrow> heap option) \<Rightarrow>
      heap_ptr qrvmc_result \<Rightarrow> heap \<Rightarrow> heap option" where
  "qrvmc_release_result other r h =
    (case release r of Some f \<Rightarrow> call_release other f r h | None \<Rightarrow> Some h)"

text \<open>The 68 bytes of optional storage overlay the create address and the padding.\<close>

definition optional_storage :: "'p qrvmc_result \<Rightarrow> u8 list" where
  "optional_storage r = address_bytes (create_address r) @ padding r"

definition set_optional_storage :: "u8 list \<Rightarrow> 'p qrvmc_result \<Rightarrow> 'p qrvmc_result" where
  "set_optional_storage bs r =
    r\<lparr>create_address := address_of_bytes (take 64 bs), padding := take 4 (drop 64 bs)\<rparr>"

lemma set_optional_storage_copy:
  assumes "length (padding src) = 4"
  shows "set_optional_storage (optional_storage src) r =
    r\<lparr>create_address := create_address src, padding := padding src\<rparr>"
  using assms by (simp add: set_optional_storage_def optional_storage_def)

text \<open>What a caller can rely on in every result of \<open>qrvmc_make_result\<close>.\<close>

lemma make_result_no_output [simp]:
  "qrvmc_make_result sc gl gr out 0 h =
    Some (result_zero\<lparr>status_code := sc, gas_left := gl, gas_refund := gr\<rparr>, h)"
  by (simp add: qrvmc_make_result_def)

lemma make_result_returns:
  assumes "view_covers out n"
  obtains r h' where "qrvmc_make_result sc gl gr out n h = Some (r, h')"
  using assms
  by (cases "qrvmc_make_result sc gl gr out n h")
    (auto simp: qrvmc_make_result_def Let_def split: if_splits option.splits prod.splits)

lemma make_result_cases:
  assumes "qrvmc_make_result sc gl gr out n h = Some (r, h')"
  obtains (empty) "n = 0" "r = result_zero\<lparr>status_code := sc, gas_left := gl, gas_refund := gr\<rparr>"
      "h' = h"
  | (null) "n \<noteq> 0" "out = None" "r = result_zero\<lparr>status_code := QRVMC_FAILURE\<rparr>" "h' = h"
  | (oom) bs where "n \<noteq> 0" "out = Some bs" "heap_fails h (heap_next h)"
      "r = result_zero\<lparr>status_code := QRVMC_OUT_OF_MEMORY\<rparr>" "h' = h\<lparr>heap_next := Suc (heap_next h)\<rparr>"
  | (block) bs where "n \<noteq> 0" "out = Some bs" "n \<le> length bs" "\<not> heap_fails h (heap_next h)"
      "r = result_zero\<lparr>output_data := Some (heap_next h), output_size := n,
         release := Some Qrvmc_free_result_memory, status_code := sc, gas_left := gl, gas_refund := gr\<rparr>"
      "h' = h\<lparr>heap_blocks := (heap_blocks h)(heap_next h \<mapsto> take n bs), heap_next := Suc (heap_next h)\<rparr>"
  using assms
  by (auto simp: qrvmc_make_result_def malloc_def heap_write_def Let_def split: if_splits option.splits)

lemma make_result_heap_ok:
  assumes "heap_ok h" "qrvmc_make_result sc gl gr out n h = Some (r, h')"
  shows "heap_ok h'"
  using assms(2)
  by (rule make_result_cases) (use assms(1) in \<open>auto simp: heap_ok_def less_Suc_eq\<close>)

subsection \<open>The class Result\<close>

text \<open>
  Objects of the class, by number, and raw results that the program holds (a \<open>qrvmc_result\<close> that
  \<open>release_raw\<close> returned or a VM produced) are the owners of results. The move operations, the
  destructor and the raw release act on the owners and the heap; \<open>None\<close> is undefined behaviour.
\<close>

datatype result_owner = Obj nat | Raw nat

record result_world =
  owners :: "result_owner \<Rightarrow> heap_ptr qrvmc_result option"
  world_heap :: heap

type_synonym release_table = "nat \<Rightarrow> heap_ptr qrvmc_result \<Rightarrow> heap \<Rightarrow> heap option"

definition Result_release_resources ::
    "release_table \<Rightarrow> heap_ptr qrvmc_result \<Rightarrow> heap \<Rightarrow> (heap_ptr qrvmc_result \<times> heap) option" where
  "Result_release_resources other r h =
    (case release r of
       Some f \<Rightarrow> map_option (\<lambda>h'. (r\<lparr>release := None\<rparr>, h')) (call_release other f r h)
     | None \<Rightarrow> Some (r, h))"

text \<open>The new object and what is left of the source.\<close>

definition Result_move :: "heap_ptr qrvmc_result \<Rightarrow> heap_ptr qrvmc_result \<times> heap_ptr qrvmc_result" where
  "Result_move r = (r, r\<lparr>release := None\<rparr>)"

definition Result_release_raw ::
    "heap_ptr qrvmc_result \<Rightarrow> heap_ptr qrvmc_result \<times> heap_ptr qrvmc_result" where
  "Result_release_raw r = (let out = r in (out, r\<lparr>release := None\<rparr>))"

text \<open>
  What a program does with results: the four constructors (from arguments with output, from
  arguments without output but a create address, from a raw result, from another object), the move
  assignment, the raw release and the destructor, and the C functions on a raw result.
\<close>

datatype result_op =
    Construct nat qrvmc_status_code int int view nat
  | Construct_create nat qrvmc_status_code int int qrvmc_address
  | Adopt nat nat
  | Move_construct nat nat
  | Move_assign nat nat
  | Release_raw nat nat
  | Destroy nat
  | Make_raw nat qrvmc_status_code int int view nat
  | Release_result nat

fun result_step :: "release_table \<Rightarrow> result_op \<Rightarrow> result_world \<Rightarrow> result_world option" where
  "result_step other (Construct i sc gl gr out n) w =
    map_option (\<lambda>(r, h). w\<lparr>owners := (owners w)(Obj i \<mapsto> r), world_heap := h\<rparr>)
      (qrvmc_make_result sc gl gr out n (world_heap w))"
| "result_step other (Construct_create i sc gl gr a) w =
    map_option (\<lambda>(r, h). w\<lparr>owners := (owners w)(Obj i \<mapsto> r\<lparr>create_address := a\<rparr>), world_heap := h\<rparr>)
      (qrvmc_make_result sc gl gr None 0 (world_heap w))"
| "result_step other (Adopt i k) w =
    (case owners w (Raw k) of
       None \<Rightarrow> None
     | Some r \<Rightarrow> Some (w\<lparr>owners := (owners w)(Obj i \<mapsto> r, Raw k := None)\<rparr>))"
| "result_step other (Move_construct i j) w =
    (case owners w (Obj j) of
       None \<Rightarrow> None
     | Some r \<Rightarrow>
         (let (new, old) = Result_move r
          in Some (w\<lparr>owners := (owners w)(Obj i \<mapsto> new, Obj j \<mapsto> old)\<rparr>)))"
| "result_step other (Move_assign i j) w =
    (case (owners w (Obj i), owners w (Obj j)) of
       (Some this, Some src) \<Rightarrow>
         (if i \<noteq> j then
            (case Result_release_resources other this (world_heap w) of
               None \<Rightarrow> None
             | Some (_, h) \<Rightarrow>
                 (let (new, old) = Result_move src
                  in Some (w\<lparr>owners := (owners w)(Obj i \<mapsto> new, Obj j \<mapsto> old), world_heap := h\<rparr>)))
          else Some w)
     | _ \<Rightarrow> None)"
| "result_step other (Release_raw i k) w =
    (case owners w (Obj i) of
       None \<Rightarrow> None
     | Some r \<Rightarrow>
         (let (out, this) = Result_release_raw r
          in Some (w\<lparr>owners := (owners w)(Raw k \<mapsto> out, Obj i \<mapsto> this)\<rparr>)))"
| "result_step other (Destroy i) w =
    (case owners w (Obj i) of
       None \<Rightarrow> None
     | Some r \<Rightarrow>
         (case Result_release_resources other r (world_heap w) of
            None \<Rightarrow> None
          | Some (_, h) \<Rightarrow> Some (w\<lparr>owners := (owners w)(Obj i := None), world_heap := h\<rparr>)))"
| "result_step other (Make_raw k sc gl gr out n) w =
    map_option (\<lambda>(r, h). w\<lparr>owners := (owners w)(Raw k \<mapsto> r), world_heap := h\<rparr>)
      (qrvmc_make_result sc gl gr out n (world_heap w))"
| "result_step other (Release_result k) w =
    (case owners w (Raw k) of
       None \<Rightarrow> None
     | Some r \<Rightarrow>
         (case qrvmc_release_result other r (world_heap w) of
            None \<Rightarrow> None
          | Some h \<Rightarrow> Some (w\<lparr>owners := (owners w)(Raw k := None), world_heap := h\<rparr>)))"

text \<open>
  An operation a C++ program can perform: a constructor makes a new object, the other operations
  use objects that are alive, a raw result is used once (adopted or released) and not after, and an
  output is as long as its size says.
\<close>

fun result_op_enabled :: "result_op \<Rightarrow> result_world \<Rightarrow> bool" where
  "result_op_enabled (Construct i sc gl gr out n) w \<longleftrightarrow> owners w (Obj i) = None \<and> view_covers out n"
| "result_op_enabled (Construct_create i sc gl gr a) w \<longleftrightarrow> owners w (Obj i) = None"
| "result_op_enabled (Adopt i k) w \<longleftrightarrow> owners w (Obj i) = None \<and> owners w (Raw k) \<noteq> None"
| "result_op_enabled (Move_construct i j) w \<longleftrightarrow> owners w (Obj i) = None \<and> owners w (Obj j) \<noteq> None"
| "result_op_enabled (Move_assign i j) w \<longleftrightarrow> owners w (Obj i) \<noteq> None \<and> owners w (Obj j) \<noteq> None"
| "result_op_enabled (Release_raw i k) w \<longleftrightarrow> owners w (Obj i) \<noteq> None \<and> owners w (Raw k) = None"
| "result_op_enabled (Destroy i) w \<longleftrightarrow> owners w (Obj i) \<noteq> None"
| "result_op_enabled (Make_raw k sc gl gr out n) w \<longleftrightarrow> owners w (Raw k) = None \<and> view_covers out n"
| "result_op_enabled (Release_result k) w \<longleftrightarrow> owners w (Raw k) \<noteq> None"

fun result_run :: "release_table \<Rightarrow> result_op list \<Rightarrow> result_world \<Rightarrow> result_world option" where
  "result_run other [] w = Some w"
| "result_run other (op # ops) w =
    (case result_step other op w of None \<Rightarrow> None | Some w' \<Rightarrow> result_run other ops w')"

fun result_ops_enabled :: "release_table \<Rightarrow> result_op list \<Rightarrow> result_world \<Rightarrow> bool" where
  "result_ops_enabled other [] w \<longleftrightarrow> True"
| "result_ops_enabled other (op # ops) w \<longleftrightarrow>
    result_op_enabled op w \<and>
    (case result_step other op w of None \<Rightarrow> True | Some w' \<Rightarrow> result_ops_enabled other ops w')"

subsection \<open>Ownership\<close>

definition owns :: "result_world \<Rightarrow> result_owner \<Rightarrow> nat \<Rightarrow> bool" where
  "owns w x p \<longleftrightarrow> (\<exists>r. owners w x = Some r \<and> release r \<noteq> None \<and> output_data r = Some p)"

text \<open>
  Every allocated block is one of the blocks \<open>base\<close> of the rest of the program or has exactly one
  owner; an owner with a release function has a block, and the function is the one that frees it.
\<close>

definition result_inv :: "nat set \<Rightarrow> result_world \<Rightarrow> bool" where
  "result_inv base w \<longleftrightarrow>
    heap_ok (world_heap w) \<and>
    (\<forall>x r. owners w x = Some r \<longrightarrow> release r \<noteq> None \<longrightarrow>
      release r = Some Qrvmc_free_result_memory \<and> output_data r \<noteq> None) \<and>
    (\<forall>x y p. owns w x p \<longrightarrow> owns w y p \<longrightarrow> x = y) \<and>
    (\<forall>p. heap_blocks (world_heap w) p \<noteq> None \<longleftrightarrow> p \<in> base \<or> (\<exists>x. owns w x p)) \<and>
    (\<forall>x p. owns w x p \<longrightarrow> p \<notin> base)"

text \<open>The operations are made of four changes of the world, which keep the invariant.\<close>

lemma inv_unowned:
  assumes "result_inv base w" "\<And>r. owners w x = Some r \<Longrightarrow> release r = None"
    "r = None \<or> release (the r) = None"
  shows "result_inv base (w\<lparr>owners := (owners w)(x := r)\<rparr>)"
proof -
  have "owns (w\<lparr>owners := (owners w)(x := r)\<rparr>) = owns w"
    using assms(2,3) by (auto simp: owns_def fun_eq_iff)
  then show ?thesis
    using assms unfolding result_inv_def by auto
qed

lemma inv_next:
  assumes "result_inv base w"
  shows "result_inv base (w\<lparr>world_heap := (world_heap w)\<lparr>heap_next := Suc (heap_next (world_heap w))\<rparr>\<rparr>)"
proof -
  have "owns (w\<lparr>world_heap := h\<rparr>) = owns w" for h
    by (simp add: owns_def fun_eq_iff)
  then show ?thesis
    using assms unfolding result_inv_def by (auto simp: heap_ok_def less_Suc_eq)
qed

lemma inv_block:
  assumes inv: "result_inv base w" and free: "\<And>r. owners w x = Some r \<Longrightarrow> release r = None"
    and r: "release r = Some Qrvmc_free_result_memory" "output_data r = Some (heap_next (world_heap w))"
    and h: "h = (world_heap w)\<lparr>heap_blocks := (heap_blocks (world_heap w))(heap_next (world_heap w) \<mapsto> bs),
      heap_next := Suc (heap_next (world_heap w))\<rparr>"
  shows "result_inv base (w\<lparr>owners := (owners w)(x \<mapsto> r), world_heap := h\<rparr>)"
proof -
  let ?p = "heap_next (world_heap w)" and ?w = "w\<lparr>owners := (owners w)(x \<mapsto> r), world_heap := h\<rparr>"
  have fresh: "heap_blocks (world_heap w) ?p = None"
    using inv by (simp add: result_inv_def heap_ok_fresh)
  have alloc: "heap_blocks (world_heap w) q \<noteq> None \<longleftrightarrow> q \<in> base \<or> (\<exists>y. owns w y q)" for q
    using inv unfolding result_inv_def by blast
  have p: "?p \<notin> base" "\<not> owns w y ?p" for y
    using alloc [of ?p] fresh by auto
  have owns: "owns ?w y q \<longleftrightarrow> (if y = x then q = ?p else owns w y q)" for y q
    using r by (auto simp: owns_def)
  have x: "\<not> owns w x q" for q
    using free by (auto simp: owns_def)
  have "heap_ok h"
    using inv h by (auto simp: result_inv_def heap_ok_def less_Suc_eq)
  moreover have "(\<exists>y. owns ?w y q) \<longleftrightarrow> q = ?p \<or> (\<exists>y. owns w y q)" for q
    unfolding owns using x by metis
  then have "heap_blocks h q \<noteq> None \<longleftrightarrow> q \<in> base \<or> (\<exists>y. owns ?w y q)" for q
    using alloc [of q] h by auto
  ultimately show ?thesis
    using inv p x r unfolding result_inv_def owns by (auto split: if_splits)
qed

lemma inv_make:
  assumes inv: "result_inv base w" and free: "\<And>r. owners w x = Some r \<Longrightarrow> release r = None"
    and make: "qrvmc_make_result sc gl gr out n (world_heap w) = Some (r, h)"
  shows "result_inv base (w\<lparr>owners := (owners w)(x \<mapsto> r), world_heap := h\<rparr>)"
  using make
proof (cases rule: make_result_cases)
  case empty
  then show ?thesis
    using inv_unowned [OF inv, of x "Some r"] free by (simp add: result_zero_def)
next
  case null
  then show ?thesis
    using inv_unowned [OF inv, of x "Some r"] free by (simp add: result_zero_def)
next
  case (oom bs)
  then show ?thesis
    using inv_unowned [OF inv_next [OF inv], of x "Some r"] free
    by (cases w) (simp add: result_zero_def)
next
  case (block bs)
  then show ?thesis
    using inv_block [OF inv, of x r h "take n bs"] free by simp
qed

lemma inv_transfer:
  assumes inv: "result_inv base w" and free: "\<And>r. owners w x = Some r \<Longrightarrow> release r = None"
    and src: "owners w y = Some r" and neq: "x \<noteq> y" and rest: "rest = None \<or> release (the rest) = None"
  shows "result_inv base (w\<lparr>owners := (owners w)(x \<mapsto> r, y := rest)\<rparr>)"
proof -
  let ?w = "w\<lparr>owners := (owners w)(x \<mapsto> r, y := rest)\<rparr>"
  have owns: "owns ?w z p \<longleftrightarrow> (if z = x then owns w y p else z \<noteq> y \<and> owns w z p)" for z p
    using src neq rest by (auto simp: owns_def)
  have x: "\<not> owns w x p" for p
    using free by (auto simp: owns_def)
  have "(\<exists>z. owns ?w z p) \<longleftrightarrow> (\<exists>z. owns w z p)" for p
    unfolding owns using x by metis
  then show ?thesis
    using inv x src rest unfolding result_inv_def owns by (auto split: if_splits)
qed

lemma inv_release:
  assumes inv: "result_inv base w" and src: "owners w x = Some r" and f: "release r = Some f"
  shows "\<exists>h. call_release other f r (world_heap w) = Some h \<and>
    result_inv base (w\<lparr>owners := (owners w)(x := None), world_heap := h\<rparr>)"
proof -
  obtain p where p: "output_data r = Some p" "f = Qrvmc_free_result_memory"
    using inv src f unfolding result_inv_def by fastforce
  then have own: "owns w x p" using src f by (auto simp: owns_def)
  then obtain bs where bs: "heap_blocks (world_heap w) p = Some bs" "p \<notin> base"
    using inv unfolding result_inv_def by blast
  define h where "h = (world_heap w)\<lparr>heap_blocks := (heap_blocks (world_heap w))(p := None)\<rparr>"
  let ?w = "w\<lparr>owners := (owners w)(x := None), world_heap := h\<rparr>"
  have owns: "owns ?w z q \<longleftrightarrow> z \<noteq> x \<and> owns w z q" for z q
    by (auto simp: owns_def)
  have only: "owns w z p \<longleftrightarrow> z = x" "owns w x q \<longleftrightarrow> q = p" for z q
    using inv own p src unfolding result_inv_def by (auto simp: owns_def)
  have alloc: "heap_blocks (world_heap w) q \<noteq> None \<longleftrightarrow> q \<in> base \<or> (\<exists>y. owns w y q)" for q
    using inv unfolding result_inv_def by blast
  have blocks: "heap_blocks h q = (if q = p then None else heap_blocks (world_heap w) q)" for q
    by (simp add: h_def)
  have "(\<exists>z. owns ?w z q) \<longleftrightarrow> q \<noteq> p \<and> (\<exists>z. owns w z q)" for q
    unfolding owns using only by metis
  then have "heap_blocks h q \<noteq> None \<longleftrightarrow> q \<in> base \<or> (\<exists>z. owns ?w z q)" for q
    using alloc [of q] bs by (auto simp: blocks)
  moreover have "heap_ok h"
    using inv by (auto simp: result_inv_def heap_ok_def h_def)
  ultimately have "result_inv base ?w"
    using inv unfolding result_inv_def owns by (auto split: if_splits)
  moreover have "call_release other f r (world_heap w) = Some h"
    using bs by (simp add: call_release_def p qrvmc_free_result_memory_def heap_free_def h_def)
  ultimately show ?thesis by blast
qed

lemma inv_release_resources:
  assumes inv: "result_inv base w" and src: "owners w x = Some r"
  shows "\<exists>r' h. Result_release_resources other r (world_heap w) = Some (r', h) \<and>
    result_inv base (w\<lparr>owners := (owners w)(x := None), world_heap := h\<rparr>)"
proof (cases "release r")
  case None
  then show ?thesis
    using inv_unowned [OF inv, of x None] src by (cases w) (simp add: Result_release_resources_def)
next
  case (Some f)
  then show ?thesis
    using inv_release [OF inv src Some] by (auto simp: Result_release_resources_def)
qed

text \<open>No operation that a program can perform is undefined, and each keeps the invariant.\<close>

lemma result_step_inv:
  assumes inv: "result_inv base w" and en: "result_op_enabled op w"
  shows "\<exists>w'. result_step other op w = Some w' \<and> result_inv base w'"
proof (cases op)
  case (Construct i sc gl gr out n)
  then obtain r h where make: "qrvmc_make_result sc gl gr out n (world_heap w) = Some (r, h)"
    using make_result_returns [of out n sc gl gr "world_heap w"] en by auto
  show ?thesis using make inv_make [OF inv _ make, of "Obj i"] en by (simp add: Construct)
next
  case (Construct_create i sc gl gr a)
  then show ?thesis
    using inv_unowned [OF inv, of "Obj i" "Some r" for r] en
    by (cases w) (simp add: result_zero_def)
next
  case (Adopt i k)
  then obtain r where "owners w (Raw k) = Some r" using en by auto
  then show ?thesis
    using inv_transfer [OF inv, of "Obj i" "Raw k" r None] en by (simp add: Adopt)
next
  case (Move_construct i j)
  then obtain r where r: "owners w (Obj j) = Some r" using en by auto
  then have "i \<noteq> j" using en by (auto simp: Move_construct)
  then show ?thesis
    using inv_transfer [OF inv, of "Obj i" "Obj j" r "Some (r\<lparr>release := None\<rparr>)"] en r
    by (simp add: Move_construct Result_move_def)
next
  case (Move_assign i j)
  then obtain r s where rs: "owners w (Obj i) = Some r" "owners w (Obj j) = Some s" using en by auto
  show ?thesis
  proof (cases "i = j")
    case True
    then show ?thesis using inv rs by (simp add: Move_assign)
  next
    case False
    obtain r' h where rel: "Result_release_resources other r (world_heap w) = Some (r', h)"
      and inv': "result_inv base (w\<lparr>owners := (owners w)(Obj i := None), world_heap := h\<rparr>)"
      using inv_release_resources [OF inv rs(1)] by blast
    show ?thesis
      using inv_transfer [OF inv', of "Obj i" "Obj j" s "Some (s\<lparr>release := None\<rparr>)"] rs rel False
      by (cases w) (simp add: Move_assign Result_move_def)
  qed
next
  case (Release_raw i k)
  then obtain r where "owners w (Obj i) = Some r" using en by auto
  then show ?thesis
    using inv_transfer [OF inv, of "Raw k" "Obj i" r "Some (r\<lparr>release := None\<rparr>)"] en
    by (simp add: Release_raw Result_release_raw_def)
next
  case (Destroy i)
  then obtain r where r: "owners w (Obj i) = Some r" using en by auto
  then show ?thesis
    using inv_release_resources [OF inv r, of other] by (auto simp: Destroy)
next
  case (Make_raw k sc gl gr out n)
  then obtain r h where make: "qrvmc_make_result sc gl gr out n (world_heap w) = Some (r, h)"
    using make_result_returns [of out n sc gl gr "world_heap w"] en by auto
  show ?thesis using make inv_make [OF inv _ make, of "Raw k"] en by (simp add: Make_raw)
next
  case (Release_result k)
  then obtain r where r: "owners w (Raw k) = Some r" using en by auto
  then show ?thesis
    using inv_release_resources [OF inv r, of other]
    by (auto simp: Release_result qrvmc_release_result_def Result_release_resources_def
        split: option.splits)
qed

lemma result_run_inv:
  assumes "result_inv base w" "result_ops_enabled other ops w"
  shows "\<exists>w'. result_run other ops w = Some w' \<and> result_inv base w'"
  using assms
proof (induction ops arbitrary: w)
  case (Cons op ops)
  then obtain w' where "result_step other op w = Some w'" "result_inv base w'"
    using result_step_inv [of base w op other] by auto
  then show ?case using Cons by simp
qed simp

subsection \<open>Properties\<close>


text \<open>C1: A C++ program that constructs, adopts, moves, move-assigns (also to itself), unwraps and
destroys \<open>Result\<close> objects, and uses each raw result once, never frees a block that is not
allocated, never frees one twice and never loses one: after any such sequence every block on the
heap is one of the program's other blocks or has exactly one owner, whose release function frees
it.\<close>

theorem result_ownership_exactly_once:
  assumes "result_inv base w" "result_ops_enabled other ops w"
  shows "\<exists>w'. result_run other ops w = Some w' \<and>
    (\<forall>p. heap_blocks (world_heap w') p \<noteq> None \<longleftrightarrow> p \<in> base \<or> (\<exists>x. owns w' x p)) \<and>
    (\<forall>x y p. owns w' x p \<and> owns w' y p \<longrightarrow> x = y)"
  using result_run_inv [OF assms] unfolding result_inv_def by blast

theorem result_ownership_exactly_once_witness:
  "\<exists>w'. result_run (\<lambda>_ _ _. None)
      [Construct 0 QRVMC_SUCCESS 5 0 (Some [1, 2]) 2, Make_raw 7 QRVMC_REVERT 1 0 (Some [9]) 1,
       Move_construct 1 0, Adopt 2 7, Move_assign 2 1, Destroy 0, Release_raw 2 3, Destroy 1]
      \<lparr>owners = (\<lambda>_. None), world_heap = heap_empty\<rparr> = Some w' \<and>
    (\<forall>p. heap_blocks (world_heap w') p \<noteq> None \<longleftrightarrow> p \<in> {} \<or> (\<exists>x. owns w' x p)) \<and>
    (\<forall>x y p. owns w' x p \<and> owns w' y p \<longrightarrow> x = y)"
  by (rule result_ownership_exactly_once)
    (simp_all add: result_inv_def owns_def heap_empty_def heap_ok_def qrvmc_make_result_def
      malloc_def heap_write_def result_zero_def Result_move_def Result_release_resources_def
      call_release_def qrvmc_free_result_memory_def heap_free_def Result_release_raw_def Let_def)

end
