(* ===== verification/HostInterface.thy ===== *)
theory HostInterface
  imports Results
begin

text \<open>
  The host interface: the functions a client provides to a VM (\<open>struct qrvmc_host_interface\<close> of
  \<open>include/qrvmc/qrvmc.h\<close>, class \<open>HostInterface\<close> of \<open>include/qrvmc/qrvmc.hpp\<close>), and the two adapters
  between them, the table of C functions that \<open>Host::get_interface\<close> returns and the class
  \<open>HostContext\<close>.

  A method takes the host and returns its result and the host after the call, or \<open>None\<close> when an
  assertion of the host fails or it reads memory that it must not. The C function table takes an opaque context pointer, which
  \<open>to_context\<close> and \<open>from_context\<close> convert to the host object and back, so both have the same type.
\<close>

subsection \<open>The interface\<close>

record 'h host_methods =
  hi_account_exists :: "qrvmc_address \<Rightarrow> 'h \<Rightarrow> (bool \<times> 'h) option"
  hi_get_storage :: "qrvmc_address \<Rightarrow> qrvmc_bytes64 \<Rightarrow> 'h \<Rightarrow> (qrvmc_bytes64 \<times> 'h) option"
  hi_set_storage :: "qrvmc_address \<Rightarrow> qrvmc_bytes64 \<Rightarrow> qrvmc_bytes64 \<Rightarrow> 'h \<Rightarrow>
    (qrvmc_storage_status \<times> 'h) option"
  hi_get_balance :: "qrvmc_address \<Rightarrow> 'h \<Rightarrow> (qrvmc_uint512be \<times> 'h) option"
  hi_get_code_size :: "qrvmc_address \<Rightarrow> 'h \<Rightarrow> (nat \<times> 'h) option"
  hi_get_code_hash :: "qrvmc_address \<Rightarrow> 'h \<Rightarrow> (qrvmc_bytes64 \<times> 'h) option"
  hi_copy_code :: "qrvmc_address \<Rightarrow> nat \<Rightarrow> view \<Rightarrow> nat \<Rightarrow> 'h \<Rightarrow> (nat \<times> view \<times> 'h) option"
  hi_call :: "view qrvmc_message \<Rightarrow> 'h \<Rightarrow> heap \<Rightarrow> (heap_ptr qrvmc_result \<times> 'h \<times> heap) option"
  hi_get_tx_context :: "'h \<Rightarrow> (qrvmc_tx_context \<times> 'h) option"
  hi_get_block_hash :: "int \<Rightarrow> 'h \<Rightarrow> (qrvmc_bytes64 \<times> 'h) option"
  hi_emit_log :: "qrvmc_address \<Rightarrow> view \<Rightarrow> nat \<Rightarrow> qrvmc_bytes64 list option \<Rightarrow> nat \<Rightarrow> 'h \<Rightarrow> 'h option"
  hi_access_account :: "qrvmc_address \<Rightarrow> 'h \<Rightarrow> (qrvmc_access_status \<times> 'h) option"
  hi_access_storage :: "qrvmc_address \<Rightarrow> qrvmc_bytes64 \<Rightarrow> 'h \<Rightarrow> (qrvmc_access_status \<times> 'h) option"

subsection \<open>The adapters\<close>

text \<open>
  Both adapters copy the log topics into an array of four: a loop over the topics, of which there
  are none when the pointer is null.
\<close>

definition max_log_topics :: nat where
  "max_log_topics = 4"

definition copied_topics :: "qrvmc_bytes64 list option \<Rightarrow> nat \<Rightarrow> nat" where
  "copied_topics topics topics_count =
    (if topics = None then 0
     else if topics_count \<le> max_log_topics then topics_count else max_log_topics)"

function topic_copy_loop ::
    "qrvmc_bytes64 list \<Rightarrow> nat \<Rightarrow> nat \<Rightarrow> qrvmc_bytes64 list \<Rightarrow> qrvmc_bytes64 list option" where
  "topic_copy_loop topics n i copy =
    (if i < n then
       (if i < length topics then topic_copy_loop topics n (i + 1) (copy[i := topics ! i]) else None)
     else Some copy)"
  by pat_completeness auto
termination
  by (relation "measure (\<lambda>(topics, n, i, copy). n - i)") auto

declare topic_copy_loop.simps [simp del]

definition topic_copy :: "qrvmc_bytes64 list option \<Rightarrow> nat \<Rightarrow> qrvmc_bytes64 list option" where
  "topic_copy topics topics_count =
    topic_copy_loop (case topics of Some ts \<Rightarrow> ts | None \<Rightarrow> []) (copied_topics topics topics_count) 0
      (replicate max_log_topics bytes64_zero)"

text \<open>The functions of the namespace \<open>internal\<close>, over the virtual methods of a host.\<close>

definition internal_call ::
    "'h host_methods \<Rightarrow> view qrvmc_message \<Rightarrow> 'h \<Rightarrow> heap \<Rightarrow>
      (heap_ptr qrvmc_result \<times> 'h \<times> heap) option" where
  "internal_call H msg h hp =
    map_option (\<lambda>(result, h', hp'). (fst (Result_release_raw result), h', hp')) (hi_call H msg h hp)"

definition internal_emit_log ::
    "'h host_methods \<Rightarrow> qrvmc_address \<Rightarrow> view \<Rightarrow> nat \<Rightarrow> qrvmc_bytes64 list option \<Rightarrow> nat \<Rightarrow> 'h \<Rightarrow>
      'h option" where
  "internal_emit_log H addr data data_size topics num_topics h =
    (case topic_copy topics num_topics of
       None \<Rightarrow> None
     | Some copy \<Rightarrow> hi_emit_log H addr data data_size (Some copy) (copied_topics topics num_topics) h)"

definition Host_get_interface :: "'h host_methods \<Rightarrow> 'h host_methods" where
  "Host_get_interface H =
    \<lparr>hi_account_exists = \<lambda>addr h. hi_account_exists H addr h,
     hi_get_storage = \<lambda>addr key h. hi_get_storage H addr key h,
     hi_set_storage = \<lambda>addr key val h. hi_set_storage H addr key val h,
     hi_get_balance = \<lambda>addr h. hi_get_balance H addr h,
     hi_get_code_size = \<lambda>addr h. hi_get_code_size H addr h,
     hi_get_code_hash = \<lambda>addr h. hi_get_code_hash H addr h,
     hi_copy_code = \<lambda>addr off buf n h. hi_copy_code H addr off buf n h,
     hi_call = internal_call H,
     hi_get_tx_context = \<lambda>h. hi_get_tx_context H h,
     hi_get_block_hash = \<lambda>n h. hi_get_block_hash H n h,
     hi_emit_log = internal_emit_log H,
     hi_access_account = \<lambda>addr h. hi_access_account H addr h,
     hi_access_storage = \<lambda>addr key h. hi_access_storage H addr key h\<rparr>"

text \<open>The methods of \<open>HostContext\<close> over a table of C functions.\<close>

definition HostContext_call ::
    "'h host_methods \<Rightarrow> view qrvmc_message \<Rightarrow> 'h \<Rightarrow> heap \<Rightarrow>
      (heap_ptr qrvmc_result \<times> 'h \<times> heap) option" where
  "HostContext_call host message ctx hp = hi_call host message ctx hp"

definition HostContext_emit_log ::
    "'h host_methods \<Rightarrow> qrvmc_address \<Rightarrow> view \<Rightarrow> nat \<Rightarrow> qrvmc_bytes64 list option \<Rightarrow> nat \<Rightarrow> 'h \<Rightarrow>
      'h option" where
  "HostContext_emit_log host addr data data_size topics topics_count ctx =
    (case topic_copy topics topics_count of
       None \<Rightarrow> None
     | Some copy \<Rightarrow> hi_emit_log host addr data data_size (Some copy) (copied_topics topics topics_count) ctx)"

definition HostContext :: "'h host_methods \<Rightarrow> 'h host_methods" where
  "HostContext host =
    \<lparr>hi_account_exists = \<lambda>addr ctx. hi_account_exists host addr ctx,
     hi_get_storage = \<lambda>addr key ctx. hi_get_storage host addr key ctx,
     hi_set_storage = \<lambda>addr key val ctx. hi_set_storage host addr key val ctx,
     hi_get_balance = \<lambda>addr ctx. hi_get_balance host addr ctx,
     hi_get_code_size = \<lambda>addr ctx. hi_get_code_size host addr ctx,
     hi_get_code_hash = \<lambda>addr ctx. hi_get_code_hash host addr ctx,
     hi_copy_code = \<lambda>addr off buf n ctx. hi_copy_code host addr off buf n ctx,
     hi_call = HostContext_call host,
     hi_get_tx_context = \<lambda>ctx. hi_get_tx_context host ctx,
     hi_get_block_hash = \<lambda>n ctx. hi_get_block_hash host n ctx,
     hi_emit_log = HostContext_emit_log host,
     hi_access_account = \<lambda>addr ctx. hi_access_account host addr ctx,
     hi_access_storage = \<lambda>addr key ctx. hi_access_storage host addr key ctx\<rparr>"

lemma topic_copy_loop_eq:
  assumes "i \<le> n" "n \<le> length copy"
  shows "topic_copy_loop topics n i copy =
    (if n \<le> length topics \<or> n = i
     then Some (take i copy @ take (n - i) (drop i topics) @ drop n copy) else None)"
  using assms
proof (induction topics n i copy rule: topic_copy_loop.induct)
  case (1 topics n i copy)
  show ?case
  proof (cases "i < n \<and> i < length topics")
    case True
    have step: "take (n - i) (drop i topics) = topics ! i # take (n - Suc i) (drop (Suc i) topics)"
      using True by (simp add: Cons_nth_drop_Suc [symmetric] Suc_diff_Suc [symmetric])
    have copied: "take (Suc i) (copy[i := topics ! i]) = take i copy @ [topics ! i]"
      using True "1.prems" by (simp add: take_Suc_conv_app_nth)
    have "topic_copy_loop topics n i copy = topic_copy_loop topics n (i + 1) (copy[i := topics ! i])"
      using True by (simp add: topic_copy_loop.simps [of topics n i copy])
    also have "\<dots> = (if n \<le> length topics \<or> n = i + 1
        then Some (take (i + 1) (copy[i := topics ! i]) @ take (n - (i + 1)) (drop (i + 1) topics) @
          drop n (copy[i := topics ! i])) else None)"
      by (rule "1.IH") (use True "1.prems" in simp_all)
    also have "\<dots> = (if n \<le> length topics \<or> n = i
        then Some (take i copy @ take (n - i) (drop i topics) @ drop n copy) else None)"
      using True by (auto simp: step copied)
    finally show ?thesis .
  next
    case False
    then show ?thesis using "1.prems" by (auto simp: topic_copy_loop.simps [of topics n i copy])
  qed
qed

text \<open>Copying the topics fails only when the pointer has less topics than it should.\<close>

lemma topic_copy_eq:
  "topic_copy topics n =
    (case topics of
       None \<Rightarrow> Some (replicate 4 bytes64_zero)
     | Some ts \<Rightarrow>
         if min n 4 \<le> length ts then Some (take (min n 4) ts @ replicate (4 - n) bytes64_zero) else None)"
  by (auto simp: topic_copy_def copied_topics_def max_log_topics_def topic_copy_loop_eq min_def
      split: option.splits)

lemma length_topic_copy: "topic_copy topics n = Some copy \<Longrightarrow> length copy = 4"
  by (auto simp: topic_copy_eq split: option.splits if_splits)

text \<open>Adapting twice copies the topics twice, which changes nothing more.\<close>

lemma copied_topics_twice [simp]:
  "copied_topics (Some xs) (copied_topics topics n) = copied_topics topics n"
  by (auto simp: copied_topics_def)

lemma topic_copy_twice:
  assumes "topic_copy topics n = Some copy"
  shows "topic_copy (Some copy) (copied_topics topics n) = Some copy"
  using assms
  by (auto simp: topic_copy_eq copied_topics_def max_log_topics_def min_def split: option.splits
      if_splits)

subsection \<open>What storage users rely on\<close>

text \<open>
  A host with storage: reads and writes return, a read gives what the last write to the slot
  stored, and neither disturbs other slots.
\<close>

locale storage_host =
  fixes H :: "'h host_methods"
    and invar :: "'h \<Rightarrow> bool"
  assumes get_returns: "invar h \<Longrightarrow> \<exists>v h'. hi_get_storage H a k h = Some (v, h') \<and> invar h'"
    and set_returns: "invar h \<Longrightarrow> \<exists>s h'. hi_set_storage H a k v h = Some (s, h') \<and> invar h'"
    and get_keeps: "invar h \<Longrightarrow> hi_get_storage H a k h = Some (v, h') \<Longrightarrow>
      map_option fst (hi_get_storage H a' k' h') = map_option fst (hi_get_storage H a' k' h)"
    and get_set: "invar h \<Longrightarrow> hi_set_storage H a k v h = Some (s, h') \<Longrightarrow>
      map_option fst (hi_get_storage H a' k' h') =
        (if a' = a \<and> k' = k then Some v else map_option fst (hi_get_storage H a' k' h))"

text \<open>Reads and writes of several slots, and the value a slot should have after them.\<close>

datatype storage_op =
    Read qrvmc_address qrvmc_bytes64
  | Write qrvmc_address qrvmc_bytes64 qrvmc_bytes64

fun run_storage :: "'h host_methods \<Rightarrow> storage_op list \<Rightarrow> 'h \<Rightarrow> 'h option" where
  "run_storage H [] h = Some h"
| "run_storage H (Read a k # ops) h =
    (case hi_get_storage H a k h of None \<Rightarrow> None | Some (v, h') \<Rightarrow> run_storage H ops h')"
| "run_storage H (Write a k v # ops) h =
    (case hi_set_storage H a k v h of None \<Rightarrow> None | Some (s, h') \<Rightarrow> run_storage H ops h')"

fun last_written ::
    "qrvmc_address \<Rightarrow> qrvmc_bytes64 \<Rightarrow> storage_op list \<Rightarrow> qrvmc_bytes64 \<Rightarrow> qrvmc_bytes64" where
  "last_written a k [] v = v"
| "last_written a k (Read a' k' # ops) v = last_written a k ops v"
| "last_written a k (Write a' k' v' # ops) v =
    last_written a k ops (if a = a' \<and> k = k' then v' else v)"

context storage_host
begin

lemma reads_last_written:
  assumes "invar h" "map_option fst (hi_get_storage H a k h) = Some v"
  shows "\<exists>h'. run_storage H ops h = Some h' \<and> invar h' \<and>
    map_option fst (hi_get_storage H a k h') = Some (last_written a k ops v)"
  using assms
proof (induction ops arbitrary: h v)
  case (Cons op ops)
  show ?case
  proof (cases op)
    case (Read a' k')
    obtain u h' where g: "hi_get_storage H a' k' h = Some (u, h')" "invar h'"
      using get_returns Cons.prems(1) by blast
    have "map_option fst (hi_get_storage H a k h') = Some v"
      using get_keeps [OF Cons.prems(1) g(1)] Cons.prems(2) by simp
    then show ?thesis using Cons.IH [OF g(2)] g by (simp add: Read)
  next
    case (Write a' k' w)
    obtain s h' where g: "hi_set_storage H a' k' w h = Some (s, h')" "invar h'"
      using set_returns Cons.prems(1) by blast
    have "map_option fst (hi_get_storage H a k h') =
        Some (if a = a' \<and> k = k' then w else v)"
      using get_set [OF Cons.prems(1) g(1), of a k] Cons.prems(2) by simp
    then show ?thesis using Cons.IH [OF g(2)] g by (simp add: Write)
  qed
qed simp

end

lemma adapters_storage [simp]:
  "hi_get_storage (HostContext H) = hi_get_storage H"
  "hi_set_storage (HostContext H) = hi_set_storage H"
  "hi_get_storage (Host_get_interface H) = hi_get_storage H"
  "hi_set_storage (Host_get_interface H) = hi_set_storage H"
  by (simp_all add: HostContext_def Host_get_interface_def)

lemma adapters_eq:
  "HostContext (Host_get_interface H) =
    H\<lparr>hi_emit_log := \<lambda>addr data data_size topics n h.
        (case topic_copy topics n of
           None \<Rightarrow> None
         | Some copy \<Rightarrow> hi_emit_log H addr data data_size (Some copy) (copied_topics topics n) h)\<rparr>"
proof -
  have "internal_call G = hi_call G" for G :: "'a host_methods"
    by (auto simp: fun_eq_iff internal_call_def Result_release_raw_def Let_def map_option_case
        split: option.splits)
  moreover have "HostContext_call G = hi_call G" for G :: "'a host_methods"
    by (simp add: fun_eq_iff HostContext_call_def)
  moreover have "HostContext_emit_log (Host_get_interface H) = internal_emit_log H"
    by (auto simp: fun_eq_iff HostContext_emit_log_def Host_get_interface_def internal_emit_log_def
        topic_copy_twice split: option.splits)
  moreover have "internal_emit_log H = (\<lambda>addr data data_size topics n h.
      (case topic_copy topics n of
         None \<Rightarrow> None
       | Some copy \<Rightarrow> hi_emit_log H addr data data_size (Some copy) (copied_topics topics n) h))"
    by (simp add: fun_eq_iff internal_emit_log_def)
  ultimately show ?thesis
    by (cases H) (simp add: HostContext_def Host_get_interface_def)
qed

subsection \<open>Properties\<close>


end
