(* ===== verification/MockedHost.thy ===== *)
theory MockedHost
  imports HostInterface Hex
begin

text \<open>
  The mocked host of \<open>include/qrvmc/mocked_host.hpp\<close>: an implementation of the host interface that
  keeps accounts in memory, answers calls with a canned result and records what was asked.

  The public methods take the host and return their result and the host after the call; the
  \<open>const\<close> methods too, since the records are \<open>mutable\<close>. Hash maps of the source are maps, which is
  what \<open>operator==\<close> and \<open>std::hash\<close> of their keys make of them (locale \<open>byte_key\<close>). Assertions of
  the source, and accesses outside the memory of the caller, are the value \<open>None\<close>.

  A recorded call keeps a pointer to the copy of its input, which is an element of a
  \<open>std::vector\<close>. Such a pointer is the identity of the vector's storage and the index of the
  element; it can be followed as long as the vector still has that storage. The identity is the
  number of the host object and the number of reallocations the vector has seen.
\<close>

subsection \<open>Accounts\<close>

record StorageValue =
  sv_current :: qrvmc_bytes64
  sv_original :: qrvmc_bytes64
  sv_access_status :: qrvmc_access_status

definition StorageValue_default :: StorageValue where
  "StorageValue_default =
    \<lparr>sv_current = bytes64_zero, sv_original = bytes64_zero, sv_access_status = QRVMC_ACCESS_COLD\<rparr>"

definition StorageValue_same :: "qrvmc_bytes64 \<Rightarrow> qrvmc_access_status \<Rightarrow> StorageValue" where
  "StorageValue_same v st = \<lparr>sv_current = v, sv_original = v, sv_access_status = st\<rparr>"

definition StorageValue_make ::
    "qrvmc_bytes64 \<Rightarrow> qrvmc_bytes64 \<Rightarrow> qrvmc_access_status \<Rightarrow> StorageValue" where
  "StorageValue_make v original st =
    \<lparr>sv_current = v, sv_original = original, sv_access_status = st\<rparr>"

record MockedAccount =
  acc_nonce :: int
  acc_code :: "u8 list"
  acc_codehash :: qrvmc_bytes64
  acc_balance :: qrvmc_uint512be
  acc_storage :: "qrvmc_bytes64 \<Rightarrow> StorageValue option"

definition MockedAccount_default :: MockedAccount where
  "MockedAccount_default =
    \<lparr>acc_nonce = 0, acc_code = [], acc_codehash = bytes64_zero, acc_balance = bytes64_zero,
     acc_storage = (\<lambda>_. None)\<rparr>"

text \<open>The loop of \<open>set_balance\<close> over the bytes of the number, from index \<open>i\<close> on.\<close>

function set_balance_loop :: "u64 \<Rightarrow> nat \<Rightarrow> u8 list \<Rightarrow> u8 list" where
  "set_balance_loop x i bs =
    (if i < 8 then set_balance_loop x (i + 1) (bs[64 - 1 - i := ucast (drop_bit (8 * i) x)]) else bs)"
  by pat_completeness auto
termination
  by (relation "measure (\<lambda>(x, i, bs). 8 - i)") auto

declare set_balance_loop.simps [simp del]

definition set_balance :: "u64 \<Rightarrow> MockedAccount \<Rightarrow> MockedAccount" where
  "set_balance x acc =
    acc\<lparr>acc_balance := bytes64_of_bytes (set_balance_loop x 0 (bytes64_bytes bytes64_zero))\<rparr>"

subsection \<open>Recorded calls and logs\<close>

record log_record =
  log_creator :: qrvmc_address
  log_data :: "u8 list"
  log_topics :: "qrvmc_bytes64 list"

definition log_record_eq :: "log_record \<Rightarrow> log_record \<Rightarrow> bool" where
  "log_record_eq a b \<longleftrightarrow>
    address_eq (log_creator a) (log_creator b) \<and> log_data a = log_data b \<and>
    list_all2 bytes64_eq (log_topics a) (log_topics b)"

text \<open>
  The input pointer of a recorded message: null, a pointer that the user of the host put there, or
  a pointer to an element of the vector of input copies.
\<close>

type_synonym buffer_id = "nat \<times> nat"

datatype input_ptr = Null_ptr | Foreign_ptr nat | Input_copy buffer_id nat

record input_vector =
  iv_host :: nat
  iv_generation :: nat
  iv_capacity :: nat
  iv_elems :: "u8 list list"

definition iv_buffer :: "input_vector \<Rightarrow> buffer_id" where
  "iv_buffer v = (iv_host v, iv_generation v)"

definition iv_empty :: "nat \<Rightarrow> input_vector" where
  "iv_empty host = \<lparr>iv_host = host, iv_generation = 0, iv_capacity = 0, iv_elems = []\<rparr>"

text \<open>\<open>std::vector\<close>: \<open>clear\<close> keeps the storage, a reallocation gives it a new one.\<close>

definition iv_clear :: "input_vector \<Rightarrow> input_vector" where
  "iv_clear v = v\<lparr>iv_elems := []\<rparr>"

definition iv_reserve :: "nat \<Rightarrow> input_vector \<Rightarrow> input_vector" where
  "iv_reserve n v =
    (if n > iv_capacity v then v\<lparr>iv_generation := Suc (iv_generation v), iv_capacity := n\<rparr> else v)"

definition iv_emplace_back :: "u8 list \<Rightarrow> input_vector \<Rightarrow> input_vector" where
  "iv_emplace_back bs v =
    (let w = (if length (iv_elems v) < iv_capacity v then v
              else v\<lparr>iv_generation := Suc (iv_generation v),
                     iv_capacity := max 1 (2 * iv_capacity v)\<rparr>)
     in w\<lparr>iv_elems := iv_elems w @ [bs]\<rparr>)"

text \<open>What can be read through a pointer into the vector; \<open>None\<close> when it dangles.\<close>

definition iv_deref :: "input_vector \<Rightarrow> buffer_id \<Rightarrow> nat \<Rightarrow> u8 list option" where
  "iv_deref v b i = (if b = iv_buffer v \<and> i < length (iv_elems v) then Some (iv_elems v ! i) else None)"

subsection \<open>The host\<close>

record mocked_host =
  mh_accounts :: "qrvmc_address \<Rightarrow> MockedAccount option"
  mh_tx_context :: qrvmc_tx_context
  mh_block_hash :: qrvmc_bytes64
  mh_call_result :: "view qrvmc_result"
  mh_recorded_blockhashes :: "int list"
  mh_recorded_account_accesses :: "qrvmc_address list"
  mh_recorded_calls :: "input_ptr qrvmc_message list"
  mh_recorded_logs :: "log_record list"
  mh_recorded_calls_inputs :: input_vector

definition max_recorded_account_accesses :: nat where
  "max_recorded_account_accesses = 200"

definition max_recorded_calls :: nat where
  "max_recorded_calls = 100"

definition view_result_zero :: "view qrvmc_result" where
  "view_result_zero =
    \<lparr>status_code = QRVMC_SUCCESS, gas_left = 0, gas_refund = 0, output_data = None,
     output_size = 0, release = None, create_address = address_zero, padding = replicate 4 0\<rparr>"

text \<open>The default constructor; the number is the identity of the object.\<close>

definition mocked_host_new :: "nat \<Rightarrow> mocked_host" where
  "mocked_host_new host =
    \<lparr>mh_accounts = (\<lambda>_. None), mh_tx_context = tx_context_zero, mh_block_hash = bytes64_zero,
     mh_call_result = view_result_zero, mh_recorded_blockhashes = [],
     mh_recorded_account_accesses = [], mh_recorded_calls = [], mh_recorded_logs = [],
     mh_recorded_calls_inputs = iv_empty host\<rparr>"

definition record_account_access :: "qrvmc_address \<Rightarrow> mocked_host \<Rightarrow> mocked_host" where
  "record_account_access addr h =
    (if length (mh_recorded_account_accesses h) < max_recorded_account_accesses
     then h\<lparr>mh_recorded_account_accesses := mh_recorded_account_accesses h @ [addr]\<rparr>
     else h)"

definition mocked_account_exists :: "qrvmc_address \<Rightarrow> mocked_host \<Rightarrow> bool \<times> mocked_host" where
  "mocked_account_exists addr h =
    (let h = record_account_access addr h in (mh_accounts h addr \<noteq> None, h))"

definition mocked_get_storage ::
    "qrvmc_address \<Rightarrow> qrvmc_bytes64 \<Rightarrow> mocked_host \<Rightarrow> qrvmc_bytes64 \<times> mocked_host" where
  "mocked_get_storage addr key h =
    (let h = record_account_access addr h in
     (case mh_accounts h addr of
        None \<Rightarrow> (bytes64_zero, h)
      | Some acc \<Rightarrow>
          (case acc_storage acc key of
             Some sv \<Rightarrow> (sv_current sv, h)
           | None \<Rightarrow> (bytes64_zero, h))))"

text \<open>The clauses that \<open>set_storage\<close> collects, and the status of their combinations.\<close>

definition RemoveClearsSchedule :: u32 where
  "RemoveClearsSchedule = push_bit 0 1"

definition AddClearsSchedule :: u32 where
  "AddClearsSchedule = push_bit 1 1"

definition RestoredBySet :: u32 where
  "RestoredBySet = push_bit 2 1"

definition RestoredByReset :: u32 where
  "RestoredByReset = push_bit 3 1"

definition status_of_clauses :: "u32 \<Rightarrow> qrvmc_storage_status option" where
  "status_of_clauses triggered_clauses =
    (if triggered_clauses = RemoveClearsSchedule then Some QRVMC_STORAGE_DELETED_ADDED
     else if triggered_clauses = AddClearsSchedule then Some QRVMC_STORAGE_MODIFIED_DELETED
     else if triggered_clauses = RemoveClearsSchedule OR RestoredByReset
       then Some QRVMC_STORAGE_DELETED_RESTORED
     else if triggered_clauses = RestoredBySet then Some QRVMC_STORAGE_ADDED_DELETED
     else if triggered_clauses = RestoredByReset then Some QRVMC_STORAGE_MODIFIED_RESTORED
     else if triggered_clauses = 0 then Some QRVMC_STORAGE_ASSIGNED
     else None)"

definition storage_status ::
    "qrvmc_bytes64 \<Rightarrow> qrvmc_bytes64 \<Rightarrow> qrvmc_bytes64 \<Rightarrow> qrvmc_storage_status option" where
  "storage_status original current val =
    (if bytes64_eq current val then Some QRVMC_STORAGE_ASSIGNED
     else if bytes64_eq original current then
       (if bytes64_is_zero original then Some QRVMC_STORAGE_ADDED
        else if bytes64_is_zero val then Some QRVMC_STORAGE_DELETED
        else Some QRVMC_STORAGE_MODIFIED)
     else
       (let c0 = 0 :: u32;
            not_zero = \<not> bytes64_is_zero original;
            removes = not_zero \<and> bytes64_is_zero current;
            adds = not_zero \<and> bytes64_is_zero val;
            c1 = (if removes then c0 OR RemoveClearsSchedule else c0);
            c2 = (if adds then c1 OR AddClearsSchedule else c1);
            c3 = (if bytes64_eq original val then
                    (if bytes64_is_zero original then c2 OR RestoredBySet else c2 OR RestoredByReset)
                  else c2)
        in if removes \<and> bytes64_is_zero val then None
           else if adds \<and> bytes64_is_zero current then None
           else status_of_clauses c3))"

text \<open>\<open>accounts[addr].storage[key]\<close>, which makes the account and the entry if they are missing.\<close>

definition account_or_new :: "qrvmc_address \<Rightarrow> mocked_host \<Rightarrow> MockedAccount" where
  "account_or_new addr h = (case mh_accounts h addr of Some acc \<Rightarrow> acc | None \<Rightarrow> MockedAccount_default)"

definition storage_or_new :: "qrvmc_address \<Rightarrow> qrvmc_bytes64 \<Rightarrow> mocked_host \<Rightarrow> StorageValue" where
  "storage_or_new addr key h =
    (case acc_storage (account_or_new addr h) key of Some sv \<Rightarrow> sv | None \<Rightarrow> StorageValue_default)"

definition update_storage ::
    "qrvmc_address \<Rightarrow> qrvmc_bytes64 \<Rightarrow> StorageValue \<Rightarrow> mocked_host \<Rightarrow> mocked_host" where
  "update_storage addr key sv h =
    (let acc = account_or_new addr h
     in h\<lparr>mh_accounts := (mh_accounts h)(addr \<mapsto> acc\<lparr>acc_storage := (acc_storage acc)(key \<mapsto> sv)\<rparr>)\<rparr>)"

definition mocked_set_storage ::
    "qrvmc_address \<Rightarrow> qrvmc_bytes64 \<Rightarrow> qrvmc_bytes64 \<Rightarrow> mocked_host \<Rightarrow>
      (qrvmc_storage_status \<times> mocked_host) option" where
  "mocked_set_storage addr key val h =
    (let h = record_account_access addr h; s = storage_or_new addr key h in
     (case storage_status (sv_original s) (sv_current s) val of
        None \<Rightarrow> None
      | Some status \<Rightarrow> Some (status, update_storage addr key (s\<lparr>sv_current := val\<rparr>) h)))"

definition mocked_get_balance :: "qrvmc_address \<Rightarrow> mocked_host \<Rightarrow> qrvmc_uint512be \<times> mocked_host" where
  "mocked_get_balance addr h =
    (let h = record_account_access addr h in
     (case mh_accounts h addr of None \<Rightarrow> (bytes64_zero, h) | Some acc \<Rightarrow> (acc_balance acc, h)))"

definition mocked_get_code_size :: "qrvmc_address \<Rightarrow> mocked_host \<Rightarrow> nat \<times> mocked_host" where
  "mocked_get_code_size addr h =
    (let h = record_account_access addr h in
     (case mh_accounts h addr of None \<Rightarrow> (0, h) | Some acc \<Rightarrow> (length (acc_code acc), h)))"

definition mocked_get_code_hash :: "qrvmc_address \<Rightarrow> mocked_host \<Rightarrow> qrvmc_bytes64 \<times> mocked_host" where
  "mocked_get_code_hash addr h =
    (let h = record_account_access addr h in
     (case mh_accounts h addr of None \<Rightarrow> (bytes64_zero, h) | Some acc \<Rightarrow> (acc_codehash acc, h)))"

text \<open>The buffer is the caller's array at \<open>buffer_data\<close>, or \<open>None\<close> for a null pointer.\<close>

definition mocked_copy_code ::
    "qrvmc_address \<Rightarrow> nat \<Rightarrow> view \<Rightarrow> nat \<Rightarrow> mocked_host \<Rightarrow> (nat \<times> view \<times> mocked_host) option" where
  "mocked_copy_code addr code_offset buffer_data buffer_size h =
    (let h = record_account_access addr h in
     (case mh_accounts h addr of
        None \<Rightarrow> Some (0, buffer_data, h)
      | Some acc \<Rightarrow>
          (let code = acc_code acc in
           if code_offset \<ge> length code then Some (0, buffer_data, h)
           else let n = min buffer_size (length code - code_offset) in
             if n = 0 then Some (0, buffer_data, h)
             else (case buffer_data of
                     None \<Rightarrow> Some (0, buffer_data, h)
                   | Some buf \<Rightarrow>
                       if n \<le> length buf
                       then Some (n, Some (blit buf 0 (take n (drop code_offset code))), h)
                       else None))))"

text \<open>
  The record of a call: the message with its input pointer, and the vector of input copies. The
  caller's message is a \<open>view\<close> message; \<open>msg\<lparr>input\<rparr>\<close> with another pointer type is \<open>with_input\<close>.
\<close>

definition with_input :: "'q \<Rightarrow> nat \<Rightarrow> 'p qrvmc_message \<Rightarrow> 'q qrvmc_message" where
  "with_input ptr n m =
    \<lparr>msg_kind = msg_kind m, msg_flags = msg_flags m, msg_depth = msg_depth m, msg_gas = msg_gas m,
     msg_recipient = msg_recipient m, msg_sender = msg_sender m,
     msg_input_data = ptr, msg_input_size = n,
     msg_value = msg_value m, msg_create2_salt = msg_create2_salt m,
     msg_code_address = msg_code_address m\<rparr>"

definition record_call :: "view qrvmc_message \<Rightarrow> mocked_host \<Rightarrow> mocked_host option" where
  "record_call msg h =
    (let h = (if mh_recorded_calls h = []
              then h\<lparr>mh_recorded_calls_inputs :=
                iv_reserve max_recorded_calls (iv_clear (mh_recorded_calls_inputs h))\<rparr>
              else h)
     in if length (mh_recorded_calls h) < max_recorded_calls then
          (case msg_input_data msg of
             None \<Rightarrow> Some (h\<lparr>mh_recorded_calls := mh_recorded_calls h @ [with_input Null_ptr 0 msg]\<rparr>)
           | Some input \<Rightarrow>
               if msg_input_size msg = 0
               then Some (h\<lparr>mh_recorded_calls := mh_recorded_calls h @ [with_input Null_ptr 0 msg]\<rparr>)
               else if msg_input_size msg \<le> length input then
                 let inputs = iv_emplace_back (take (msg_input_size msg) input)
                       (mh_recorded_calls_inputs h);
                     ptr = Input_copy (iv_buffer inputs) (length (iv_elems inputs) - 1)
                 in Some (h\<lparr>mh_recorded_calls_inputs := inputs,
                      mh_recorded_calls :=
                        mh_recorded_calls h @ [with_input ptr (msg_input_size msg) msg]\<rparr>)
               else None)
        else Some h)"

definition mocked_call ::
    "view qrvmc_message \<Rightarrow> mocked_host \<Rightarrow> heap \<Rightarrow> (heap_ptr qrvmc_result \<times> mocked_host \<times> heap) option" where
  "mocked_call msg h hp =
    (case record_call msg (record_account_access (msg_recipient msg) h) of
       None \<Rightarrow> None
     | Some h \<Rightarrow>
         (let cr = mh_call_result h in
          map_option (\<lambda>(result, hp). (set_optional_storage (optional_storage cr) result, h, hp))
            (qrvmc_make_result (status_code cr) (gas_left cr) (gas_refund cr) (output_data cr)
              (output_size cr) hp)))"

definition mocked_get_tx_context :: "mocked_host \<Rightarrow> qrvmc_tx_context" where
  "mocked_get_tx_context h = mh_tx_context h"

definition mocked_get_block_hash :: "int \<Rightarrow> mocked_host \<Rightarrow> qrvmc_bytes64 \<times> mocked_host" where
  "mocked_get_block_hash n h =
    (mh_block_hash h, h\<lparr>mh_recorded_blockhashes := mh_recorded_blockhashes h @ [n]\<rparr>)"

text \<open>A pointer to topics is the list of the topics that can be read, or \<open>None\<close> for null.\<close>

definition mocked_emit_log ::
    "qrvmc_address \<Rightarrow> view \<Rightarrow> nat \<Rightarrow> qrvmc_bytes64 list option \<Rightarrow> nat \<Rightarrow> mocked_host \<Rightarrow>
      mocked_host option" where
  "mocked_emit_log addr data data_size topics topics_count h =
    (let log = \<lparr>log_creator = addr, log_data = [], log_topics = []\<rparr> in
     (case (if data_size \<noteq> 0
            then (case data of
                    None \<Rightarrow> None
                  | Some bs \<Rightarrow>
                      if data_size \<le> length bs then Some (log\<lparr>log_data := take data_size bs\<rparr>) else None)
            else Some log) of
        None \<Rightarrow> None
      | Some log \<Rightarrow>
          (case (if topics_count \<noteq> 0
                 then (case topics of
                         None \<Rightarrow> None
                       | Some ts \<Rightarrow>
                           if topics_count \<le> length ts
                           then Some (log\<lparr>log_topics := take topics_count ts\<rparr>) else None)
                 else Some log) of
             None \<Rightarrow> None
           | Some log \<Rightarrow> Some (h\<lparr>mh_recorded_logs := mh_recorded_logs h @ [log]\<rparr>))))"

text \<open>The two address literals that bound the precompiled contracts.\<close>

definition first_precompile :: "qrvmc_address option" where
  "first_precompile = address_literal
    ''Q000000000000000000000000000000000000000000000000000000000000000000000000000000000000000000000001''"

definition last_precompile :: "qrvmc_address option" where
  "last_precompile = address_literal
    ''Q000000000000000000000000000000000000000000000000000000000000000000000000000000000000000000000009''"

definition mocked_access_account ::
    "qrvmc_address \<Rightarrow> mocked_host \<Rightarrow> qrvmc_access_status \<times> mocked_host" where
  "mocked_access_account addr h =
    (let already_accessed = list_ex (\<lambda>a. address_eq a addr) (mh_recorded_account_accesses h);
         h = record_account_access addr h
     in if (case (first_precompile, last_precompile) of
              (Some lo, Some hi) \<Rightarrow> address_ge addr lo \<and> address_le addr hi
            | _ \<Rightarrow> False)
        then (QRVMC_ACCESS_WARM, h)
        else (if already_accessed then QRVMC_ACCESS_WARM else QRVMC_ACCESS_COLD, h))"

definition mocked_access_storage ::
    "qrvmc_address \<Rightarrow> qrvmc_bytes64 \<Rightarrow> mocked_host \<Rightarrow> qrvmc_access_status \<times> mocked_host" where
  "mocked_access_storage addr key h =
    (let s = storage_or_new addr key h
     in (sv_access_status s, update_storage addr key (s\<lparr>sv_access_status := QRVMC_ACCESS_WARM\<rparr>) h))"

text \<open>
  The copy constructor, for a new object with the identity \<open>host\<close>: each message that points to an
  input copy of the source is made to point to the new object's copy, which is at the same index.
  The search of the source compares the pointer with the address of each element.
\<close>

definition repoint_call ::
    "input_vector \<Rightarrow> input_vector \<Rightarrow> input_ptr qrvmc_message \<Rightarrow> input_ptr qrvmc_message" where
  "repoint_call theirs ours m =
    (if msg_input_data m = Null_ptr then m
     else case List.find (\<lambda>i. msg_input_data m = Input_copy (iv_buffer theirs) i)
         [0..<length (iv_elems theirs)] of
       Some i \<Rightarrow> m\<lparr>msg_input_data := Input_copy (iv_buffer ours) i\<rparr>
     | None \<Rightarrow> m)"

definition mocked_host_copy :: "nat \<Rightarrow> mocked_host \<Rightarrow> mocked_host" where
  "mocked_host_copy host other =
    (let theirs = mh_recorded_calls_inputs other;
         ours = iv_reserve max_recorded_calls
           \<lparr>iv_host = host, iv_generation = 0, iv_capacity = length (iv_elems theirs),
            iv_elems = iv_elems theirs\<rparr>
     in other\<lparr>mh_recorded_calls_inputs := ours,
              mh_recorded_calls := map (repoint_call theirs ours) (mh_recorded_calls other)\<rparr>)"

text \<open>
  Copy assignment makes a temporary copy and moves it into the object: the buffer of the inputs, which
  the pointers go to, is the one of the temporary.
\<close>

definition mocked_host_assign :: "nat \<Rightarrow> mocked_host \<Rightarrow> mocked_host \<Rightarrow> mocked_host" where
  "mocked_host_assign temporary this other = mocked_host_copy temporary other"

subsection \<open>Storage\<close>

text \<open>The table of the documentation (\<open>docs/QRVM_Storage_Change_Status.md\<close>), a row for each case.\<close>

definition storage_status_table ::
    "qrvmc_bytes64 \<Rightarrow> qrvmc_bytes64 \<Rightarrow> qrvmc_bytes64 \<Rightarrow> qrvmc_storage_status" where
  "storage_status_table og c v =
    (let z = bytes64_zero in
     if og = z \<and> c = z \<and> v \<noteq> z then QRVMC_STORAGE_ADDED
     else if og \<noteq> z \<and> c = og \<and> v = z then QRVMC_STORAGE_DELETED
     else if og \<noteq> z \<and> c = og \<and> v \<noteq> z \<and> v \<noteq> og then QRVMC_STORAGE_MODIFIED
     else if og \<noteq> z \<and> c = z \<and> v \<noteq> z \<and> v \<noteq> og then QRVMC_STORAGE_DELETED_ADDED
     else if og \<noteq> z \<and> c \<noteq> z \<and> c \<noteq> og \<and> v = z then QRVMC_STORAGE_MODIFIED_DELETED
     else if og \<noteq> z \<and> c = z \<and> v = og then QRVMC_STORAGE_DELETED_RESTORED
     else if og = z \<and> c \<noteq> z \<and> v = z then QRVMC_STORAGE_ADDED_DELETED
     else if og \<noteq> z \<and> c \<noteq> z \<and> c \<noteq> og \<and> v = og then QRVMC_STORAGE_MODIFIED_RESTORED
     else QRVMC_STORAGE_ASSIGNED)"

text \<open>The four checks the documentation recommends, and the statuses of their checksums.\<close>

definition storage_checksum :: "qrvmc_bytes64 \<Rightarrow> qrvmc_bytes64 \<Rightarrow> qrvmc_bytes64 \<Rightarrow> nat" where
  "storage_checksum og c v =
    8 * of_bool (og \<noteq> c) + 4 * of_bool (og = v) + 2 * of_bool (c \<noteq> bytes64_zero) +
    of_bool (v \<noteq> bytes64_zero)"

definition status_of_checksum :: "nat \<Rightarrow> qrvmc_storage_status option" where
  "status_of_checksum n =
    [None, Some QRVMC_STORAGE_ADDED, Some QRVMC_STORAGE_DELETED, Some QRVMC_STORAGE_MODIFIED,
     Some QRVMC_STORAGE_ASSIGNED, None, None, Some QRVMC_STORAGE_ASSIGNED,
     Some QRVMC_STORAGE_ASSIGNED, Some QRVMC_STORAGE_DELETED_ADDED,
     Some QRVMC_STORAGE_MODIFIED_DELETED, Some QRVMC_STORAGE_ASSIGNED, None,
     Some QRVMC_STORAGE_DELETED_RESTORED, Some QRVMC_STORAGE_ADDED_DELETED,
     Some QRVMC_STORAGE_MODIFIED_RESTORED] ! n"

lemmas clause_defs = RemoveClearsSchedule_def AddClearsSchedule_def RestoredBySet_def
  RestoredByReset_def status_of_clauses_def

lemma storage_status_table_eq: "storage_status og c v = Some (storage_status_table og c v)"
  by (auto simp: storage_status_def storage_status_table_def bytes64_key.eq_iff
      bytes64_is_zero_iff clause_defs Let_def)

lemma storage_status_checksum_eq: "storage_status og c v = status_of_checksum (storage_checksum og c v)"
  by (auto simp: storage_status_table_eq storage_status_table_def storage_checksum_def
      status_of_checksum_def Let_def)

text \<open>
  The gas cost beyond the access of a warm slot, less the refund, that the documentation gives to
  each status, in terms of the costs of the gas schedule.
\<close>

record storage_costs =
  G_warmaccess :: int
  G_sset :: int
  G_sreset :: int
  R_sclear :: int

fun net_cost :: "storage_costs \<Rightarrow> qrvmc_storage_status \<Rightarrow> int" where
  "net_cost g QRVMC_STORAGE_ASSIGNED = 0"
| "net_cost g QRVMC_STORAGE_ADDED = G_sset g - G_warmaccess g"
| "net_cost g QRVMC_STORAGE_DELETED = G_sreset g - G_warmaccess g - R_sclear g"
| "net_cost g QRVMC_STORAGE_MODIFIED = G_sreset g - G_warmaccess g"
| "net_cost g QRVMC_STORAGE_DELETED_ADDED = R_sclear g"
| "net_cost g QRVMC_STORAGE_MODIFIED_DELETED = - R_sclear g"
| "net_cost g QRVMC_STORAGE_DELETED_RESTORED = R_sclear g - (G_sreset g - G_warmaccess g)"
| "net_cost g QRVMC_STORAGE_ADDED_DELETED = - (G_sset g - G_warmaccess g)"
| "net_cost g QRVMC_STORAGE_MODIFIED_RESTORED = - (G_sreset g - G_warmaccess g)"

text \<open>What a slot with the original value \<open>og\<close> costs in total when it ends with the value \<open>v\<close>.\<close>

definition slot_cost :: "storage_costs \<Rightarrow> qrvmc_bytes64 \<Rightarrow> qrvmc_bytes64 \<Rightarrow> int" where
  "slot_cost g og v =
    (if v = og then 0
     else if og = bytes64_zero then G_sset g - G_warmaccess g
     else if v = bytes64_zero then G_sreset g - G_warmaccess g - R_sclear g
     else G_sreset g - G_warmaccess g)"

lemma net_cost_step:
  "net_cost g (storage_status_table og c v) = slot_cost g og v - slot_cost g og c"
  by (auto simp: storage_status_table_def slot_cost_def Let_def)

text \<open>Writing several values to one slot, with the statuses in order.\<close>

fun set_storage_all ::
    "qrvmc_address \<Rightarrow> qrvmc_bytes64 \<Rightarrow> qrvmc_bytes64 list \<Rightarrow> mocked_host \<Rightarrow>
      (qrvmc_storage_status list \<times> mocked_host) option" where
  "set_storage_all addr key [] h = Some ([], h)"
| "set_storage_all addr key (v # vs) h =
    (case mocked_set_storage addr key v h of
       None \<Rightarrow> None
     | Some (s, h') \<Rightarrow>
         (case set_storage_all addr key vs h' of
            None \<Rightarrow> None
          | Some (ss, h'') \<Rightarrow> Some (s # ss, h'')))"

lemma record_access_accounts [simp]: "mh_accounts (record_account_access a h) = mh_accounts h"
  by (simp add: record_account_access_def)

lemma account_or_new_record [simp]:
  "account_or_new addr (record_account_access a h) = account_or_new addr h"
  by (simp add: account_or_new_def)

lemma storage_or_new_record [simp]:
  "storage_or_new addr key (record_account_access a h) = storage_or_new addr key h"
  by (simp add: storage_or_new_def)

lemma storage_or_new_update [simp]:
  "storage_or_new addr key (update_storage addr' key' sv h) =
    (if addr = addr' \<and> key = key' then sv else storage_or_new addr key h)"
  by (auto simp: storage_or_new_def update_storage_def account_or_new_def Let_def)

lemma set_storage_eq:
  "mocked_set_storage addr key v h =
    (let s = storage_or_new addr key h in
     Some (storage_status_table (sv_original s) (sv_current s) v,
       update_storage addr key (s\<lparr>sv_current := v\<rparr>) (record_account_access addr h)))"
  by (simp add: mocked_set_storage_def storage_status_table_eq Let_def)

lemma get_storage_eq:
  "mocked_get_storage addr key h =
    (sv_current (storage_or_new addr key h), record_account_access addr h)"
  by (auto simp: mocked_get_storage_def storage_or_new_def account_or_new_def
      MockedAccount_default_def StorageValue_default_def Let_def split: option.splits)

lemma set_storage_all_net:
  assumes "set_storage_all addr key vs h = Some (ss, h')"
  shows "sum_list (map (net_cost g) ss) =
      slot_cost g (sv_original (storage_or_new addr key h)) (last (sv_current (storage_or_new addr key h) # vs)) -
      slot_cost g (sv_original (storage_or_new addr key h)) (sv_current (storage_or_new addr key h))"
  using assms
proof (induction vs arbitrary: h ss)
  case (Cons v vs)
  then show ?case
    by (auto simp: set_storage_eq Let_def net_cost_step split: option.splits)
qed simp

subsection \<open>Recorded calls\<close>

text \<open>What a recorded message says: the message with the input that its pointer leads to.\<close>

definition recorded_input :: "input_vector \<Rightarrow> input_ptr qrvmc_message \<Rightarrow> u8 list option" where
  "recorded_input v m =
    (case msg_input_data m of
       Null_ptr \<Rightarrow> Some []
     | Foreign_ptr n \<Rightarrow> None
     | Input_copy b i \<Rightarrow> iv_deref v b i)"

definition recorded_message ::
    "input_vector \<Rightarrow> input_ptr qrvmc_message \<Rightarrow> u8 list option qrvmc_message" where
  "recorded_message v m = with_input (recorded_input v m) (msg_input_size m) m"

definition readable_calls :: "mocked_host \<Rightarrow> u8 list option qrvmc_message list" where
  "readable_calls h = map (recorded_message (mh_recorded_calls_inputs h)) (mh_recorded_calls h)"

text \<open>The message a caller passed, with the input it made readable.\<close>

definition passed_input :: "view qrvmc_message \<Rightarrow> u8 list" where
  "passed_input m =
    (case msg_input_data m of None \<Rightarrow> [] | Some bs \<Rightarrow> take (msg_input_size m) bs)"

definition passed_message :: "view qrvmc_message \<Rightarrow> u8 list option qrvmc_message" where
  "passed_message m =
    (let n = (if msg_input_data m = None then 0 else msg_input_size m)
     in with_input (Some (passed_input m)) n m)"

text \<open>
  The host methods as operations, and \<open>recorded_calls.clear()\<close>, which users of the host may do.
\<close>

datatype host_op =
    Account_exists qrvmc_address
  | Get_storage qrvmc_address qrvmc_bytes64
  | Set_storage qrvmc_address qrvmc_bytes64 qrvmc_bytes64
  | Get_balance qrvmc_address
  | Get_code_size qrvmc_address
  | Get_code_hash qrvmc_address
  | Copy_code qrvmc_address nat view nat
  | Call "view qrvmc_message"
  | Get_block_hash int
  | Emit_log qrvmc_address view nat "qrvmc_bytes64 list option" nat
  | Access_account qrvmc_address
  | Access_storage qrvmc_address qrvmc_bytes64
  | Clear_recorded_calls

fun host_step :: "host_op \<Rightarrow> mocked_host \<times> heap \<Rightarrow> (mocked_host \<times> heap) option" where
  "host_step (Account_exists a) (h, hp) = Some (snd (mocked_account_exists a h), hp)"
| "host_step (Get_storage a k) (h, hp) = Some (snd (mocked_get_storage a k h), hp)"
| "host_step (Set_storage a k v) (h, hp) =
    map_option (\<lambda>(_, h'). (h', hp)) (mocked_set_storage a k v h)"
| "host_step (Get_balance a) (h, hp) = Some (snd (mocked_get_balance a h), hp)"
| "host_step (Get_code_size a) (h, hp) = Some (snd (mocked_get_code_size a h), hp)"
| "host_step (Get_code_hash a) (h, hp) = Some (snd (mocked_get_code_hash a h), hp)"
| "host_step (Copy_code a off buf n) (h, hp) =
    map_option (\<lambda>(_, _, h'). (h', hp)) (mocked_copy_code a off buf n h)"
| "host_step (Call m) (h, hp) = map_option snd (mocked_call m h hp)"
| "host_step (Get_block_hash n) (h, hp) = Some (snd (mocked_get_block_hash n h), hp)"
| "host_step (Emit_log a d n ts k) (h, hp) = map_option (\<lambda>h'. (h', hp)) (mocked_emit_log a d n ts k h)"
| "host_step (Access_account a) (h, hp) = Some (snd (mocked_access_account a h), hp)"
| "host_step (Access_storage a k) (h, hp) = Some (snd (mocked_access_storage a k h), hp)"
| "host_step Clear_recorded_calls (h, hp) = Some (h\<lparr>mh_recorded_calls := []\<rparr>, hp)"

fun host_run :: "host_op list \<Rightarrow> mocked_host \<times> heap \<Rightarrow> (mocked_host \<times> heap) option" where
  "host_run [] s = Some s"
| "host_run (op # ops) s = (case host_step op s of None \<Rightarrow> None | Some s' \<Rightarrow> host_run ops s')"

text \<open>The messages a host that started with the record \<open>ms\<close> should show after the operations.\<close>

fun expected_calls ::
    "host_op list \<Rightarrow> u8 list option qrvmc_message list \<Rightarrow> u8 list option qrvmc_message list" where
  "expected_calls [] ms = ms"
| "expected_calls (Call m # ops) ms = expected_calls ops (take max_recorded_calls (ms @ [passed_message m]))"
| "expected_calls (Clear_recorded_calls # ops) ms = expected_calls ops []"
| "expected_calls (_ # ops) ms = expected_calls ops ms"

text \<open>
  The record of calls is sound: there are at most as many as the limit, the input copies are no
  more than the calls, and while a call is recorded the vector has room for the limit, so it does
  not move again.
\<close>

definition canned_ok :: "mocked_host \<Rightarrow> bool" where
  "canned_ok h \<longleftrightarrow> view_covers (output_data (mh_call_result h)) (output_size (mh_call_result h))"

lemma canned_ok_simps [simp]:
  "canned_ok (record_account_access a h) = canned_ok h"
  "canned_ok (update_storage a k sv h) = canned_ok h"
  "canned_ok (mocked_host_new host)"
  by (simp_all add: canned_ok_def record_account_access_def update_storage_def mocked_host_new_def
      view_result_zero_def Let_def)

lemma record_call_canned: "record_call m h = Some h' \<Longrightarrow> mh_call_result h' = mh_call_result h"
  by (auto simp: record_call_def Let_def split: option.splits if_splits)

lemma record_call_returns:
  assumes "view_covers (msg_input_data m) (msg_input_size m)"
  obtains h' where "record_call m h = Some h'"
proof -
  have "record_call m h \<noteq> None"
    using assms by (cases "msg_input_data m") (simp_all add: record_call_def Let_def)
  then show ?thesis using that by blast
qed

definition calls_inv :: "mocked_host \<Rightarrow> bool" where
  "calls_inv h \<longleftrightarrow>
    length (mh_recorded_calls h) \<le> max_recorded_calls \<and>
    (mh_recorded_calls h \<noteq> [] \<longrightarrow>
      length (iv_elems (mh_recorded_calls_inputs h)) \<le> length (mh_recorded_calls h) \<and>
      max_recorded_calls \<le> iv_capacity (mh_recorded_calls_inputs h)) \<and>
    (\<forall>m \<in> set (mh_recorded_calls h). recorded_input (mh_recorded_calls_inputs h) m \<noteq> None)"

definition same_calls :: "mocked_host \<Rightarrow> mocked_host \<Rightarrow> bool" where
  "same_calls h h' \<longleftrightarrow>
    mh_recorded_calls h' = mh_recorded_calls h \<and>
    mh_recorded_calls_inputs h' = mh_recorded_calls_inputs h"

lemma same_calls_record [simp]: "same_calls h (record_account_access a h)"
  by (simp add: same_calls_def record_account_access_def)

lemma same_calls_update [simp]: "same_calls h (update_storage a k sv h') \<longleftrightarrow> same_calls h h'"
  by (simp add: same_calls_def update_storage_def Let_def)

lemma same_calls_readable: "same_calls h h' \<Longrightarrow> readable_calls h' = readable_calls h"
  by (simp add: same_calls_def readable_calls_def)

lemma same_calls_inv: "same_calls h h' \<Longrightarrow> calls_inv h' = calls_inv h"
  by (simp add: same_calls_def calls_inv_def)

lemma with_input_data [simp]:
  "msg_input_data (with_input p n m) = p" "msg_input_size (with_input p n m) = n"
  "with_input q k (with_input p n m) = with_input q k m"
  by (simp_all add: with_input_def)

lemma recorded_message_with_input [simp]:
  "recorded_message v (with_input p n m) =
    with_input (case p of Null_ptr \<Rightarrow> Some [] | Foreign_ptr k \<Rightarrow> None | Input_copy b i \<Rightarrow> iv_deref v b i) n m"
  by (simp add: recorded_message_def recorded_input_def)

lemma iv_emplace_room:
  assumes "length (iv_elems v) < iv_capacity v"
  shows "iv_emplace_back bs v = v\<lparr>iv_elems := iv_elems v @ [bs]\<rparr>"
  using assms by (simp add: iv_emplace_back_def Let_def)

lemma iv_deref_append:
  assumes "iv_deref v b i = Some bs"
  shows "iv_deref (v\<lparr>iv_elems := iv_elems v @ xs\<rparr>) b i = Some bs"
  using assms by (auto simp: iv_deref_def iv_buffer_def nth_append split: if_splits)

lemma recorded_input_append:
  assumes "recorded_input v m \<noteq> None"
  shows "recorded_input (v\<lparr>iv_elems := iv_elems v @ xs\<rparr>) m = recorded_input v m"
  using assms by (auto simp: recorded_input_def iv_deref_append split: input_ptr.splits)

lemma iv_deref_last:
  "iv_deref (v\<lparr>iv_elems := iv_elems v @ [bs]\<rparr>) (iv_buffer (v\<lparr>iv_elems := iv_elems v @ [bs]\<rparr>))
    (length (iv_elems v)) = Some bs"
  by (simp add: iv_deref_def)

text \<open>The first part of \<open>record_call\<close>: the vector is made ready when the record is empty.\<close>

definition ready_calls :: "mocked_host \<Rightarrow> mocked_host" where
  "ready_calls h =
    (if mh_recorded_calls h = []
     then h\<lparr>mh_recorded_calls_inputs :=
       iv_reserve max_recorded_calls (iv_clear (mh_recorded_calls_inputs h))\<rparr>
     else h)"

definition calls_ready :: "mocked_host \<Rightarrow> bool" where
  "calls_ready h \<longleftrightarrow>
    length (mh_recorded_calls h) \<le> max_recorded_calls \<and>
    length (iv_elems (mh_recorded_calls_inputs h)) \<le> length (mh_recorded_calls h) \<and>
    max_recorded_calls \<le> iv_capacity (mh_recorded_calls_inputs h) \<and>
    (\<forall>m \<in> set (mh_recorded_calls h). recorded_input (mh_recorded_calls_inputs h) m \<noteq> None)"

lemma ready_calls_ready:
  assumes "calls_inv h"
  shows "calls_ready (ready_calls h)" "readable_calls (ready_calls h) = readable_calls h"
    "mh_recorded_calls (ready_calls h) = mh_recorded_calls h"
  using assms
  by (auto simp: calls_inv_def calls_ready_def ready_calls_def iv_clear_def iv_reserve_def
      readable_calls_def)

lemma calls_ready_inv: "calls_ready h \<Longrightarrow> calls_inv h"
  by (simp add: calls_ready_def calls_inv_def)

lemma add_call_null:
  assumes "calls_ready h" "length (mh_recorded_calls h) < max_recorded_calls"
    "h' = h\<lparr>mh_recorded_calls := mh_recorded_calls h @ [with_input Null_ptr 0 m]\<rparr>"
  shows "calls_ready h'" "readable_calls h' = readable_calls h @ [with_input (Some []) 0 m]"
  using assms
  by (auto simp: calls_ready_def readable_calls_def recorded_input_def)

lemma add_call_copy:
  assumes ready: "calls_ready h" and room: "length (mh_recorded_calls h) < max_recorded_calls"
    and v: "v = iv_emplace_back bs (mh_recorded_calls_inputs h)"
    and h': "h' = h\<lparr>mh_recorded_calls_inputs := v, mh_recorded_calls := mh_recorded_calls h @
      [with_input (Input_copy (iv_buffer v) (length (iv_elems v) - 1)) n m]\<rparr>"
  shows "calls_ready h'" "readable_calls h' = readable_calls h @ [with_input (Some bs) n m]"
proof -
  let ?u = "mh_recorded_calls_inputs h"
  have v': "v = ?u\<lparr>iv_elems := iv_elems ?u @ [bs]\<rparr>"
    using ready room by (simp add: v calls_ready_def iv_emplace_room)
  have new: "iv_deref v (iv_buffer v) (length (iv_elems v) - 1) = Some bs"
    using iv_deref_last [of ?u bs] by (simp add: v')
  have old: "recorded_input v x = recorded_input ?u x" if "x \<in> set (mh_recorded_calls h)" for x
    using that ready by (simp add: v' calls_ready_def recorded_input_append)
  have "recorded_input v (with_input (Input_copy (iv_buffer v) (length (iv_elems v) - 1)) n m) = Some bs"
    using new by (simp add: recorded_input_def)
  then show "calls_ready h'"
    using ready room old unfolding calls_ready_def h' by (auto simp: v')
  have "map (recorded_message v) (mh_recorded_calls h) =
      map (recorded_message ?u) (mh_recorded_calls h)"
    using old by (simp add: recorded_message_def)
  then show "readable_calls h' = readable_calls h @ [with_input (Some bs) n m]"
    using new by (simp add: readable_calls_def h')
qed

lemma record_call_ready:
  "record_call m h =
    (let h = ready_calls h in
     if length (mh_recorded_calls h) < max_recorded_calls then
       (case msg_input_data m of
          None \<Rightarrow> Some (h\<lparr>mh_recorded_calls := mh_recorded_calls h @ [with_input Null_ptr 0 m]\<rparr>)
        | Some input \<Rightarrow>
            if msg_input_size m = 0
            then Some (h\<lparr>mh_recorded_calls := mh_recorded_calls h @ [with_input Null_ptr 0 m]\<rparr>)
            else if msg_input_size m \<le> length input then
              let inputs = iv_emplace_back (take (msg_input_size m) input) (mh_recorded_calls_inputs h);
                  ptr = Input_copy (iv_buffer inputs) (length (iv_elems inputs) - 1)
              in Some (h\<lparr>mh_recorded_calls_inputs := inputs,
                   mh_recorded_calls := mh_recorded_calls h @ [with_input ptr (msg_input_size m) m]\<rparr>)
            else None)
     else Some h)"
  by (simp add: record_call_def ready_calls_def)

lemma length_readable [simp]: "length (readable_calls h) = length (mh_recorded_calls h)"
  by (simp add: readable_calls_def)

lemma record_call_inv:
  assumes "calls_inv h" "view_covers (msg_input_data m) (msg_input_size m)"
  shows "\<exists>h'. record_call m h = Some h' \<and> calls_inv h' \<and>
    readable_calls h' = take max_recorded_calls (readable_calls h @ [passed_message m])"
proof -
  let ?h = "ready_calls h"
  have ready: "calls_ready ?h" and same: "readable_calls ?h = readable_calls h"
    using ready_calls_ready [OF assms(1)] by simp_all
  show ?thesis
  proof (cases "length (mh_recorded_calls ?h) < max_recorded_calls")
    case False
    then show ?thesis
      using ready same calls_ready_inv [OF ready]
      by (simp add: record_call_ready Let_def calls_ready_def flip: same)
  next
    case True
    then have all: "take max_recorded_calls (readable_calls h @ [x]) = readable_calls h @ [x]" for x
      by (simp flip: same)
    consider (none) "msg_input_data m = None \<or> msg_input_size m = 0"
      | (some) bs where "msg_input_data m = Some bs" "msg_input_size m \<noteq> 0" "msg_input_size m \<le> length bs"
      using assms(2) by (cases "msg_input_data m") auto
    then show ?thesis
    proof cases
      case none
      then have "passed_message m = with_input (Some []) 0 m"
        by (auto simp: passed_message_def passed_input_def split: option.splits)
      moreover have "record_call m h =
          Some (?h\<lparr>mh_recorded_calls := mh_recorded_calls ?h @ [with_input Null_ptr 0 m]\<rparr>)"
        using none True by (auto simp: record_call_ready Let_def split: option.splits)
      ultimately show ?thesis
        using add_call_null [OF ready True refl, of m] all same calls_ready_inv by simp
    next
      case some
      then have msg: "passed_message m = with_input (Some (take (msg_input_size m) bs)) (msg_input_size m) m"
        by (simp add: passed_message_def passed_input_def Let_def)
      note new = add_call_copy [OF ready True refl refl, of "take (msg_input_size m) bs" "msg_input_size m" m]
      show ?thesis
        unfolding msg all using new calls_ready_inv [OF new(1)] some True same
        by (simp add: record_call_ready Let_def del: One_nat_def)
    qed
  qed
qed

text \<open>The other methods leave the record of calls alone.\<close>

lemma same_calls_refl [simp]: "same_calls h h"
  by (simp add: same_calls_def)

lemma account_lookup_snd:
  "snd (case x of None \<Rightarrow> (a, h) | Some y \<Rightarrow> (f y, h)) = h"
  by (cases x) simp_all

lemma host_step_calls:
  assumes "host_step op (h, hp) = Some (h', hp')" "\<And>m. op \<noteq> Call m" "op \<noteq> Clear_recorded_calls"
  shows "same_calls h h'"
  using assms
  by (cases op)
    (auto simp: mocked_account_exists_def get_storage_eq set_storage_eq mocked_get_balance_def
      mocked_get_code_size_def mocked_get_code_hash_def mocked_copy_code_def
      mocked_get_block_hash_def mocked_emit_log_def mocked_access_account_def
      mocked_access_storage_def Let_def same_calls_def account_lookup_snd
      record_account_access_def update_storage_def split: option.splits if_splits prod.splits)

lemma host_step_canned: "host_step op (h, hp) = Some (h', hp') \<Longrightarrow> canned_ok h' = canned_ok h"
  by (cases op)
    (auto simp: mocked_account_exists_def get_storage_eq set_storage_eq mocked_get_balance_def
      mocked_get_code_size_def mocked_get_code_hash_def mocked_copy_code_def mocked_call_def
      mocked_get_block_hash_def mocked_emit_log_def mocked_access_account_def
      mocked_access_storage_def Let_def canned_ok_def account_lookup_snd
      record_account_access_def update_storage_def dest: record_call_canned
      split: option.splits if_splits prod.splits)

text \<open>
  No operation fails when the memory that it is given is as large as it says, and a log has the data
  and topics that it promises; and after any operations the readable calls are the passed messages,
  up to the limit.
\<close>

fun host_op_ok :: "host_op \<Rightarrow> bool" where
  "host_op_ok (Emit_log a d n ts k) \<longleftrightarrow>
    n \<le> length (case d of None \<Rightarrow> [] | Some bs \<Rightarrow> bs) \<and> k \<le> length (case ts of None \<Rightarrow> [] | Some xs \<Rightarrow> xs)"
| "host_op_ok (Copy_code a off buf n) \<longleftrightarrow> view_covers buf n"
| "host_op_ok (Call m) \<longleftrightarrow> view_covers (msg_input_data m) (msg_input_size m)"
| "host_op_ok _ \<longleftrightarrow> True"

lemma mocked_call_recorded:
  assumes "calls_inv h" "canned_ok h" "view_covers (msg_input_data m) (msg_input_size m)"
  shows "\<exists>r h' hp'. mocked_call m h hp = Some (r, h', hp') \<and> calls_inv h' \<and>
    readable_calls h' = take max_recorded_calls (readable_calls h @ [passed_message m])"
proof -
  let ?h = "record_account_access (msg_recipient m) h"
  have h: "calls_inv ?h" "readable_calls ?h = readable_calls h"
    using assms(1) same_calls_inv [OF same_calls_record] same_calls_readable [OF same_calls_record] by blast+
  obtain h' where h': "record_call m ?h = Some h'" "calls_inv h'"
      "readable_calls h' = take max_recorded_calls (readable_calls h @ [passed_message m])"
    using record_call_inv [OF h(1) assms(3)] h(2) by auto
  have "view_covers (output_data (mh_call_result h')) (output_size (mh_call_result h'))"
    using record_call_canned [OF h'(1)] assms(2) canned_ok_simps(1) [of "msg_recipient m" h]
    by (simp add: canned_ok_def)
  then obtain r hp' where "qrvmc_make_result (status_code (mh_call_result h')) (gas_left (mh_call_result h'))
      (gas_refund (mh_call_result h')) (output_data (mh_call_result h')) (output_size (mh_call_result h')) hp =
        Some (r, hp')"
    by (rule make_result_returns)
  then show ?thesis
    using h' by (simp add: mocked_call_def Let_def)
qed

lemma host_step_returns:
  assumes "host_op_ok op" "calls_inv h" "canned_ok h"
  shows "\<exists>h' hp'. host_step op (h, hp) = Some (h', hp')"
proof (cases op)
  case (Copy_code a off buf n)
  then show ?thesis
    using assms(1) by (auto simp: mocked_copy_code_def Let_def min_def split: option.splits)
next
  case (Call m)
  then show ?thesis
    using mocked_call_recorded [OF assms(2,3), of m hp] assms(1) by auto
qed (use assms(1) in \<open>auto simp: set_storage_eq mocked_emit_log_def Let_def split: option.splits\<close>)

lemma host_run_calls:
  assumes "calls_inv h" "canned_ok h" "list_all host_op_ok ops"
  shows "\<exists>h' hp'. host_run ops (h, hp) = Some (h', hp') \<and> calls_inv h' \<and> canned_ok h' \<and>
    readable_calls h' = expected_calls ops (readable_calls h)"
  using assms
proof (induction ops arbitrary: h hp)
  case (Cons op ops)
  obtain h' hp' where step: "host_step op (h, hp) = Some (h', hp')"
    using host_step_returns [of op h hp] Cons.prems by auto
  have "calls_inv h' \<and> expected_calls (op # ops) (readable_calls h) = expected_calls ops (readable_calls h')"
  proof (cases "\<exists>m. op = Call m \<or> op = Clear_recorded_calls")
    case True
    then obtain m where "op = Call m \<or> op = Clear_recorded_calls" by blast
    then show ?thesis
    proof
      assume op: "op = Call m"
      then show ?thesis
        using mocked_call_recorded [OF Cons.prems(1,2), of m hp] Cons.prems(3) step by auto
    next
      assume op: "op = Clear_recorded_calls"
      then show ?thesis
        using step by (auto simp: calls_inv_def readable_calls_def)
    qed
  next
    case False
    then have "same_calls h h'"
      using host_step_calls [OF step] by blast
    moreover have "expected_calls (op # ops) ms = expected_calls ops ms" for ms
      using False by (cases op) auto
    ultimately show ?thesis
      using Cons.prems(1) by (simp add: same_calls_inv same_calls_readable)
  qed
  then show ?case
    using Cons.IH [of h' hp'] Cons.prems(2,3) step host_step_canned [OF step] by simp
qed simp

lemma calls_inv_new [simp]: "calls_inv (mocked_host_new k)" "readable_calls (mocked_host_new k) = []"
  by (simp_all add: calls_inv_def mocked_host_new_def readable_calls_def)

subsection \<open>Copying\<close>

lemma find_upt: "List.find (\<lambda>i. i = k \<and> P) [0..<n] = (if k < n \<and> P then Some k else None)"
proof (cases "k < n \<and> P")
  case True
  then have "List.find (\<lambda>i. i = k \<and> P) [0..<n] = Some k"
    unfolding find_Some_iff by (intro exI [of _ k]) simp
  then show ?thesis using True by simp
next
  case False
  then show ?thesis by (auto simp: find_None_iff)
qed

lemma repoint_copy:
  "msg_input_data m = Input_copy b i \<Longrightarrow> repoint_call theirs ours m =
    (if b = iv_buffer theirs \<and> i < length (iv_elems theirs)
     then m\<lparr>msg_input_data := Input_copy (iv_buffer ours) i\<rparr> else m)"
proof -
  assume m: "msg_input_data m = Input_copy b i"
  have "(\<lambda>j. msg_input_data m = Input_copy (iv_buffer theirs) j) = (\<lambda>j. j = i \<and> b = iv_buffer theirs)"
    by (auto simp: m)
  then show ?thesis by (simp add: repoint_call_def m find_upt)
qed

definition copied_inputs :: "nat \<Rightarrow> input_vector \<Rightarrow> input_vector" where
  "copied_inputs host theirs = iv_reserve max_recorded_calls
    \<lparr>iv_host = host, iv_generation = 0, iv_capacity = length (iv_elems theirs),
     iv_elems = iv_elems theirs\<rparr>"

lemma copied_inputs_simps [simp]:
  "iv_elems (copied_inputs host v) = iv_elems v"
  "max_recorded_calls \<le> iv_capacity (copied_inputs host v)"
  "fst (iv_buffer (copied_inputs host v)) = host"
  by (simp_all add: copied_inputs_def iv_reserve_def iv_buffer_def)

lemma mocked_host_copy_eq:
  "mocked_host_copy host other =
    other\<lparr>mh_recorded_calls_inputs := copied_inputs host (mh_recorded_calls_inputs other),
      mh_recorded_calls := map (repoint_call (mh_recorded_calls_inputs other)
        (copied_inputs host (mh_recorded_calls_inputs other))) (mh_recorded_calls other)\<rparr>"
  by (simp add: mocked_host_copy_def copied_inputs_def Let_def)

lemma repoint_readable:
  assumes "recorded_input v m \<noteq> None"
  shows "recorded_input (copied_inputs host v) (repoint_call v (copied_inputs host v) m) =
    recorded_input v m"
proof (cases "msg_input_data m")
  case (Input_copy b i)
  then show ?thesis
    using assms by (simp add: recorded_input_def repoint_copy iv_deref_def split: if_splits)
qed (use assms in \<open>simp_all add: recorded_input_def repoint_call_def\<close>)

lemma repoint_own:
  assumes "recorded_input v m \<noteq> None"
    and "msg_input_data (repoint_call v (copied_inputs host v) m) = Input_copy b i"
  shows "fst b = host"
proof (cases "msg_input_data m")
  case (Input_copy c j)
  then show ?thesis
    using assms copied_inputs_simps(3) [of host v]
    by (auto simp: recorded_input_def repoint_copy iv_deref_def split: if_splits)
qed (use assms in \<open>simp_all add: recorded_input_def repoint_call_def\<close>)

lemma repoint_message:
  assumes "recorded_input v m \<noteq> None"
  shows "recorded_message (copied_inputs host v) (repoint_call v (copied_inputs host v) m) =
    recorded_message v m"
proof -
  have "with_input p n (repoint_call v w m) = with_input p n m"
    "msg_input_size (repoint_call v w m) = msg_input_size m" for p :: "u8 list option" and n w
    by (auto simp: repoint_call_def with_input_def split: option.splits)
  then show ?thesis
    using repoint_readable [OF assms] by (simp add: recorded_message_def)
qed

lemma mocked_host_copy_calls:
  assumes "calls_inv h"
  shows "calls_inv (mocked_host_copy host h)"
    and "readable_calls (mocked_host_copy host h) = readable_calls h"
  using assms repoint_readable [where v = "mh_recorded_calls_inputs h" and host = host]
    repoint_message [where v = "mh_recorded_calls_inputs h" and host = host]
  unfolding calls_inv_def mocked_host_copy_eq readable_calls_def by auto

subsection \<open>Accesses\<close>

text \<open>The bounds of the precompiled contracts are the addresses 1 and 9.\<close>

lemma precompile_literals:
  "first_precompile = Some (address_of_u64 1)" "last_precompile = Some (address_of_u64 9)"
proof -
  have bytes: "address_of_u64 v = address_of_bytes (replicate 56 0 @ u64_be_bytes v)" for v
    by (simp flip: address_bytes_inject
        add: address_of_u64.rep_eq address_of_bytes.rep_eq u64_be_bytes_def)
  have zeros: "replicate 56 (0 :: u8) = replicate 16 0 @ replicate 40 0"
    by (simp flip: replicate_add)
  have "replicate 40 (0 :: u8) =
      [0, 0, 0, 0, 0, 0, 0, 0, 0, 0, 0, 0, 0, 0, 0, 0, 0, 0, 0, 0,
       0, 0, 0, 0, 0, 0, 0, 0, 0, 0, 0, 0, 0, 0, 0, 0, 0, 0, 0, 0]"
    by (simp add: numeral_eq_Suc)
  note zeros = zeros [unfolded this]
  show "first_precompile = Some (address_of_u64 1)"
    by (simp add: first_precompile_def address_literal_def from_prefixed_hex_T_def rejects_0x_def
        decode_into_eq from_hex_digit_chars bytes u64_be_bytes_def zeros)
  show "last_precompile = Some (address_of_u64 9)"
    by (simp add: last_precompile_def address_literal_def from_prefixed_hex_T_def rejects_0x_def
        decode_into_eq from_hex_digit_chars bytes u64_be_bytes_def zeros)
qed

lemma access_account_eq:
  "mocked_access_account addr h =
    (if 1 \<le> be_val (address_bytes addr) \<and> be_val (address_bytes addr) \<le> 9 \<or>
        addr \<in> set (mh_recorded_account_accesses h)
     then QRVMC_ACCESS_WARM else QRVMC_ACCESS_COLD, record_account_access addr h)"
proof -
  have "list_ex (\<lambda>a. address_eq a addr) xs \<longleftrightarrow> addr \<in> set xs" for xs
    by (auto simp: address_key.eq_iff list_ex_iff)
  moreover have "address_ge addr (address_of_u64 1) \<longleftrightarrow> 1 \<le> be_val (address_bytes addr)"
    "address_le addr (address_of_u64 9) \<longleftrightarrow> be_val (address_bytes addr) \<le> 9"
    by (auto simp: address_ge_def address_le_def address_key.lt_iff be_simps)
  ultimately show ?thesis
    by (simp add: mocked_access_account_def precompile_literals Let_def)
qed

subsection \<open>The host as a provider of the interface\<close>

definition mocked_methods :: "mocked_host host_methods" where
  "mocked_methods =
    \<lparr>hi_account_exists = \<lambda>a h. Some (mocked_account_exists a h),
     hi_get_storage = \<lambda>a k h. Some (mocked_get_storage a k h),
     hi_set_storage = mocked_set_storage,
     hi_get_balance = \<lambda>a h. Some (mocked_get_balance a h),
     hi_get_code_size = \<lambda>a h. Some (mocked_get_code_size a h),
     hi_get_code_hash = \<lambda>a h. Some (mocked_get_code_hash a h),
     hi_copy_code = mocked_copy_code,
     hi_call = mocked_call,
     hi_get_tx_context = \<lambda>h. Some (mocked_get_tx_context h, h),
     hi_get_block_hash = \<lambda>n h. Some (mocked_get_block_hash n h),
     hi_emit_log = mocked_emit_log,
     hi_access_account = \<lambda>a h. Some (mocked_access_account a h),
     hi_access_storage = \<lambda>a k h. Some (mocked_access_storage a k h)\<rparr>"

interpretation mocked_storage: storage_host mocked_methods "\<lambda>_. True"
  by unfold_locales
    (auto simp: mocked_methods_def get_storage_eq set_storage_eq Let_def)

interpretation adapted_storage:
  storage_host "HostContext (Host_get_interface mocked_methods)" "\<lambda>_. True"
  using mocked_storage.storage_host_axioms by (simp add: storage_host_def)

subsection \<open>Facts for the properties\<close>

lemma set_storage_all_returns: "\<exists>ss h'. set_storage_all addr key vs h = Some (ss, h')"
proof (induction vs arbitrary: h)
  case (Cons v vs)
  obtain s h' where "mocked_set_storage addr key v h = Some (s, h')"
    by (simp add: set_storage_eq Let_def)
  moreover obtain ss h'' where "set_storage_all addr key vs h' = Some (ss, h'')"
    using Cons.IH by blast
  ultimately show ?case by simp
qed simp

lemma expected_calls_append: "expected_calls (ops @ ops') ms = expected_calls ops' (expected_calls ops ms)"
  by (induction ops ms rule: expected_calls.induct) simp_all

lemma set_balance_loop_eq:
  "set_balance_loop x 0 (replicate 56 0 @ [a, b, c, d, e, f, g, i]) = replicate 56 0 @ u64_be_bytes x"
  by (simp add: set_balance_loop.simps u64_be_bytes_def list_update_append)

lemma record_access_take:
  "length (mh_recorded_account_accesses h) \<le> 200 \<Longrightarrow>
    mh_recorded_account_accesses (record_account_access a h) =
      take 200 (mh_recorded_account_accesses h @ [a])"
  by (auto simp: record_account_access_def max_recorded_account_accesses_def)

subsection \<open>Properties\<close>

text \<open>C32: The storage status that the clause-by-clause code of \<open>set_storage\<close> computes is the one of the
documented table of original, current and new value, and also the one that the documented
shortcut, a lookup by four checks, gives; no assertion of the code fails and no combination of
clauses that it calls impossible occurs.\<close>

theorem storage_status_documented:
  "storage_status og c v = Some (storage_status_table og c v) \<and>
   storage_status og c v = status_of_checksum (storage_checksum og c v)"
  using storage_status_table_eq storage_status_checksum_eq by blast

text \<open>C33: Net gas metering: for every gas schedule, the costs and refunds of the statuses that a
sequence of writes to one slot reports add up to an amount that depends only on the original value
of the slot and its values before and after, not on the writes in between.\<close>

theorem storage_net_gas:
  "\<exists>ss h'. set_storage_all addr key vs h = Some (ss, h') \<and>
    sum_list (map (net_cost g) ss) =
      slot_cost g (sv_original (storage_or_new addr key h))
        (last (sv_current (storage_or_new addr key h) # vs)) -
      slot_cost g (sv_original (storage_or_new addr key h))
        (sv_current (storage_or_new addr key h))"
  using set_storage_all_returns [where addr = addr and key = key and vs = vs and h = h]
    set_storage_all_net [where addr = addr and key = key and vs = vs and h = h and g = g]
  by blast

text \<open>C34: Reached through both adapters, the mocked host is a storage: after any sequence of reads
and writes, all of which return, a slot holds the value last written to it, and a slot not written
keeps its value.\<close>

theorem storage_reads_last_write:
  "\<exists>h'. run_storage (HostContext (Host_get_interface mocked_methods)) ops h = Some h' \<and>
    fst (mocked_get_storage a k h') = last_written a k ops (fst (mocked_get_storage a k h))"
  using adapted_storage.reads_last_written
    [where h = h and a = a and k = k and v = "fst (mocked_get_storage a k h)" and ops = ops]
  by (simp add: mocked_methods_def)

text \<open>C30: The record of calls is complete, readable and bounded: whatever methods are called on a new
host, with memory as large as they are told, no method fails, and the recorded messages, followed through their pointers into the vector
of input copies, are the messages of the first 100 calls since the record was last cleared, with
their inputs; so no input pointer dangles.\<close>

theorem recorded_calls_readable:
  assumes "list_all host_op_ok ops"
  shows "\<exists>h hp'. host_run ops (mocked_host_new k, hp) = Some (h, hp') \<and>
    readable_calls h = expected_calls ops []"
  using host_run_calls [OF calls_inv_new(1) canned_ok_simps(3) assms, of k hp] by auto

theorem recorded_calls_readable_witness:
  "\<exists>h hp'. host_run [Call ((message_zero (Some [1, 2, 3]))\<lparr>msg_input_size := 3\<rparr>),
      Access_account (address_of_u64 5), Emit_log address_zero None 0 None 0,
      Call (message_zero None)] (mocked_host_new 0, heap_empty) = Some (h, hp') \<and>
    readable_calls h = expected_calls [Call ((message_zero (Some [1, 2, 3]))\<lparr>msg_input_size := 3\<rparr>),
      Access_account (address_of_u64 5), Emit_log address_zero None 0 None 0,
      Call (message_zero None)] []"
  by (rule recorded_calls_readable) (simp add: message_zero_def)

text \<open>C31: A copy of a mocked host does not depend on its source: every input pointer of the copy
leads into the copy's own vector, the recorded messages read the same, and the copy keeps
recording soundly, whatever is done with it, as if it had done all the calls itself.\<close>

theorem host_copy_independent:
  assumes "list_all host_op_ok ops" "list_all host_op_ok ops'"
    and "host_run ops (mocked_host_new k, hp) = Some (h, hp1)"
  shows "(\<forall>m \<in> set (mh_recorded_calls (mocked_host_copy j h)). \<forall>b i.
      msg_input_data m = Input_copy b i \<longrightarrow> fst b = j) \<and>
    (\<exists>h' hp'. host_run ops' (mocked_host_copy j h, hp1) = Some (h', hp') \<and>
      readable_calls h' = expected_calls (ops @ ops') [])"
proof
  have inv: "calls_inv h" "readable_calls h = expected_calls ops []" "canned_ok h"
    using host_run_calls [OF calls_inv_new(1) canned_ok_simps(3) assms(1), of k hp] assms(3)
    by simp_all
  then have "canned_ok (mocked_host_copy j h)"
    by (simp add: canned_ok_def mocked_host_copy_eq)
  note copy = mocked_host_copy_calls(1) [OF inv(1)] this
  show "\<exists>h' hp'. host_run ops' (mocked_host_copy j h, hp1) = Some (h', hp') \<and>
      readable_calls h' = expected_calls (ops @ ops') []"
    using host_run_calls [OF copy assms(2), of hp1] inv
    by (auto simp: mocked_host_copy_calls expected_calls_append)
  show "\<forall>m \<in> set (mh_recorded_calls (mocked_host_copy j h)). \<forall>b i.
      msg_input_data m = Input_copy b i \<longrightarrow> fst b = j"
    using repoint_own inv(1) unfolding mocked_host_copy_eq calls_inv_def by fastforce
qed

theorem host_copy_independent_witness:
  "let ops = [Call ((message_zero (Some [1, 2, 3]))\<lparr>msg_input_size := 3\<rparr>)];
       h = fst (the (host_run ops (mocked_host_new 0, heap_empty)));
       hp1 = snd (the (host_run ops (mocked_host_new 0, heap_empty)))
   in (\<forall>m \<in> set (mh_recorded_calls (mocked_host_copy 1 h)). \<forall>b i.
        msg_input_data m = Input_copy b i \<longrightarrow> fst b = 1) \<and>
      (\<exists>h' hp'. host_run ops (mocked_host_copy 1 h, hp1) = Some (h', hp') \<and>
        readable_calls h' = expected_calls (ops @ ops) [])"
proof -
  let ?ops = "[Call ((message_zero (Some [1, 2, 3]))\<lparr>msg_input_size := 3\<rparr>)]"
  have ok: "list_all host_op_ok ?ops" by (simp add: message_zero_def)
  obtain h hp1 where run: "host_run ?ops (mocked_host_new 0, heap_empty) = Some (h, hp1)"
    using host_run_calls [OF calls_inv_new(1) canned_ok_simps(3) ok, of 0 heap_empty] by blast
  show ?thesis
    unfolding Let_def run option.sel fst_conv snd_conv by (rule host_copy_independent [OF ok ok run])
qed

text \<open>A call is answered with the canned result: with its status, gas, optional storage and, in
a block of its own that the result releases, its output. The heap keeps all other blocks.\<close>

theorem call_answers_canned_result:
  assumes "heap_ok hp" "\<not> heap_fails hp (heap_next hp)"
    and "output_data (mh_call_result h) = Some bs" "output_size (mh_call_result h) = length bs"
    and "length (padding (mh_call_result h)) = 4" "bs \<noteq> []"
    and "mocked_call msg h hp = Some (r, h', hp')"
  shows "status_code r = status_code (mh_call_result h) \<and>
    gas_left r = gas_left (mh_call_result h) \<and> gas_refund r = gas_refund (mh_call_result h) \<and>
    optional_storage r = optional_storage (mh_call_result h) \<and>
    heap_read (output_data r) hp' = Some bs \<and> output_size r = length bs \<and>
    (\<forall>p. heap_read (Some p) hp \<noteq> None \<longrightarrow> heap_read (Some p) hp' = heap_read (Some p) hp) \<and>
    map_option heap_blocks (qrvmc_release_result other r hp') = Some (heap_blocks hp)"
proof -
  have cr: "mh_call_result h'' = mh_call_result h"
    if "record_call msg (record_account_access a h) = Some h''" for a h''
    using record_call_canned [OF that] by (simp add: record_account_access_def)
  have fresh: "heap_blocks hp (heap_next hp) = None"
    using assms(1) by (rule heap_ok_fresh)
  obtain h'' where "record_call msg (record_account_access (msg_recipient msg) h) = Some h''"
    using assms(7) by (auto simp: mocked_call_def Let_def split: option.splits)
  note rec = this cr [OF this]
  have "r = result_zero\<lparr>status_code := status_code (mh_call_result h),
      gas_left := gas_left (mh_call_result h), gas_refund := gas_refund (mh_call_result h),
      output_data := Some (heap_next hp), output_size := length bs,
      release := Some Qrvmc_free_result_memory,
      create_address := create_address (mh_call_result h), padding := padding (mh_call_result h)\<rparr>"
    "hp' = hp\<lparr>heap_blocks := (heap_blocks hp)(heap_next hp \<mapsto> bs), heap_next := Suc (heap_next hp)\<rparr>"
    using assms(2-7)
    by (auto simp: mocked_call_def Let_def rec qrvmc_make_result_def malloc_def heap_write_def
        set_optional_storage_copy result_zero_def)
  then show ?thesis
    using fresh
    by (auto simp: optional_storage_def heap_read_def qrvmc_release_result_def call_release_def
        qrvmc_free_result_memory_def heap_free_def fun_upd_idem)
qed

theorem call_answers_canned_result_witness:
  "case mocked_call (message_zero None) ((mocked_host_new 0)\<lparr>mh_call_result :=
      view_result_zero\<lparr>status_code := QRVMC_REVERT, output_data := Some [7, 8], output_size := 2\<rparr>\<rparr>)
      heap_empty of
    None \<Rightarrow> False
  | Some (r, h', hp') \<Rightarrow> status_code r = QRVMC_REVERT \<and> heap_read (output_data r) hp' = Some [7, 8] \<and>
      map_option heap_blocks (qrvmc_release_result (\<lambda>_ _ _. None) r hp') = Some (heap_blocks heap_empty)"
    (is "case ?call of None \<Rightarrow> False | Some (r, h', hp') \<Rightarrow> ?P r h' hp'")
proof -
  obtain r h' hp' where call: "?call = Some (r, h', hp')"
    using mocked_call_recorded [of "(mocked_host_new 0)\<lparr>mh_call_result :=
        view_result_zero\<lparr>status_code := QRVMC_REVERT, output_data := Some [7, 8], output_size := 2\<rparr>\<rparr>"
        "message_zero None" heap_empty]
    by (auto simp: calls_inv_def canned_ok_def mocked_host_new_def message_zero_def)
  then have "?P r h' hp'"
    using call_answers_canned_result [OF _ _ _ _ _ _ call, of "[7, 8]" "\<lambda>_ _ _. None"]
    by (simp add: heap_empty_def heap_ok_def view_result_zero_def)
  then show ?thesis by (simp add: call)
qed

text \<open>\<open>copy_code\<close> copies as much of the code from the offset on as there is and fits, overwrites
that many bytes at the start of the buffer and no others, and returns their number.\<close>

theorem copy_code_copies:
  assumes "mh_accounts h addr = Some acc" "buffer_size \<le> length buf"
  shows "mocked_copy_code addr code_offset (Some buf) buffer_size h =
    Some (min buffer_size (length (acc_code acc) - code_offset),
      Some (take buffer_size (drop code_offset (acc_code acc)) @
        drop (min buffer_size (length (acc_code acc) - code_offset)) buf),
      record_account_access addr h)"
  using assms by (auto simp: mocked_copy_code_def Let_def blit_def min_def)

theorem copy_code_copies_witness:
  "map_option (\<lambda>(n, buf, _). (n, buf)) (mocked_copy_code address_zero 1 (Some [9, 9, 9, 9, 9]) 3
    ((mocked_host_new 0)\<lparr>mh_accounts := [address_zero \<mapsto> MockedAccount_default\<lparr>acc_code := [1, 2, 3]\<rparr>]\<rparr>)) =
    Some (2, Some [2, 3, 9, 9, 9])"
  using copy_code_copies [of "(mocked_host_new 0)\<lparr>mh_accounts :=
      [address_zero \<mapsto> MockedAccount_default\<lparr>acc_code := [1, 2, 3]\<rparr>]\<rparr>" address_zero
      "MockedAccount_default\<lparr>acc_code := [1, 2, 3]\<rparr>" 3 "[9, 9, 9, 9, 9]" 1]
  by simp

text \<open>An account is reported warm when it is one of the nine precompiled contracts or in the record
of accesses, and the access is added to the record as long as the record has less than 200
entries.\<close>

theorem access_account_warm:
  assumes "length (mh_recorded_account_accesses h) \<le> 200"
  shows "(fst (mocked_access_account a h) = QRVMC_ACCESS_WARM \<longleftrightarrow>
      be_val (address_bytes a) \<in> {1..9} \<or> a \<in> set (mh_recorded_account_accesses h)) \<and>
    mh_recorded_account_accesses (snd (mocked_access_account a h)) =
      take 200 (mh_recorded_account_accesses h @ [a])"
  using assms by (auto simp: access_account_eq record_access_take)

theorem access_account_warm_witness:
  "fst (mocked_access_account (address_of_u64 9) (mocked_host_new 0)) = QRVMC_ACCESS_WARM \<and>
   fst (mocked_access_account (address_of_u64 10) (mocked_host_new 0)) = QRVMC_ACCESS_COLD"
proof -
  have "QRVMC_ACCESS_WARM \<noteq> QRVMC_ACCESS_COLD" "s \<noteq> QRVMC_ACCESS_WARM \<longleftrightarrow> s = QRVMC_ACCESS_COLD" for s
    by (cases s; simp)+
  then show ?thesis
    using access_account_warm [of "mocked_host_new 0" "address_of_u64 9"]
      access_account_warm [of "mocked_host_new 0" "address_of_u64 10"]
    by (simp add: mocked_host_new_def be_simps)
qed



text \<open>The access status of a slot: a slot that was never touched is cold, an access returns the
status of the slot and makes it warm, and it changes the status of no other slot and the value of
none.\<close>

theorem access_storage_warms:
  "fst (mocked_access_storage a k (snd (mocked_access_storage a' k' h))) =
     (if a = a' \<and> k = k' then QRVMC_ACCESS_WARM else fst (mocked_access_storage a k h)) \<and>
   fst (mocked_get_storage a k (snd (mocked_access_storage a' k' h))) = fst (mocked_get_storage a k h) \<and>
   fst (mocked_access_storage a k (mocked_host_new n)) = QRVMC_ACCESS_COLD"
  by (auto simp: mocked_access_storage_def get_storage_eq Let_def storage_or_new_def
      account_or_new_def update_storage_def mocked_host_new_def MockedAccount_default_def
      StorageValue_default_def split: option.splits)

text \<open>A log emitted through both adapters is recorded with its data and its first four topics,
also when the caller passes more or none at all.\<close>

theorem adapted_log_recorded:
  assumes "\<forall>ts. topics = Some ts \<longrightarrow> n \<le> length ts"
    and "data_size \<le> length (case data of None \<Rightarrow> [] | Some bs \<Rightarrow> bs)"
  shows "hi_emit_log (HostContext (Host_get_interface mocked_methods)) addr data data_size topics n h =
    Some (h\<lparr>mh_recorded_logs := mh_recorded_logs h @
      [\<lparr>log_creator = addr, log_data = (case data of None \<Rightarrow> [] | Some bs \<Rightarrow> take data_size bs),
        log_topics = (case topics of None \<Rightarrow> [] | Some ts \<Rightarrow> take 4 (take n ts))\<rparr>]\<rparr>)"
proof -
  obtain copy where copy: "topic_copy topics n = Some copy" "length copy = 4"
      "take (copied_topics topics n) copy = (case topics of None \<Rightarrow> [] | Some ts \<Rightarrow> take 4 (take n ts))"
    using assms(1)
    by (cases topics; cases "n \<le> 4")
      (auto simp: topic_copy_eq copied_topics_def max_log_topics_def min_absorb1 min_absorb2)
  moreover have "copied_topics topics n \<le> 4"
    by (simp add: copied_topics_def max_log_topics_def)
  moreover have "(case topics of None \<Rightarrow> [] | Some ts \<Rightarrow> take 4 (take n ts)) = []"
    if "copied_topics topics n = 0"
    using that by (auto simp: copied_topics_def max_log_topics_def split: option.splits if_splits)
  ultimately show ?thesis
    using assms(2)
    by (auto simp: adapters_eq mocked_methods_def mocked_emit_log_def Let_def
        split: option.splits)
qed

theorem adapted_log_recorded_witness:
  "hi_emit_log (HostContext (Host_get_interface mocked_methods)) address_zero None 0
      (Some (replicate 5 bytes64_zero)) 5 (mocked_host_new 0) =
    Some ((mocked_host_new 0)\<lparr>mh_recorded_logs :=
      [\<lparr>log_creator = address_zero, log_data = [], log_topics = replicate 4 bytes64_zero\<rparr>]\<rparr>)"
  using adapted_log_recorded [of "Some (replicate 5 bytes64_zero)" 5 0 None address_zero "mocked_host_new 0"]
  by (simp add: mocked_host_new_def)

text \<open>Setting a balance from a 64-bit number, byte by byte from the end, stores that number.\<close>

theorem set_balance_value:
  "set_balance x acc = acc\<lparr>acc_balance := bytes64_of_u64 x\<rparr>"
proof -
  have "replicate 64 (0 :: u8) = replicate 56 0 @ [0, 0, 0, 0, 0, 0, 0, 0]"
    using replicate_add [of 56 8 "0 :: u8"] by (simp add: numeral_eq_Suc)
  then have "set_balance_loop x 0 (bytes64_bytes bytes64_zero) = replicate 56 0 @ u64_be_bytes x"
    by (simp add: bytes64_zero.rep_eq set_balance_loop_eq)
  then show ?thesis
    by (simp add: set_balance_def bytes64_of_u64_def bytes64_of_bytes_def u64_be_bytes_def)
qed

end
