(* ===== verification/Instructions.thy ===== *)
theory Instructions
  imports Abi
begin

text \<open>
  The instruction tables of \<open>lib/instructions\<close>: for each of the 256 opcodes the metrics (gas cost,
  stack height that the instruction needs and its change of the height) and the name, and the
  enumerators of \<open>include/qrvmc/instructions.h\<close>. A table entry of the metrics is written as the
  source does, as a gas cost tier or number and the two heights.
\<close>

subsection \<open>The opcodes\<close>

text \<open>The enumerators with their values, in the order of the source.\<close>

definition qrvmc_opcode_lo :: "(string \<times> nat) list" where
  "qrvmc_opcode_lo =
    [(''OP_STOP'', 0x00), (''OP_ADD'', 0x01), (''OP_MUL'', 0x02), (''OP_SUB'', 0x03),
     (''OP_DIV'', 0x04), (''OP_SDIV'', 0x05), (''OP_MOD'', 0x06), (''OP_SMOD'', 0x07),
     (''OP_ADDMOD'', 0x08), (''OP_MULMOD'', 0x09), (''OP_EXP'', 0x0a), (''OP_SIGNEXTEND'', 0x0b),
     (''OP_LT'', 0x10), (''OP_GT'', 0x11), (''OP_SLT'', 0x12), (''OP_SGT'', 0x13),
     (''OP_EQ'', 0x14), (''OP_ISZERO'', 0x15), (''OP_AND'', 0x16), (''OP_OR'', 0x17),
     (''OP_XOR'', 0x18), (''OP_NOT'', 0x19), (''OP_BYTE'', 0x1a), (''OP_SHL'', 0x1b),
     (''OP_SHR'', 0x1c), (''OP_SAR'', 0x1d), (''OP_KECCAK256'', 0x20), (''OP_ADDRESS'', 0x30),
     (''OP_BALANCE'', 0x31), (''OP_ORIGIN'', 0x32), (''OP_CALLER'', 0x33),
     (''OP_CALLVALUE'', 0x34), (''OP_CALLDATALOAD'', 0x35), (''OP_CALLDATASIZE'', 0x36),
     (''OP_CALLDATACOPY'', 0x37), (''OP_CODESIZE'', 0x38), (''OP_CODECOPY'', 0x39),
     (''OP_GASPRICE'', 0x3a), (''OP_EXTCODESIZE'', 0x3b), (''OP_EXTCODECOPY'', 0x3c),
     (''OP_RETURNDATASIZE'', 0x3d), (''OP_RETURNDATACOPY'', 0x3e), (''OP_EXTCODEHASH'', 0x3f),
     (''OP_BLOCKHASH'', 0x40), (''OP_COINBASE'', 0x41), (''OP_TIMESTAMP'', 0x42),
     (''OP_NUMBER'', 0x43), (''OP_PREVRANDAO'', 0x44), (''OP_GASLIMIT'', 0x45),
     (''OP_CHAINID'', 0x46), (''OP_SELFBALANCE'', 0x47), (''OP_BASEFEE'', 0x48),
     (''OP_POP'', 0x50), (''OP_MLOAD'', 0x51), (''OP_MSTORE'', 0x52), (''OP_MSTORE8'', 0x53),
     (''OP_SLOAD'', 0x54), (''OP_SSTORE'', 0x55), (''OP_JUMP'', 0x56), (''OP_JUMPI'', 0x57),
     (''OP_PC'', 0x58), (''OP_MSIZE'', 0x59), (''OP_GAS'', 0x5a), (''OP_JUMPDEST'', 0x5b),
     (''OP_PUSH0'', 0x5f), (''OP_PUSH1'', 0x60), (''OP_PUSH2'', 0x61), (''OP_PUSH3'', 0x62),
     (''OP_PUSH4'', 0x63), (''OP_PUSH5'', 0x64), (''OP_PUSH6'', 0x65), (''OP_PUSH7'', 0x66),
     (''OP_PUSH8'', 0x67), (''OP_PUSH9'', 0x68), (''OP_PUSH10'', 0x69), (''OP_PUSH11'', 0x6a),
     (''OP_PUSH12'', 0x6b), (''OP_PUSH13'', 0x6c), (''OP_PUSH14'', 0x6d), (''OP_PUSH15'', 0x6e),
     (''OP_PUSH16'', 0x6f), (''OP_PUSH17'', 0x70), (''OP_PUSH18'', 0x71), (''OP_PUSH19'', 0x72),
     (''OP_PUSH20'', 0x73), (''OP_PUSH21'', 0x74), (''OP_PUSH22'', 0x75), (''OP_PUSH23'', 0x76),
     (''OP_PUSH24'', 0x77), (''OP_PUSH25'', 0x78), (''OP_PUSH26'', 0x79), (''OP_PUSH27'', 0x7a),
     (''OP_PUSH28'', 0x7b), (''OP_PUSH29'', 0x7c), (''OP_PUSH30'', 0x7d), (''OP_PUSH31'', 0x7e),
     (''OP_PUSH32'', 0x7f)]"

definition qrvmc_opcode_hi :: "(string \<times> nat) list" where
  "qrvmc_opcode_hi =
    [(''OP_PUSH33'', 0x80), (''OP_PUSH34'', 0x81), (''OP_PUSH35'', 0x82), (''OP_PUSH36'', 0x83),
     (''OP_PUSH37'', 0x84), (''OP_PUSH38'', 0x85), (''OP_PUSH39'', 0x86), (''OP_PUSH40'', 0x87),
     (''OP_PUSH41'', 0x88), (''OP_PUSH42'', 0x89), (''OP_PUSH43'', 0x8a), (''OP_PUSH44'', 0x8b),
     (''OP_PUSH45'', 0x8c), (''OP_PUSH46'', 0x8d), (''OP_PUSH47'', 0x8e), (''OP_PUSH48'', 0x8f),
     (''OP_PUSH49'', 0x90), (''OP_PUSH50'', 0x91), (''OP_PUSH51'', 0x92), (''OP_PUSH52'', 0x93),
     (''OP_PUSH53'', 0x94), (''OP_PUSH54'', 0x95), (''OP_PUSH55'', 0x96), (''OP_PUSH56'', 0x97),
     (''OP_PUSH57'', 0x98), (''OP_PUSH58'', 0x99), (''OP_PUSH59'', 0x9a), (''OP_PUSH60'', 0x9b),
     (''OP_PUSH61'', 0x9c), (''OP_PUSH62'', 0x9d), (''OP_PUSH63'', 0x9e), (''OP_PUSH64'', 0x9f),
     (''OP_DUP1'', 0xa0), (''OP_DUP2'', 0xa1), (''OP_DUP3'', 0xa2), (''OP_DUP4'', 0xa3),
     (''OP_DUP5'', 0xa4), (''OP_DUP6'', 0xa5), (''OP_DUP7'', 0xa6), (''OP_DUP8'', 0xa7),
     (''OP_DUP9'', 0xa8), (''OP_DUP10'', 0xa9), (''OP_DUP11'', 0xaa), (''OP_DUP12'', 0xab),
     (''OP_DUP13'', 0xac), (''OP_DUP14'', 0xad), (''OP_DUP15'', 0xae), (''OP_DUP16'', 0xaf),
     (''OP_SWAP1'', 0xb0), (''OP_SWAP2'', 0xb1), (''OP_SWAP3'', 0xb2), (''OP_SWAP4'', 0xb3),
     (''OP_SWAP5'', 0xb4), (''OP_SWAP6'', 0xb5), (''OP_SWAP7'', 0xb6), (''OP_SWAP8'', 0xb7),
     (''OP_SWAP9'', 0xb8), (''OP_SWAP10'', 0xb9), (''OP_SWAP11'', 0xba), (''OP_SWAP12'', 0xbb),
     (''OP_SWAP13'', 0xbc), (''OP_SWAP14'', 0xbd), (''OP_SWAP15'', 0xbe), (''OP_SWAP16'', 0xbf),
     (''OP_LOG0'', 0xc0), (''OP_LOG1'', 0xc1), (''OP_LOG2'', 0xc2), (''OP_LOG3'', 0xc3),
     (''OP_LOG4'', 0xc4), (''OP_CREATE'', 0xf0), (''OP_CALL'', 0xf1), (''OP_RETURN'', 0xf3),
     (''OP_DELEGATECALL'', 0xf4), (''OP_CREATE2'', 0xf5), (''OP_STATICCALL'', 0xfa),
     (''OP_REVERT'', 0xfd), (''OP_INVALID'', 0xfe)]"

definition qrvmc_opcode :: "(string \<times> nat) list" where
  "qrvmc_opcode = qrvmc_opcode_lo @ qrvmc_opcode_hi"

text \<open>The enumerators that code of the repository uses.\<close>

definition OP_STOP :: nat where
  "OP_STOP = 0x00"

definition OP_ADD :: nat where
  "OP_ADD = 0x01"

definition OP_ADDRESS :: nat where
  "OP_ADDRESS = 0x30"

definition OP_CALLDATALOAD :: nat where
  "OP_CALLDATALOAD = 0x35"

definition OP_NUMBER :: nat where
  "OP_NUMBER = 0x43"

definition OP_MSTORE :: nat where
  "OP_MSTORE = 0x52"

definition OP_SLOAD :: nat where
  "OP_SLOAD = 0x54"

definition OP_SSTORE :: nat where
  "OP_SSTORE = 0x55"

definition OP_MSIZE :: nat where
  "OP_MSIZE = 0x59"

definition OP_PUSH1 :: nat where
  "OP_PUSH1 = 0x60"

definition OP_PUSH64 :: nat where
  "OP_PUSH64 = 0x9f"

definition OP_DUP1 :: nat where
  "OP_DUP1 = 0xa0"

definition OP_CALL :: nat where
  "OP_CALL = 0xf1"

definition OP_RETURN :: nat where
  "OP_RETURN = 0xf3"

definition OP_REVERT :: nat where
  "OP_REVERT = 0xfd"

subsection \<open>Metrics\<close>

record qrvmc_instruction_metrics =
  gas_cost :: int
  stack_height_required :: int
  stack_height_change :: int

definition ZERO :: int where "ZERO = 0"

definition BASE :: int where "BASE = 2"

definition VERYLOW :: int where "VERYLOW = 3"

definition LOW :: int where "LOW = 5"

definition MID :: int where "MID = 8"

definition HIGH :: int where "HIGH = 10"

definition UNDEFINED :: int where "UNDEFINED = ZERO"

definition WARM_STORAGE_READ_COST :: int where "WARM_STORAGE_READ_COST = 100"

definition metrics_entry :: "int \<Rightarrow> int \<Rightarrow> int \<Rightarrow> qrvmc_instruction_metrics" where
  "metrics_entry gas req change =
    \<lparr>gas_cost = gas, stack_height_required = req, stack_height_change = change\<rparr>"

definition zond_metrics_lo :: "qrvmc_instruction_metrics list" where
  "zond_metrics_lo =
    (let m = metrics_entry in
    [m ZERO 0 0, m VERYLOW 2 (- 1), m LOW 2 (- 1), m VERYLOW 2 (- 1), m LOW 2 (- 1),
     m LOW 2 (- 1), m LOW 2 (- 1), m LOW 2 (- 1), m MID 3 (- 2), m MID 3 (- 2), m HIGH 2 (- 1),
     m LOW 2 (- 1), m UNDEFINED 0 0, m UNDEFINED 0 0, m UNDEFINED 0 0, m UNDEFINED 0 0,
     m VERYLOW 2 (- 1), m VERYLOW 2 (- 1), m VERYLOW 2 (- 1), m VERYLOW 2 (- 1),
     m VERYLOW 2 (- 1), m VERYLOW 1 0, m VERYLOW 2 (- 1), m VERYLOW 2 (- 1), m VERYLOW 2 (- 1),
     m VERYLOW 1 0, m VERYLOW 2 (- 1), m VERYLOW 2 (- 1), m VERYLOW 2 (- 1), m VERYLOW 2 (- 1),
     m UNDEFINED 0 0, m UNDEFINED 0 0, m 30 2 (- 1), m UNDEFINED 0 0, m UNDEFINED 0 0,
     m UNDEFINED 0 0, m UNDEFINED 0 0, m UNDEFINED 0 0, m UNDEFINED 0 0, m UNDEFINED 0 0,
     m UNDEFINED 0 0, m UNDEFINED 0 0, m UNDEFINED 0 0, m UNDEFINED 0 0, m UNDEFINED 0 0,
     m UNDEFINED 0 0, m UNDEFINED 0 0, m UNDEFINED 0 0, m BASE 0 1, m WARM_STORAGE_READ_COST 1 0,
     m BASE 0 1, m BASE 0 1, m BASE 0 1, m VERYLOW 1 0, m BASE 0 1, m VERYLOW 3 (- 3),
     m BASE 0 1, m VERYLOW 3 (- 3), m BASE 0 1, m WARM_STORAGE_READ_COST 1 0,
     m WARM_STORAGE_READ_COST 4 (- 4), m BASE 0 1, m VERYLOW 3 (- 3),
     m WARM_STORAGE_READ_COST 1 0, m 20 1 0, m BASE 0 1, m BASE 0 1, m BASE 0 1, m BASE 0 1,
     m BASE 0 1, m BASE 0 1, m LOW 0 1, m BASE 0 1, m UNDEFINED 0 0, m UNDEFINED 0 0,
     m UNDEFINED 0 0, m UNDEFINED 0 0, m UNDEFINED 0 0, m UNDEFINED 0 0, m UNDEFINED 0 0,
     m BASE 1 (- 1), m VERYLOW 1 0, m VERYLOW 2 (- 2), m VERYLOW 2 (- 2),
     m WARM_STORAGE_READ_COST 1 0, m 0 2 (- 2), m MID 1 (- 1), m HIGH 2 (- 2), m BASE 0 1,
     m BASE 0 1, m BASE 0 1, m 1 0 0, m UNDEFINED 0 0, m UNDEFINED 0 0, m UNDEFINED 0 0,
     m BASE 0 1, m VERYLOW 0 1, m VERYLOW 0 1, m VERYLOW 0 1, m VERYLOW 0 1, m VERYLOW 0 1,
     m VERYLOW 0 1, m VERYLOW 0 1, m VERYLOW 0 1, m VERYLOW 0 1, m VERYLOW 0 1, m VERYLOW 0 1,
     m VERYLOW 0 1, m VERYLOW 0 1, m VERYLOW 0 1, m VERYLOW 0 1, m VERYLOW 0 1, m VERYLOW 0 1,
     m VERYLOW 0 1, m VERYLOW 0 1, m VERYLOW 0 1, m VERYLOW 0 1, m VERYLOW 0 1, m VERYLOW 0 1,
     m VERYLOW 0 1, m VERYLOW 0 1, m VERYLOW 0 1, m VERYLOW 0 1, m VERYLOW 0 1, m VERYLOW 0 1,
     m VERYLOW 0 1, m VERYLOW 0 1, m VERYLOW 0 1])"

definition zond_metrics_hi :: "qrvmc_instruction_metrics list" where
  "zond_metrics_hi =
    (let m = metrics_entry in
    [m VERYLOW 0 1, m VERYLOW 0 1, m VERYLOW 0 1, m VERYLOW 0 1, m VERYLOW 0 1, m VERYLOW 0 1,
     m VERYLOW 0 1, m VERYLOW 0 1, m VERYLOW 0 1, m VERYLOW 0 1, m VERYLOW 0 1, m VERYLOW 0 1,
     m VERYLOW 0 1, m VERYLOW 0 1, m VERYLOW 0 1, m VERYLOW 0 1, m VERYLOW 0 1, m VERYLOW 0 1,
     m VERYLOW 0 1, m VERYLOW 0 1, m VERYLOW 0 1, m VERYLOW 0 1, m VERYLOW 0 1, m VERYLOW 0 1,
     m VERYLOW 0 1, m VERYLOW 0 1, m VERYLOW 0 1, m VERYLOW 0 1, m VERYLOW 0 1, m VERYLOW 0 1,
     m VERYLOW 0 1, m VERYLOW 0 1, m VERYLOW 1 1, m VERYLOW 2 1, m VERYLOW 3 1, m VERYLOW 4 1,
     m VERYLOW 5 1, m VERYLOW 6 1, m VERYLOW 7 1, m VERYLOW 8 1, m VERYLOW 9 1, m VERYLOW 10 1,
     m VERYLOW 11 1, m VERYLOW 12 1, m VERYLOW 13 1, m VERYLOW 14 1, m VERYLOW 15 1,
     m VERYLOW 16 1, m VERYLOW 2 0, m VERYLOW 3 0, m VERYLOW 4 0, m VERYLOW 5 0, m VERYLOW 6 0,
     m VERYLOW 7 0, m VERYLOW 8 0, m VERYLOW 9 0, m VERYLOW 10 0, m VERYLOW 11 0, m VERYLOW 12 0,
     m VERYLOW 13 0, m VERYLOW 14 0, m VERYLOW 15 0, m VERYLOW 16 0, m VERYLOW 17 0,
     m (1 * 375) 2 (- 2), m (2 * 375) 3 (- 3), m (3 * 375) 4 (- 4), m (4 * 375) 5 (- 5),
     m (5 * 375) 6 (- 6), m UNDEFINED 0 0, m UNDEFINED 0 0, m UNDEFINED 0 0, m UNDEFINED 0 0,
     m UNDEFINED 0 0, m UNDEFINED 0 0, m UNDEFINED 0 0, m UNDEFINED 0 0, m UNDEFINED 0 0,
     m UNDEFINED 0 0, m UNDEFINED 0 0, m UNDEFINED 0 0, m UNDEFINED 0 0, m UNDEFINED 0 0,
     m UNDEFINED 0 0, m UNDEFINED 0 0, m UNDEFINED 0 0, m UNDEFINED 0 0, m UNDEFINED 0 0,
     m UNDEFINED 0 0, m UNDEFINED 0 0, m UNDEFINED 0 0, m UNDEFINED 0 0, m UNDEFINED 0 0,
     m UNDEFINED 0 0, m UNDEFINED 0 0, m UNDEFINED 0 0, m UNDEFINED 0 0, m UNDEFINED 0 0,
     m UNDEFINED 0 0, m UNDEFINED 0 0, m UNDEFINED 0 0, m UNDEFINED 0 0, m UNDEFINED 0 0,
     m UNDEFINED 0 0, m UNDEFINED 0 0, m UNDEFINED 0 0, m UNDEFINED 0 0, m UNDEFINED 0 0,
     m UNDEFINED 0 0, m UNDEFINED 0 0, m UNDEFINED 0 0, m UNDEFINED 0 0, m 32000 3 (- 2),
     m WARM_STORAGE_READ_COST 7 (- 6), m UNDEFINED 0 0, m ZERO 2 (- 2),
     m WARM_STORAGE_READ_COST 6 (- 5), m 32000 4 (- 3), m UNDEFINED 0 0, m UNDEFINED 0 0,
     m UNDEFINED 0 0, m UNDEFINED 0 0, m WARM_STORAGE_READ_COST 6 (- 5), m UNDEFINED 0 0,
     m UNDEFINED 0 0, m ZERO 2 (- 2), m ZERO 0 0, m UNDEFINED 0 0])"

definition zond_metrics :: "qrvmc_instruction_metrics list" where
  "zond_metrics = zond_metrics_lo @ zond_metrics_hi"

definition qrvmc_get_instruction_metrics_table ::
    "qrvmc_revision \<Rightarrow> qrvmc_instruction_metrics list option" where
  "qrvmc_get_instruction_metrics_table revision =
    (if revision = QRVMC_ZOND then Some zond_metrics else None)"

subsection \<open>Names\<close>

definition zond_names_lo :: "string option list" where
  "zond_names_lo =
    [Some ''STOP'', Some ''ADD'', Some ''MUL'', Some ''SUB'', Some ''DIV'', Some ''SDIV'',
     Some ''MOD'', Some ''SMOD'', Some ''ADDMOD'', Some ''MULMOD'', Some ''EXP'',
     Some ''SIGNEXTEND'', None, None, None, None, Some ''LT'', Some ''GT'', Some ''SLT'',
     Some ''SGT'', Some ''EQ'', Some ''ISZERO'', Some ''AND'', Some ''OR'', Some ''XOR'',
     Some ''NOT'', Some ''BYTE'', Some ''SHL'', Some ''SHR'', Some ''SAR'', None, None,
     Some ''KECCAK256'', None, None, None, None, None, None, None, None, None, None, None, None,
     None, None, None, Some ''ADDRESS'', Some ''BALANCE'', Some ''ORIGIN'', Some ''CALLER'',
     Some ''CALLVALUE'', Some ''CALLDATALOAD'', Some ''CALLDATASIZE'', Some ''CALLDATACOPY'',
     Some ''CODESIZE'', Some ''CODECOPY'', Some ''GASPRICE'', Some ''EXTCODESIZE'',
     Some ''EXTCODECOPY'', Some ''RETURNDATASIZE'', Some ''RETURNDATACOPY'',
     Some ''EXTCODEHASH'', Some ''BLOCKHASH'', Some ''COINBASE'', Some ''TIMESTAMP'',
     Some ''NUMBER'', Some ''PREVRANDAO'', Some ''GASLIMIT'', Some ''CHAINID'',
     Some ''SELFBALANCE'', Some ''BASEFEE'', None, None, None, None, None, None, None,
     Some ''POP'', Some ''MLOAD'', Some ''MSTORE'', Some ''MSTORE8'', Some ''SLOAD'',
     Some ''SSTORE'', Some ''JUMP'', Some ''JUMPI'', Some ''PC'', Some ''MSIZE'', Some ''GAS'',
     Some ''JUMPDEST'', None, None, None, Some ''PUSH0'', Some ''PUSH1'', Some ''PUSH2'',
     Some ''PUSH3'', Some ''PUSH4'', Some ''PUSH5'', Some ''PUSH6'', Some ''PUSH7'',
     Some ''PUSH8'', Some ''PUSH9'', Some ''PUSH10'', Some ''PUSH11'', Some ''PUSH12'',
     Some ''PUSH13'', Some ''PUSH14'', Some ''PUSH15'', Some ''PUSH16'', Some ''PUSH17'',
     Some ''PUSH18'', Some ''PUSH19'', Some ''PUSH20'', Some ''PUSH21'', Some ''PUSH22'',
     Some ''PUSH23'', Some ''PUSH24'', Some ''PUSH25'', Some ''PUSH26'', Some ''PUSH27'',
     Some ''PUSH28'', Some ''PUSH29'', Some ''PUSH30'', Some ''PUSH31'', Some ''PUSH32'']"

definition zond_names_hi :: "string option list" where
  "zond_names_hi =
    [Some ''PUSH33'', Some ''PUSH34'', Some ''PUSH35'', Some ''PUSH36'', Some ''PUSH37'',
     Some ''PUSH38'', Some ''PUSH39'', Some ''PUSH40'', Some ''PUSH41'', Some ''PUSH42'',
     Some ''PUSH43'', Some ''PUSH44'', Some ''PUSH45'', Some ''PUSH46'', Some ''PUSH47'',
     Some ''PUSH48'', Some ''PUSH49'', Some ''PUSH50'', Some ''PUSH51'', Some ''PUSH52'',
     Some ''PUSH53'', Some ''PUSH54'', Some ''PUSH55'', Some ''PUSH56'', Some ''PUSH57'',
     Some ''PUSH58'', Some ''PUSH59'', Some ''PUSH60'', Some ''PUSH61'', Some ''PUSH62'',
     Some ''PUSH63'', Some ''PUSH64'', Some ''DUP1'', Some ''DUP2'', Some ''DUP3'',
     Some ''DUP4'', Some ''DUP5'', Some ''DUP6'', Some ''DUP7'', Some ''DUP8'', Some ''DUP9'',
     Some ''DUP10'', Some ''DUP11'', Some ''DUP12'', Some ''DUP13'', Some ''DUP14'',
     Some ''DUP15'', Some ''DUP16'', Some ''SWAP1'', Some ''SWAP2'', Some ''SWAP3'',
     Some ''SWAP4'', Some ''SWAP5'', Some ''SWAP6'', Some ''SWAP7'', Some ''SWAP8'',
     Some ''SWAP9'', Some ''SWAP10'', Some ''SWAP11'', Some ''SWAP12'', Some ''SWAP13'',
     Some ''SWAP14'', Some ''SWAP15'', Some ''SWAP16'', Some ''LOG0'', Some ''LOG1'',
     Some ''LOG2'', Some ''LOG3'', Some ''LOG4'', None, None, None, None, None, None, None, None,
     None, None, None, None, None, None, None, None, None, None, None, None, None, None, None,
     None, None, None, None, None, None, None, None, None, None, None, None, None, None, None,
     None, None, None, None, None, Some ''CREATE'', Some ''CALL'', None, Some ''RETURN'',
     Some ''DELEGATECALL'', Some ''CREATE2'', None, None, None, None, Some ''STATICCALL'', None,
     None, Some ''REVERT'', Some ''INVALID'', None]"

definition zond_names :: "string option list" where
  "zond_names = zond_names_lo @ zond_names_hi"

definition qrvmc_get_instruction_names_table :: "qrvmc_revision \<Rightarrow> string option list option" where
  "qrvmc_get_instruction_names_table revision =
    (if revision = QRVMC_ZOND then Some zond_names else None)"

subsection \<open>What the tables say, evaluated once\<close>

lemmas tier_defs = ZERO_def BASE_def VERYLOW_def LOW_def MID_def HIGH_def UNDEFINED_def
  WARM_STORAGE_READ_COST_def

lemmas metrics_defs = zond_metrics_lo_def zond_metrics_hi_def

lemmas names_defs = zond_names_lo_def zond_names_hi_def

lemma length_tables_halves:
  "length zond_metrics_lo = 128" "length zond_metrics_hi = 128"
  "length zond_names_lo = 128" "length zond_names_hi = 128"
  by (simp_all add: metrics_defs names_defs Let_def)

lemma length_zond_metrics [simp]: "length zond_metrics = 256"
  by (simp add: zond_metrics_def length_tables_halves)

lemma length_zond_names [simp]: "length zond_names = 256"
  by (simp add: zond_names_def length_tables_halves)

text \<open>The ranges of the integer types of an entry, and what every entry satisfies.\<close>

definition metrics_ok :: "qrvmc_instruction_metrics \<Rightarrow> bool" where
  "metrics_ok m \<longleftrightarrow>
    0 \<le> gas_cost m \<and> gas_cost m < 2 ^ 15 \<and>
    0 \<le> stack_height_required m \<and> stack_height_required m \<le> 17 \<and>
    - 7 \<le> stack_height_change m \<and> stack_height_change m \<le> 1 \<and>
    0 \<le> stack_height_required m + stack_height_change m"

lemma metrics_ok_halves: "list_all metrics_ok zond_metrics_lo" "list_all metrics_ok zond_metrics_hi"
  by (simp_all add: metrics_defs Let_def metrics_entry_def metrics_ok_def tier_defs)

definition undefined_metrics :: qrvmc_instruction_metrics where
  "undefined_metrics = metrics_entry UNDEFINED 0 0"

text \<open>An entry without a name is undefined; only \<open>STOP\<close> and \<open>INVALID\<close> have a name but no metrics.\<close>

definition named_ok :: "string option \<Rightarrow> qrvmc_instruction_metrics \<Rightarrow> bool" where
  "named_ok name m \<longleftrightarrow>
    (m = undefined_metrics \<longleftrightarrow> name = None \<or> name = Some ''STOP'' \<or> name = Some ''INVALID'')"

lemma named_ok_lo: "list_all2 named_ok zond_names_lo zond_metrics_lo"
  by (simp add: metrics_defs names_defs Let_def metrics_entry_def named_ok_def undefined_metrics_def
      tier_defs)

lemma named_ok_hi: "list_all2 named_ok zond_names_hi zond_metrics_hi"
  by (simp add: metrics_defs names_defs Let_def metrics_entry_def named_ok_def undefined_metrics_def
      tier_defs)

text \<open>The enumerators that a table of names gives rise to, from opcode \<open>i\<close> on.\<close>

fun named_opcodes :: "nat \<Rightarrow> string option list \<Rightarrow> (string \<times> nat) list" where
  "named_opcodes i [] = []"
| "named_opcodes i (None # ns) = named_opcodes (i + 1) ns"
| "named_opcodes i (Some n # ns) = (''OP_'' @ n, i) # named_opcodes (i + 1) ns"

lemma named_opcodes_append:
  "named_opcodes i (xs @ ys) = named_opcodes i xs @ named_opcodes (i + length xs) ys"
  by (induction i xs rule: named_opcodes.induct) simp_all

lemma named_opcodes_lo: "named_opcodes 0 zond_names_lo = qrvmc_opcode_lo"
  by (simp add: names_defs qrvmc_opcode_lo_def)

lemma named_opcodes_hi: "named_opcodes 128 zond_names_hi = qrvmc_opcode_hi"
  by (simp add: names_defs qrvmc_opcode_hi_def)

lemma zond_metrics_push: "take 64 (drop OP_PUSH1 zond_metrics) = replicate 64 (metrics_entry VERYLOW 0 1)"
proof -
  have "drop 96 zond_metrics_lo = replicate 32 (metrics_entry VERYLOW 0 1)"
    "take 32 zond_metrics_hi = replicate 32 (metrics_entry VERYLOW 0 1)"
    by (simp_all add: metrics_defs Let_def numeral_eq_Suc)
  then show ?thesis
    using replicate_add [of 32 32 "metrics_entry VERYLOW 0 1"]
    by (simp add: zond_metrics_def OP_PUSH1_def length_tables_halves)
qed

lemma metrics_of_implemented:
  "map (\<lambda>op. zond_metrics ! op)
    [OP_STOP, OP_ADD, OP_ADDRESS, OP_CALLDATALOAD, OP_NUMBER, OP_MSTORE, OP_SLOAD, OP_SSTORE,
     OP_MSIZE, OP_DUP1, OP_CALL, OP_RETURN, OP_REVERT] =
   [metrics_entry ZERO 0 0, metrics_entry VERYLOW 2 (-1), metrics_entry BASE 0 1,
    metrics_entry VERYLOW 1 0, metrics_entry BASE 0 1, metrics_entry VERYLOW 2 (-2),
    metrics_entry WARM_STORAGE_READ_COST 1 0, metrics_entry 0 2 (-2), metrics_entry BASE 0 1,
    metrics_entry VERYLOW 1 1, metrics_entry WARM_STORAGE_READ_COST 7 (-6),
    metrics_entry ZERO 2 (-2), metrics_entry ZERO 2 (-2)]"
proof -
  have lo: "zond_metrics ! op = zond_metrics_lo ! op" if "op < 128" for op
    using that by (simp add: zond_metrics_def nth_append length_tables_halves)
  have hi: "zond_metrics ! op = zond_metrics_hi ! (op - 128)" if "\<not> op < 128" for op
    using that by (simp add: zond_metrics_def nth_append length_tables_halves)
  show ?thesis
    by (simp add: OP_STOP_def OP_ADD_def OP_ADDRESS_def OP_CALLDATALOAD_def OP_NUMBER_def
        OP_MSTORE_def OP_SLOAD_def OP_SSTORE_def OP_MSIZE_def OP_DUP1_def OP_CALL_def OP_RETURN_def
        OP_REVERT_def lo hi)
      (simp add: metrics_defs Let_def)
qed

subsection \<open>Properties\<close>

text \<open>C20: The three tables agree: the names are exactly the names of the enumerators, each at the
opcode that is the value of its enumerator, and an opcode has metrics other than the undefined ones
exactly when it has a name, but for \<open>STOP\<close> and \<open>INVALID\<close>, which cost nothing and leave the stack
alone.\<close>

theorem instruction_tables_agree:
  "named_opcodes 0 zond_names = qrvmc_opcode \<and> list_all2 named_ok zond_names zond_metrics"
  using list_all2_appendI [OF named_ok_lo named_ok_hi]
  by (simp add: zond_names_def zond_metrics_def qrvmc_opcode_def named_opcodes_append
      named_opcodes_lo named_opcodes_hi length_tables_halves)

text \<open>The tables exist for the one revision there is and have 256 entries each. Every entry fits
its small integer types, its cost is not negative, and the heights are sound: an instruction that
has the stack items it requires never takes the height below zero and adds at most one item.\<close>

theorem instruction_metrics_sound:
  "(qrvmc_get_instruction_metrics_table revision = None \<longleftrightarrow> revision \<noteq> QRVMC_MAX_REVISION) \<and>
   (qrvmc_get_instruction_names_table revision = None \<longleftrightarrow> revision \<noteq> QRVMC_MAX_REVISION) \<and>
   map_option length (qrvmc_get_instruction_metrics_table QRVMC_LATEST_STABLE_REVISION) = Some 256 \<and>
   map_option length (qrvmc_get_instruction_names_table QRVMC_LATEST_STABLE_REVISION) = Some 256 \<and>
   map_option (list_all metrics_ok)
     (qrvmc_get_instruction_metrics_table QRVMC_LATEST_STABLE_REVISION) = Some True"
  by (simp add: qrvmc_get_instruction_metrics_table_def qrvmc_get_instruction_names_table_def
      QRVMC_MAX_REVISION_def QRVMC_LATEST_STABLE_REVISION_def zond_metrics_def [symmetric])
    (simp add: zond_metrics_def metrics_ok_halves)

text \<open>The instruction families follow their formulas: the 64 push instructions need nothing and
add an item, \<open>DUPn\<close> needs n items and adds one, \<open>SWAPn\<close> needs n+1 and keeps the height, \<open>LOGn\<close>
takes n+2 and costs 375 for itself and each topic.\<close>

theorem instruction_families:
  "take 64 (drop OP_PUSH1 zond_metrics) = replicate 64 (metrics_entry VERYLOW 0 1) \<and>
   take 16 (drop OP_DUP1 zond_metrics) = map (\<lambda>n. metrics_entry VERYLOW n 1) [1..16] \<and>
   take 16 (drop 0xb0 zond_metrics) = map (\<lambda>n. metrics_entry VERYLOW (n + 1) 0) [1..16] \<and>
   take 5 (drop 0xc0 zond_metrics) =
     map (\<lambda>n. metrics_entry ((n + 1) * 375) (n + 2) (- (n + 2))) [0..4]"
proof (intro conjI)
  have hi: "drop n zond_metrics = drop (n - 128) zond_metrics_hi" if "128 \<le> n" for n
    using that by (simp add: zond_metrics_def length_tables_halves)
  show "take 16 (drop OP_DUP1 zond_metrics) = map (\<lambda>n. metrics_entry VERYLOW n 1) [1..16]"
    by (simp add: OP_DUP1_def hi metrics_defs Let_def upto_rec1)
  show "take 16 (drop 0xb0 zond_metrics) = map (\<lambda>n. metrics_entry VERYLOW (n + 1) 0) [1..16]"
    by (simp add: hi metrics_defs Let_def upto_rec1)
  show "take 5 (drop 0xc0 zond_metrics) =
      map (\<lambda>n. metrics_entry ((n + 1) * 375) (n + 2) (- (n + 2))) [0..4]"
    by (simp add: hi metrics_defs Let_def upto_rec1)
qed (rule zond_metrics_push)

end
