(* ===== verification/ExampleVM.thy ===== *)
theory ExampleVM
  imports MockedHost Instructions
begin

text \<open>
  The example VM of \<open>examples/example_vm/example_vm.cpp\<close>: a stack of 1024 items, a memory of 1024
  bytes and an interpreter for a subset of the instructions, which reaches the host through the
  table of host functions.

  Each \<open>case\<close> of the interpreter's \<open>switch\<close> is a function from the state of the execution to an
  outcome: the state in which the loop goes on, the result that \<open>execute\<close> returns, or \<open>Fault\<close> for
  undefined behaviour (a null or too short source of \<open>memcpy\<close>, a release function that frees a wrong
  block) and for a failed assertion of the host. The output on the console in verbose mode is not
  modelled.
\<close>

subsection \<open>Stack\<close>

record Stack =
  stk_items :: "qrvmc_uint512be list"
  stk_pointer :: nat

definition stack_limit :: nat where
  "stack_limit = 1024"

definition Stack_new :: Stack where
  "Stack_new = \<lparr>stk_items = replicate stack_limit bytes64_zero, stk_pointer = 0\<rparr>"

definition Stack_pop :: "Stack \<Rightarrow> (qrvmc_uint512be \<times> Stack) option" where
  "Stack_pop s =
    (if stk_pointer s = 0 then None
     else let p = stk_pointer s - 1 in Some (stk_items s ! p, s\<lparr>stk_pointer := p\<rparr>))"

definition Stack_push :: "qrvmc_uint512be \<Rightarrow> Stack \<Rightarrow> Stack option" where
  "Stack_push v s =
    (if stk_pointer s = stack_limit then None
     else Some (s\<lparr>stk_items := (stk_items s)[stk_pointer s := v], stk_pointer := stk_pointer s + 1\<rparr>))"

subsection \<open>Memory\<close>

record Memory =
  mem_size :: u32
  mem_data :: "u8 list"

definition memory_limit :: nat where
  "memory_limit = 1024"

definition Memory_new :: Memory where
  "Memory_new = \<lparr>mem_size = 0, mem_data = replicate memory_limit 0\<rparr>"

text \<open>The returned pointer is the index of the region's first byte.\<close>

definition Memory_expand :: "u32 \<Rightarrow> u32 \<Rightarrow> Memory \<Rightarrow> (nat \<times> Memory) option" where
  "Memory_expand offset region_size m =
    (if unat offset > memory_limit \<or> unat region_size > memory_limit - unat offset then None
     else let new_size = offset + region_size
       in Some (unat offset, if new_size > mem_size m then m\<lparr>mem_size := new_size\<rparr> else m))"

definition Memory_store :: "u32 \<Rightarrow> view \<Rightarrow> u32 \<Rightarrow> Memory \<Rightarrow> (bool \<times> Memory) option" where
  "Memory_store offset value_data value_size m =
    (case Memory_expand offset value_size m of
       None \<Rightarrow> Some (False, m)
     | Some (p, m') \<Rightarrow>
         if value_size \<noteq> 0 then
           (case value_data of
              None \<Rightarrow> None
            | Some bs \<Rightarrow>
                if unat value_size \<le> length bs
                then Some (True, m'\<lparr>mem_data := blit (mem_data m') p (take (unat value_size) bs)\<rparr>)
                else None)
         else Some (True, m'))"

subsection \<open>Conversions\<close>

definition to_uint512 :: "u32 \<Rightarrow> qrvmc_uint512be" where
  "to_uint512 x =
    bytes64_of_bytes ((bytes64_bytes bytes64_zero)
      [63 := ucast x, 62 := ucast (drop_bit 8 x), 61 := ucast (drop_bit 16 x),
       60 := ucast (drop_bit 24 x)])"

definition to_uint512_address :: "qrvmc_address \<Rightarrow> qrvmc_uint512be" where
  "to_uint512_address a = bytes64_of_bytes (address_bytes a)"

definition to_uint32 :: "qrvmc_uint512be \<Rightarrow> u32" where
  "to_uint32 v =
    push_bit 24 (ucast (bytes64_bytes v ! 60)) OR push_bit 16 (ucast (bytes64_bytes v ! 61)) OR
    push_bit 8 (ucast (bytes64_bytes v ! 62)) OR ucast (bytes64_bytes v ! 63)"

definition to_address :: "qrvmc_uint512be \<Rightarrow> qrvmc_address" where
  "to_address v = address_of_bytes (bytes64_bytes v)"

definition vm_is_zero :: "qrvmc_uint512be \<Rightarrow> bool" where
  "vm_is_zero v = list_all (\<lambda>b. b = 0) (bytes64_bytes v)"

subsection \<open>The state of an execution\<close>

record 'h exec_state =
  ex_gas_left :: int
  ex_stack :: Stack
  ex_memory :: Memory
  ex_pc :: nat
  ex_host :: 'h
  ex_heap :: heap

datatype 'h outcome =
    Next "'h exec_state"
  | Done "heap_ptr qrvmc_result" 'h heap
  | Fault

text \<open>\<open>return qrvmc_make_result(...)\<close>\<close>

definition finish :: "qrvmc_status_code \<Rightarrow> int \<Rightarrow> view \<Rightarrow> nat \<Rightarrow> 'h exec_state \<Rightarrow> 'h outcome" where
  "finish sc gas out n st =
    (case qrvmc_make_result sc gas 0 out n (ex_heap st) of
       None \<Rightarrow> Fault
     | Some (r, hp) \<Rightarrow> Done r (ex_host st) hp)"

definition fail_with :: "qrvmc_status_code \<Rightarrow> 'h exec_state \<Rightarrow> 'h outcome" where
  "fail_with sc st = finish sc 0 None 0 st"

text \<open>Popping an argument and pushing a result, with the early returns the source has for them.\<close>

definition pop_then ::
    "'h exec_state \<Rightarrow> (qrvmc_uint512be \<Rightarrow> 'h exec_state \<Rightarrow> 'h outcome) \<Rightarrow> 'h outcome" where
  "pop_then st k =
    (case Stack_pop (ex_stack st) of
       None \<Rightarrow> fail_with QRVMC_STACK_UNDERFLOW st
     | Some (v, s) \<Rightarrow> k v (st\<lparr>ex_stack := s\<rparr>))"

definition push_then ::
    "qrvmc_uint512be \<Rightarrow> 'h exec_state \<Rightarrow> ('h exec_state \<Rightarrow> 'h outcome) \<Rightarrow> 'h outcome" where
  "push_then v st k =
    (case Stack_push v (ex_stack st) of
       None \<Rightarrow> fail_with QRVMC_STACK_OVERFLOW st
     | Some s \<Rightarrow> k (st\<lparr>ex_stack := s\<rparr>))"

subsection \<open>Instructions\<close>

definition is_static :: "view qrvmc_message \<Rightarrow> bool" where
  "is_static msg \<longleftrightarrow> msg_flags msg AND QRVMC_STATIC \<noteq> 0"

definition op_add :: "'h exec_state \<Rightarrow> 'h outcome" where
  "op_add st =
    pop_then st (\<lambda>a_value st. pop_then st (\<lambda>b_value st.
      let a = to_uint32 a_value; b = to_uint32 b_value; sum = a + b
      in push_then (to_uint512 sum) st Next))"

definition op_address :: "view qrvmc_message \<Rightarrow> 'h exec_state \<Rightarrow> 'h outcome" where
  "op_address msg st = push_then (to_uint512_address (msg_recipient msg)) st Next"

definition op_calldataload :: "view qrvmc_message \<Rightarrow> 'h exec_state \<Rightarrow> 'h outcome" where
  "op_calldataload msg st =
    pop_then st (\<lambda>offset_value st.
      let offset = unat (to_uint32 offset_value) in
      if offset < msg_input_size msg then
        let copy_size = min (msg_input_size msg - offset) 64 in
        (case msg_input_data msg of
           None \<Rightarrow> Fault
         | Some input \<Rightarrow>
             if offset + copy_size \<le> length input
             then push_then (bytes64_of_bytes
               (blit (bytes64_bytes bytes64_zero) 0 (take copy_size (drop offset input)))) st Next
             else Fault)
      else push_then bytes64_zero st Next)"

definition op_number :: "'h host_methods \<Rightarrow> 'h exec_state \<Rightarrow> 'h outcome" where
  "op_number host st =
    (case hi_get_tx_context host (ex_host st) of
       None \<Rightarrow> Fault
     | Some (tx, h) \<Rightarrow>
         push_then (to_uint512 (word_of_int (block_number tx))) (st\<lparr>ex_host := h\<rparr>) Next)"

definition op_mstore :: "'h exec_state \<Rightarrow> 'h outcome" where
  "op_mstore st =
    pop_then st (\<lambda>index_value st. pop_then st (\<lambda>val st.
      case Memory_store (to_uint32 index_value) (Some (bytes64_bytes val)) 64 (ex_memory st) of
        None \<Rightarrow> Fault
      | Some (stored, m) \<Rightarrow>
          if stored then Next (st\<lparr>ex_memory := m\<rparr>) else fail_with QRVMC_FAILURE st))"

definition op_sload :: "'h host_methods \<Rightarrow> view qrvmc_message \<Rightarrow> 'h exec_state \<Rightarrow> 'h outcome" where
  "op_sload host msg st =
    pop_then st (\<lambda>index st.
      case hi_get_storage host (msg_recipient msg) index (ex_host st) of
        None \<Rightarrow> Fault
      | Some (val, h) \<Rightarrow> push_then val (st\<lparr>ex_host := h\<rparr>) Next)"

definition op_sstore :: "'h host_methods \<Rightarrow> view qrvmc_message \<Rightarrow> 'h exec_state \<Rightarrow> 'h outcome" where
  "op_sstore host msg st =
    pop_then st (\<lambda>index st. pop_then st (\<lambda>val st.
      if is_static msg then fail_with QRVMC_STATIC_MODE_VIOLATION st
      else case hi_set_storage host (msg_recipient msg) index val (ex_host st) of
        None \<Rightarrow> Fault
      | Some (status, h) \<Rightarrow> Next (st\<lparr>ex_host := h\<rparr>)))"

definition op_msize :: "'h exec_state \<Rightarrow> 'h outcome" where
  "op_msize st = push_then (to_uint512 (mem_size (ex_memory st))) st Next"

text \<open>The value a push instruction reads from the code; missing bytes at the end are zeros.\<close>

definition push_value :: "u8 list \<Rightarrow> nat \<Rightarrow> nat \<Rightarrow> qrvmc_uint512be" where
  "push_value code pc num_push_bytes =
    (let offset = 64 - num_push_bytes;
         available_push_bytes = min num_push_bytes (length code - pc - 1)
     in if available_push_bytes \<noteq> 0
        then bytes64_of_bytes (blit (bytes64_bytes bytes64_zero) offset
          (take available_push_bytes (drop (pc + 1) code)))
        else bytes64_zero)"

definition op_push :: "u8 list \<Rightarrow> 'h exec_state \<Rightarrow> 'h outcome" where
  "op_push code st =
    (let num_push_bytes = unat (code ! ex_pc st) - OP_PUSH1 + 1;
         val = push_value code (ex_pc st) num_push_bytes
     in push_then val (st\<lparr>ex_pc := ex_pc st + num_push_bytes\<rparr>) Next)"

definition op_dup1 :: "'h exec_state \<Rightarrow> 'h outcome" where
  "op_dup1 st = pop_then st (\<lambda>val st. push_then val st (\<lambda>st. push_then val st Next))"

definition clamp :: "int \<Rightarrow> int \<Rightarrow> int \<Rightarrow> int" where
  "clamp v lo hi = (if v < lo then lo else if hi < v then hi else v)"

text \<open>The second half of \<open>OP_CALL\<close>, once all operands are there and both memory regions exist.\<close>

definition do_call ::
    "'h host_methods \<Rightarrow> release_table \<Rightarrow> view qrvmc_message \<Rightarrow> u32 \<Rightarrow> u32 \<Rightarrow> 'h exec_state \<Rightarrow>
      'h outcome" where
  "do_call host other call_msg call_output_offset call_output_size st =
    (let st = st\<lparr>ex_gas_left := ex_gas_left st - msg_gas call_msg\<rparr> in
     (case hi_call host call_msg (ex_host st) (ex_heap st) of
        None \<Rightarrow> Fault
      | Some (call_result, h, hp) \<Rightarrow>
          let st = st\<lparr>ex_host := h, ex_heap := hp,
                ex_gas_left := ex_gas_left st + clamp (gas_left call_result) 0 (msg_gas call_msg)\<rparr>;
              success = to_uint512 (if status_code call_result = QRVMC_SUCCESS then 1 else 0)
          in push_then success st (\<lambda>st.
            let call_output_size =
                  (if unat call_output_size > output_size call_result
                   then word_of_nat (output_size call_result) else call_output_size)
            in (case Memory_store call_output_offset (heap_read (output_data call_result) hp)
                   call_output_size (ex_memory st) of
                  None \<Rightarrow> Fault
                | Some (_, m) \<Rightarrow>
                    (case release call_result of
                       None \<Rightarrow> Next (st\<lparr>ex_memory := m\<rparr>)
                     | Some f \<Rightarrow>
                         (case call_release other f call_result hp of
                            None \<Rightarrow> Fault
                          | Some hp' \<Rightarrow> Next (st\<lparr>ex_memory := m, ex_heap := hp'\<rparr>)))))))"

definition expanded_memory :: "(nat \<times> Memory) option \<Rightarrow> Memory \<Rightarrow> Memory" where
  "expanded_memory e m = (case e of Some (_, m') \<Rightarrow> m' | None \<Rightarrow> m)"

text \<open>The message of the call, with its input at \<open>p\<close> in the memory.\<close>

definition call_message ::
    "view qrvmc_message \<Rightarrow> u32 \<Rightarrow> qrvmc_uint512be \<Rightarrow> qrvmc_uint512be \<Rightarrow> nat \<Rightarrow> u32 \<Rightarrow>
      'h exec_state \<Rightarrow> view qrvmc_message" where
  "call_message msg gas recipient call_value p call_input_size st =
    \<lparr>msg_kind = QRVMC_CALL, msg_flags = msg_flags msg, msg_depth = msg_depth msg + 1,
     msg_gas = min (uint gas) (ex_gas_left st),
     msg_recipient = to_address recipient, msg_sender = msg_recipient msg,
     msg_input_data = Some (drop p (mem_data (ex_memory st))),
     msg_input_size = unat call_input_size,
     msg_value = call_value, msg_create2_salt = bytes64_zero,
     msg_code_address = to_address recipient\<rparr>"

text \<open>The operands for the output, then those for the input, then all of \<open>OP_CALL\<close>.\<close>

definition call_output ::
    "'h host_methods \<Rightarrow> release_table \<Rightarrow> view qrvmc_message \<Rightarrow> u32 \<Rightarrow> qrvmc_uint512be \<Rightarrow>
      qrvmc_uint512be \<Rightarrow> (nat \<times> Memory) option \<Rightarrow> u32 \<Rightarrow> 'h exec_state \<Rightarrow> 'h outcome" where
  "call_output host other msg gas recipient call_value input_ptr call_input_size st =
    pop_then st (\<lambda>call_output_offset_value st. pop_then st (\<lambda>call_output_size_value st.
      let call_output_offset = to_uint32 call_output_offset_value;
          call_output_size = to_uint32 call_output_size_value;
          output_ptr = Memory_expand call_output_offset call_output_size (ex_memory st);
          st = st\<lparr>ex_memory := expanded_memory output_ptr (ex_memory st)\<rparr>
      in if input_ptr = None \<or> output_ptr = None then fail_with QRVMC_FAILURE st
         else do_call host other
           (call_message msg gas recipient call_value (fst (the input_ptr)) call_input_size st)
           call_output_offset call_output_size st))"

definition call_input ::
    "'h host_methods \<Rightarrow> release_table \<Rightarrow> view qrvmc_message \<Rightarrow> u32 \<Rightarrow> qrvmc_uint512be \<Rightarrow>
      qrvmc_uint512be \<Rightarrow> 'h exec_state \<Rightarrow> 'h outcome" where
  "call_input host other msg gas recipient call_value st =
    pop_then st (\<lambda>call_input_offset_value st. pop_then st (\<lambda>call_input_size_value st.
      let call_input_offset = to_uint32 call_input_offset_value;
          call_input_size = to_uint32 call_input_size_value;
          input_ptr = Memory_expand call_input_offset call_input_size (ex_memory st)
      in call_output host other msg gas recipient call_value input_ptr call_input_size
           (st\<lparr>ex_memory := expanded_memory input_ptr (ex_memory st)\<rparr>)))"

definition op_call ::
    "'h host_methods \<Rightarrow> release_table \<Rightarrow> view qrvmc_message \<Rightarrow> 'h exec_state \<Rightarrow> 'h outcome" where
  "op_call host other msg st =
    pop_then st (\<lambda>gas st. pop_then st (\<lambda>recipient st. pop_then st (\<lambda>call_value st.
      if msg_depth msg \<ge> 1024 then fail_with QRVMC_CALL_DEPTH_EXCEEDED st
      else if is_static msg \<and> \<not> vm_is_zero call_value
      then fail_with QRVMC_STATIC_MODE_VIOLATION st
      else call_input host other msg (to_uint32 gas) recipient call_value st)))"

text \<open>\<open>OP_RETURN\<close> and \<open>OP_REVERT\<close>, which differ in the status only.\<close>

definition op_return :: "qrvmc_status_code \<Rightarrow> 'h exec_state \<Rightarrow> 'h outcome" where
  "op_return sc st =
    pop_then st (\<lambda>output_offset_value st. pop_then st (\<lambda>output_size_value st.
      let output_offset = to_uint32 output_offset_value;
          output_size = to_uint32 output_size_value
      in case Memory_expand output_offset output_size (ex_memory st) of
           None \<Rightarrow> fail_with QRVMC_FAILURE st
         | Some (p, m) \<Rightarrow>
             finish sc (ex_gas_left st) (Some (drop p (mem_data m))) (unat output_size) st))"

subsection \<open>The interpreter\<close>

definition execute_instruction ::
    "'h host_methods \<Rightarrow> release_table \<Rightarrow> view qrvmc_message \<Rightarrow> u8 list \<Rightarrow> 'h exec_state \<Rightarrow>
      'h outcome" where
  "execute_instruction host other msg code st =
    (let opcode = unat (code ! ex_pc st) in
     if opcode = OP_STOP then finish QRVMC_SUCCESS (ex_gas_left st) None 0 st
     else if opcode = OP_ADD then op_add st
     else if opcode = OP_ADDRESS then op_address msg st
     else if opcode = OP_CALLDATALOAD then op_calldataload msg st
     else if opcode = OP_NUMBER then op_number host st
     else if opcode = OP_MSTORE then op_mstore st
     else if opcode = OP_SLOAD then op_sload host msg st
     else if opcode = OP_SSTORE then op_sstore host msg st
     else if opcode = OP_MSIZE then op_msize st
     else if OP_PUSH1 \<le> opcode \<and> opcode \<le> OP_PUSH64 then op_push code st
     else if opcode = OP_DUP1 then op_dup1 st
     else if opcode = OP_CALL then op_call host other msg st
     else if opcode = OP_RETURN then op_return QRVMC_SUCCESS st
     else if opcode = OP_REVERT then op_return QRVMC_REVERT st
     else fail_with QRVMC_UNDEFINED_INSTRUCTION st)"

text \<open>Which outcomes a statement about executions allows.\<close>

definition outcome_sat ::
    "('h exec_state \<Rightarrow> bool) \<Rightarrow> (heap_ptr qrvmc_result \<Rightarrow> 'h \<Rightarrow> heap \<Rightarrow> bool) \<Rightarrow> bool \<Rightarrow> 'h outcome \<Rightarrow> bool" where
  "outcome_sat P Q f out =
    (case out of Next st \<Rightarrow> P st | Done r h hp \<Rightarrow> Q r h hp | Fault \<Rightarrow> f)"

lemma outcome_sat_simps [simp]:
  "outcome_sat P Q f (Next st) = P st"
  "outcome_sat P Q f (Done r h hp) = Q r h hp"
  "outcome_sat P Q f Fault = f"
  by (simp_all add: outcome_sat_def)

lemma outcome_sat_True: "outcome_sat (\<lambda>_. True) (\<lambda>_ _ _. True) True out"
  by (cases out) simp_all

lemma pop_then_sat:
  assumes "outcome_sat P Q f (fail_with QRVMC_STACK_UNDERFLOW st)"
    and "\<And>v s. Stack_pop (ex_stack st) = Some (v, s) \<Longrightarrow> outcome_sat P Q f (k v (st\<lparr>ex_stack := s\<rparr>))"
  shows "outcome_sat P Q f (pop_then st k)"
  using assms by (auto simp: pop_then_def split: option.splits)

lemma push_then_sat:
  assumes "outcome_sat P Q f (fail_with QRVMC_STACK_OVERFLOW st)"
    and "\<And>s. Stack_push v (ex_stack st) = Some s \<Longrightarrow> outcome_sat P Q f (k (st\<lparr>ex_stack := s\<rparr>))"
  shows "outcome_sat P Q f (push_then v st k)"
  using assms by (auto simp: push_then_def split: option.splits)

lemma finish_sat:
  "outcome_sat P Q f (finish sc gas out n st) \<longleftrightarrow>
    (case qrvmc_make_result sc gas 0 out n (ex_heap st) of
       None \<Rightarrow> f
     | Some (r, hp) \<Rightarrow> Q r (ex_host st) hp)"
  by (simp add: finish_def split: option.splits prod.splits)

lemmas op_defs = op_add_def op_address_def op_calldataload_def op_number_def op_mstore_def
  op_sload_def op_sstore_def op_msize_def op_push_def op_dup1_def op_call_def
  call_input_def call_output_def do_call_def op_return_def

text \<open>The other ways in which the operations are put together.\<close>

lemma if_sat:
  assumes "b \<Longrightarrow> outcome_sat P Q f x" "\<not> b \<Longrightarrow> outcome_sat P Q f y"
  shows "outcome_sat P Q f (if b then x else y)"
  using assms by simp

lemma let_sat:
  assumes "\<And>y. y = x \<Longrightarrow> outcome_sat P Q f (k y)"
  shows "outcome_sat P Q f (Let x k)"
  using assms by simp

lemma option_sat:
  assumes "x = None \<Longrightarrow> outcome_sat P Q f a" "\<And>y. x = Some y \<Longrightarrow> outcome_sat P Q f (k y)"
  shows "outcome_sat P Q f (case x of None \<Rightarrow> a | Some y \<Rightarrow> k y)"
  using assms by (cases x) simp_all

lemma prod_sat:
  assumes "\<And>a b. p = (a, b) \<Longrightarrow> outcome_sat P Q f (k a b)"
  shows "outcome_sat P Q f (case p of (a, b) \<Rightarrow> k a b)"
  using assms by (cases p) simp

lemma fault_sat: "f \<Longrightarrow> outcome_sat P Q f Fault"
  by simp

lemma next_sat: "P st \<Longrightarrow> outcome_sat P Q f (Next st)"
  by simp

lemmas control_sat = pop_then_sat push_then_sat if_sat let_sat option_sat prod_sat

text \<open>No instruction moves the program counter back, so the loop ends.\<close>

lemma finish_pc: "outcome_sat (\<lambda>st'. p \<le> ex_pc st') (\<lambda>_ _ _. True) True (finish sc gas out n st)"
  by (simp add: finish_sat split: option.splits)

lemma fail_with_pc: "outcome_sat (\<lambda>st'. p \<le> ex_pc st') (\<lambda>_ _ _. True) True (fail_with sc st)"
  by (simp add: fail_with_def finish_pc)

lemmas pc_sat = control_sat finish_pc fail_with_pc fault_sat next_sat

lemma do_call_pc:
  "outcome_sat (\<lambda>st'. ex_pc st \<le> ex_pc st') (\<lambda>_ _ _. True) True
    (do_call host other call_msg out_offset out_size st)"
  unfolding do_call_def by (rule pc_sat | simp)+

lemma op_call_pc:
  "outcome_sat (\<lambda>st'. ex_pc st \<le> ex_pc st') (\<lambda>_ _ _. True) True (op_call host other msg st)"
proof -
  have call: "outcome_sat (\<lambda>st'. p \<le> ex_pc st') (\<lambda>_ _ _. True) True
      (do_call host other call_msg out_offset out_size s)" if "p \<le> ex_pc s"
    for p call_msg out_offset out_size and s :: "'a exec_state"
    using do_call_pc [of s host other call_msg out_offset out_size] that
    by (auto simp: outcome_sat_def split: outcome.splits)
  show ?thesis
    unfolding op_call_def call_input_def call_output_def by (rule pc_sat call | simp)+
qed

lemma op_push_pc: "outcome_sat (\<lambda>st'. ex_pc st \<le> ex_pc st') (\<lambda>_ _ _. True) True (op_push code st)"
proof -
  have "outcome_sat (\<lambda>st'. ex_pc st \<le> ex_pc st') (\<lambda>_ _ _. True) True
      (push_then v (st\<lparr>ex_pc := ex_pc st + n\<rparr>) Next)" for v n
    by (rule pc_sat | simp)+
  then show ?thesis
    unfolding op_push_def Let_def .
qed

lemma execute_instruction_pc:
  "outcome_sat (\<lambda>st'. ex_pc st \<le> ex_pc st') (\<lambda>_ _ _. True) True
    (execute_instruction host other msg code st)"
  unfolding execute_instruction_def op_add_def op_address_def op_calldataload_def op_number_def
    op_mstore_def op_sload_def op_sstore_def op_msize_def op_dup1_def op_return_def
  by (rule pc_sat op_call_pc op_push_pc | simp)+

lemma execute_instruction_pc_Next:
  "execute_instruction host other msg code st = Next st' \<Longrightarrow> ex_pc st \<le> ex_pc st'"
  using execute_instruction_pc [of st host other msg code] by simp

function (sequential) execute_loop ::
    "'h host_methods \<Rightarrow> release_table \<Rightarrow> view qrvmc_message \<Rightarrow> u8 list \<Rightarrow> 'h exec_state \<Rightarrow>
      'h outcome" where
  "execute_loop host other msg code st =
    (if ex_pc st < length code then
       (let st = st\<lparr>ex_gas_left := ex_gas_left st - 1\<rparr> in
        if ex_gas_left st < 0 then fail_with QRVMC_OUT_OF_GAS st
        else (case execute_instruction host other msg code st of
                Next st' \<Rightarrow> execute_loop host other msg code (st'\<lparr>ex_pc := ex_pc st' + 1\<rparr>)
              | out \<Rightarrow> out))
     else finish QRVMC_SUCCESS (ex_gas_left st) None 0 st)"
  by pat_completeness auto
termination
proof (relation "measure (\<lambda>(host, other, msg, code, st). length code - ex_pc st)")
  fix host :: "'h host_methods" and other msg code and st x st' :: "'h exec_state"
  assume "ex_pc st < length code" "x = st\<lparr>ex_gas_left := ex_gas_left st - 1\<rparr>"
    "execute_instruction host other msg code x = Next st'"
  then show "((host, other, msg, code, st'\<lparr>ex_pc := ex_pc st' + 1\<rparr>), (host, other, msg, code, st))
      \<in> measure (\<lambda>(host, other, msg, code, st). length code - ex_pc st)"
    using execute_instruction_pc_Next [of host other msg code x st'] by simp
qed simp

declare execute_loop.simps [simp del]

definition execute_start :: "view qrvmc_message \<Rightarrow> 'h \<Rightarrow> heap \<Rightarrow> 'h exec_state" where
  "execute_start msg h hp =
    \<lparr>ex_gas_left = msg_gas msg, ex_stack = Stack_new, ex_memory = Memory_new, ex_pc = 0,
     ex_host = h, ex_heap = hp\<rparr>"

definition execute ::
    "'h host_methods \<Rightarrow> release_table \<Rightarrow> view qrvmc_message \<Rightarrow> u8 list \<Rightarrow> 'h \<Rightarrow> heap \<Rightarrow>
      'h outcome" where
  "execute host other msg code h hp =
    (let st = execute_start msg h hp in
     if ex_gas_left st < 0 then fail_with QRVMC_OUT_OF_GAS st
     else execute_loop host other msg code st)"

subsection \<open>Stack and memory stay in their bounds\<close>

definition stack_ok :: "Stack \<Rightarrow> bool" where
  "stack_ok s \<longleftrightarrow> length (stk_items s) = stack_limit \<and> stk_pointer s \<le> stack_limit"

text \<open>The items that are on the stack, the top first.\<close>

definition stack_content :: "Stack \<Rightarrow> qrvmc_uint512be list" where
  "stack_content s = rev (take (stk_pointer s) (stk_items s))"

text \<open>What a bounded stack of at most \<open>limit\<close> items promises, over its content as a list.\<close>

locale bounded_stack =
  fixes new :: 's
    and pop :: "'s \<Rightarrow> ('a \<times> 's) option"
    and push :: "'a \<Rightarrow> 's \<Rightarrow> 's option"
    and content :: "'s \<Rightarrow> 'a list"
    and invar :: "'s \<Rightarrow> bool"
    and limit :: nat
  assumes new_invar: "invar new"
    and new_content: "content new = []"
    and content_bound: "invar s \<Longrightarrow> length (content s) \<le> limit"
    and pop_None: "invar s \<Longrightarrow> pop s = None \<longleftrightarrow> content s = []"
    and pop_Some: "invar s \<Longrightarrow> pop s = Some (v, s') \<Longrightarrow> content s = v # content s' \<and> invar s'"
    and push_None: "invar s \<Longrightarrow> push v s = None \<longleftrightarrow> length (content s) = limit"
    and push_Some: "invar s \<Longrightarrow> push v s = Some s' \<Longrightarrow> content s' = v # content s \<and> invar s'"
begin

lemma pop_push: "invar s \<Longrightarrow> push v s = Some s' \<Longrightarrow>
  \<exists>s''. pop s' = Some (v, s'') \<and> content s'' = content s"
proof -
  assume "invar s" "push v s = Some s'"
  then have s': "content s' = v # content s" "invar s'"
    using push_Some by blast+
  then obtain w s'' where pop: "pop s' = Some (w, s'')"
    using pop_None [of s'] by (cases "pop s'") auto
  with pop_Some [OF s'(2) this] s'(1) show ?thesis by simp
qed

lemma pop_Cons:
  assumes "invar s" "content s = v # vs"
  obtains s' where "pop s = Some (v, s')" "content s' = vs" "invar s'"
proof (cases "pop s")
  case None
  then show ?thesis using pop_None [OF assms(1)] assms(2) by simp
next
  case (Some p)
  then obtain w s' where p: "pop s = Some (w, s')" by (cases p) simp
  from pop_Some [OF assms(1) p] assms(2) show ?thesis
    by (intro that [of s']) (simp_all add: p)
qed

lemma push_room:
  assumes "invar s" "length (content s) < limit"
  obtains s' where "push v s = Some s'" "content s' = v # content s" "invar s'"
proof (cases "push v s")
  case None
  then show ?thesis using push_None [OF assms(1)] assms(2) by simp
next
  case (Some s')
  from push_Some [OF assms(1) Some] show ?thesis by (intro that [of s'] Some) simp_all
qed

lemma push_after_pop: "invar s \<Longrightarrow> pop s = Some (v, s') \<Longrightarrow> push w s' \<noteq> None"
  using pop_Some [of s v s'] push_None [of s' w] content_bound [of s] by auto

end

interpretation vm_stack: bounded_stack Stack_new Stack_pop Stack_push stack_content stack_ok stack_limit
proof unfold_locales
  show "stack_ok Stack_new" "stack_content Stack_new = []"
    by (simp_all add: stack_ok_def Stack_new_def stack_content_def)
  fix s v s'
  assume ok: "stack_ok s"
  then show "length (stack_content s) \<le> stack_limit"
    by (simp add: stack_ok_def stack_content_def)
  show "Stack_pop s = None \<longleftrightarrow> stack_content s = []"
    using ok by (auto simp: stack_ok_def stack_content_def Stack_pop_def Let_def stack_limit_def)
  show "Stack_push v s = None \<longleftrightarrow> length (stack_content s) = stack_limit"
    using ok by (auto simp: stack_ok_def stack_content_def Stack_push_def)
  show "Stack_pop s = Some (v, s') \<Longrightarrow> stack_content s = v # stack_content s' \<and> stack_ok s'"
    using ok
    by (cases "stk_pointer s")
      (auto simp: stack_ok_def stack_content_def Stack_pop_def Let_def take_Suc_conv_app_nth)
  show "Stack_push v s = Some s' \<Longrightarrow> stack_content s' = v # stack_content s \<and> stack_ok s'"
    using ok
    by (auto simp: stack_ok_def stack_content_def Stack_push_def take_Suc_conv_app_nth
        split: if_splits)
qed

definition memory_ok :: "Memory \<Rightarrow> bool" where
  "memory_ok m \<longleftrightarrow> length (mem_data m) = memory_limit \<and> unat (mem_size m) \<le> memory_limit"

lemma unat_plus_bounded:
  fixes a b :: u32
  assumes "unat a + unat b \<le> 1024"
  shows "unat (a + b) = unat a + unat b"
  using assms by (simp add: unat_word_ariths)

lemma Memory_expand_Some:
  assumes "Memory_expand off n m = Some (p, m')"
  shows "p = unat off" "unat off + unat n \<le> memory_limit" "mem_data m' = mem_data m"
    "unat (mem_size m') = max (unat (mem_size m)) (unat off + unat n)"
  using assms
  by (auto simp: Memory_expand_def memory_limit_def Let_def unat_plus_bounded word_less_nat_alt
      split: if_splits)

lemma Memory_expand_None:
  "Memory_expand off n m = None \<longleftrightarrow> memory_limit < unat off + unat n"
  by (auto simp: Memory_expand_def memory_limit_def Let_def)

lemma Memory_expand_ok:
  "memory_ok m \<Longrightarrow> Memory_expand off n m = Some (p, m') \<Longrightarrow> memory_ok m'"
  using Memory_expand_Some [of off n m p m'] by (auto simp: memory_ok_def)

lemma expanded_memory_ok: "memory_ok m \<Longrightarrow> memory_ok (expanded_memory (Memory_expand off n m) m)"
  by (auto simp: expanded_memory_def Memory_expand_ok split: option.splits)

lemma Memory_store_Some:
  assumes "memory_ok m" "Memory_store off bs n m = Some (b, m')"
  shows "memory_ok m'"
proof (cases "Memory_expand off n m")
  case None
  then show ?thesis using assms by (simp add: Memory_store_def)
next
  case (Some e)
  obtain p x where e: "e = (p, x)" by (cases e)
  have x: "memory_ok x" "p = unat off" "unat off + unat n \<le> memory_limit"
    using Some e Memory_expand_ok [OF assms(1)] Memory_expand_Some by auto
  then have "length (blit (mem_data x) p (take (unat n) cs)) = length (mem_data x)"
    if "unat n \<le> length cs" for cs
    using that by (intro length_blit) (simp add: memory_ok_def min_absorb2)
  then show ?thesis
    using assms(2) Some e x(1)
    by (auto simp: Memory_store_def memory_ok_def split: option.splits if_splits)
qed

end
