(* ===== verification/VMContract.thy ===== *)
theory VMContract
  imports ExampleVM
begin

text \<open>
  What the example VM promises for every code and message: it returns a result, keeps its stack
  and memory in bounds and the gas in range, frees what the host hands it, and sends the host only
  well-formed calls.

  The locale \<open>execution_host\<close> states what is assumed of the host, as an invariant \<open>K\<close> of the host and
  the heap that its methods keep, a condition \<open>L\<close> of results made on such a heap, and whether the
  execution may fault. It is used twice: with trivial conditions, for what holds with every host,
  and with the conditions that well-behaved hosts such as the mocked host meet.
\<close>

subsection \<open>States of the execution\<close>

text \<open>\<open>n\<close> is the room that is known to be left on the stack, \<open>g\<close> the gas of the message.\<close>

definition vm_ok :: "int \<Rightarrow> ('h \<Rightarrow> heap \<Rightarrow> bool) \<Rightarrow> nat \<Rightarrow> 'h exec_state \<Rightarrow> bool" where
  "vm_ok g K n st \<longleftrightarrow>
    0 \<le> ex_gas_left st \<and> ex_gas_left st \<le> g \<and>
    stack_ok (ex_stack st) \<and> stk_pointer (ex_stack st) + n \<le> stack_limit \<and>
    memory_ok (ex_memory st) \<and> K (ex_host st) (ex_heap st)"

definition result_ok :: "int \<Rightarrow> heap_ptr qrvmc_result \<Rightarrow> bool" where
  "result_ok g r \<longleftrightarrow>
    0 \<le> gas_left r \<and> gas_left r \<le> g \<and> gas_refund r = 0 \<and>
    (status_code r \<notin> {QRVMC_SUCCESS, QRVMC_REVERT} \<longrightarrow> gas_left r = 0)"

text \<open>The calls that the VM makes of a host, whatever message it executes itself.\<close>

definition vm_message :: "view qrvmc_message \<Rightarrow> bool" where
  "vm_message m \<longleftrightarrow> 0 \<le> msg_gas m \<and> msg_depth m \<le> 1024 \<and>
    (\<exists>bs. msg_input_data m = Some bs \<and> msg_input_size m \<le> length bs)"

text \<open>A result whose output can be read.\<close>

definition readable_output :: "heap_ptr qrvmc_result \<Rightarrow> heap \<Rightarrow> bool" where
  "readable_output r hp \<longleftrightarrow>
    output_size r = 0 \<or>
    (\<exists>bs. heap_read (output_data r) hp = Some bs \<and> output_size r \<le> length bs)"

lemma make_result_ok:
  assumes "qrvmc_make_result sc gas 0 out n hp = Some (r, hp')" "0 \<le> gas" "gas \<le> g"
    "sc \<in> {QRVMC_SUCCESS, QRVMC_REVERT} \<or> gas = 0"
  shows "result_ok g r"
  using assms(1)
  by (rule make_result_cases) (use assms(2-) in \<open>auto simp: result_ok_def result_zero_def\<close>)

lemma Stack_pop_Some:
  assumes "Stack_pop s = Some (v, s')" "stack_ok s"
  shows "stack_ok s'" "stk_pointer s = Suc (stk_pointer s')"
  using assms vm_stack.pop_Some [of s v s'] by (auto simp: Stack_pop_def Let_def split: if_splits)

lemma Stack_push_Some:
  assumes "Stack_push v s = Some s'" "stack_ok s"
  shows "stack_ok s'" "stk_pointer s' = Suc (stk_pointer s)"
  using assms vm_stack.push_Some [of s v s'] by (auto simp: Stack_push_def split: if_splits)

lemma Stack_push_room: "stk_pointer s < stack_limit \<Longrightarrow> Stack_push v s \<noteq> None"
  by (simp add: Stack_push_def)

lemma clamp_range: "lo \<le> hi \<Longrightarrow> lo \<le> clamp v lo hi \<and> clamp v lo hi \<le> hi"
  by (simp add: clamp_def)

subsection \<open>The host's side\<close>

locale execution_host =
  fixes host :: "'h host_methods"
    and other :: release_table
    and K :: "'h \<Rightarrow> heap \<Rightarrow> bool"
    and L :: "heap_ptr qrvmc_result \<Rightarrow> 'h \<Rightarrow> heap \<Rightarrow> bool"
    and faulty :: bool
  assumes tx_context: "K h hp \<Longrightarrow>
      (case hi_get_tx_context host h of None \<Rightarrow> faulty | Some (tx, h') \<Rightarrow> K h' hp)"
    and get_storage: "K h hp \<Longrightarrow>
      (case hi_get_storage host a k h of None \<Rightarrow> faulty | Some (v, h') \<Rightarrow> K h' hp)"
    and set_storage: "K h hp \<Longrightarrow>
      (case hi_set_storage host a k v h of None \<Rightarrow> faulty | Some (s, h') \<Rightarrow> K h' hp)"
    and call: "K h hp \<Longrightarrow> vm_message m \<Longrightarrow>
      (case hi_call host m h hp of
         None \<Rightarrow> faulty
       | Some (r, h', hp') \<Rightarrow>
           (faulty \<or> readable_output r hp') \<and>
           (case release r of
              None \<Rightarrow> K h' hp'
            | Some f \<Rightarrow> (case call_release other f r hp' of None \<Rightarrow> faulty | Some hp'' \<Rightarrow> K h' hp'')))"
    and results: "K h hp \<Longrightarrow> n = 0 \<or> (\<exists>bs. out = Some bs \<and> n \<le> length bs) \<Longrightarrow>
      qrvmc_make_result sc gas 0 out n hp = Some (r, hp') \<Longrightarrow> L r h hp'"

text \<open>What an execution of a message with gas \<open>g\<close> ends with.\<close>

definition ends_ok ::
    "int \<Rightarrow> (heap_ptr qrvmc_result \<Rightarrow> 'h \<Rightarrow> heap \<Rightarrow> bool) \<Rightarrow> heap_ptr qrvmc_result \<Rightarrow> 'h \<Rightarrow> heap \<Rightarrow>
      bool" where
  "ends_ok g L r h hp \<longleftrightarrow> result_ok g r \<and> L r h hp"

context execution_host
begin

lemma finish_ok:
  assumes "vm_ok g K n st" "sc \<in> {QRVMC_SUCCESS, QRVMC_REVERT}"
    and "k = 0 \<or> (\<exists>bs. out = Some bs \<and> k \<le> length bs)"
  shows "outcome_sat P (ends_ok g L) faulty (finish sc (ex_gas_left st) out k st)"
proof -
  have "view_covers out k"
    using assms(3) by auto
  then obtain r hp where "qrvmc_make_result sc (ex_gas_left st) 0 out k (ex_heap st) = Some (r, hp)"
    by (rule make_result_returns)
  then show ?thesis
    using assms make_result_ok [of sc "ex_gas_left st" out k "ex_heap st" r hp g]
      results [of "ex_host st" "ex_heap st" k out sc "ex_gas_left st" r hp]
    by (simp add: finish_sat vm_ok_def ends_ok_def)
qed

lemma fail_ok:
  assumes "K (ex_host st) (ex_heap st)" "0 \<le> g"
  shows "outcome_sat P (ends_ok g L) faulty (fail_with sc st)"
  using assms make_result_ok [of sc 0 None 0 "ex_heap st" _ _ g]
    results [of "ex_host st" "ex_heap st" 0 None sc 0]
  by (simp add: fail_with_def finish_sat ends_ok_def)

lemma fail_vm_ok: "vm_ok g K n st \<Longrightarrow> outcome_sat P (ends_ok g L) faulty (fail_with sc st)"
  by (rule fail_ok) (auto simp: vm_ok_def)

lemma pop_ok:
  assumes "vm_ok g K n st"
    and "\<And>v st'. vm_ok g K (Suc n) st' \<Longrightarrow> outcome_sat P (ends_ok g L) faulty (k v st')"
  shows "outcome_sat P (ends_ok g L) faulty (pop_then st k)"
proof (rule pop_then_sat)
  show "outcome_sat P (ends_ok g L) faulty (fail_with QRVMC_STACK_UNDERFLOW st)"
    using assms(1) by (rule fail_vm_ok)
next
  fix v s
  assume "Stack_pop (ex_stack st) = Some (v, s)"
  then have "vm_ok g K (Suc n) (st\<lparr>ex_stack := s\<rparr>)"
    using assms(1) Stack_pop_Some [of "ex_stack st" v s] by (auto simp: vm_ok_def)
  then show "outcome_sat P (ends_ok g L) faulty (k v (st\<lparr>ex_stack := s\<rparr>))"
    by (rule assms(2))
qed

lemma push_ok:
  assumes "vm_ok g K n st"
    and "\<And>st'. vm_ok g K 0 st' \<Longrightarrow> outcome_sat P (ends_ok g L) faulty (k st')"
  shows "outcome_sat P (ends_ok g L) faulty (push_then v st k)"
proof (rule push_then_sat)
  show "outcome_sat P (ends_ok g L) faulty (fail_with QRVMC_STACK_OVERFLOW st)"
    using assms(1) by (rule fail_vm_ok)
next
  fix s
  assume "Stack_push v (ex_stack st) = Some s"
  then have "vm_ok g K 0 (st\<lparr>ex_stack := s\<rparr>)"
    using assms(1) Stack_push_Some [of v "ex_stack st" s] by (auto simp: vm_ok_def stack_ok_def)
  then show "outcome_sat P (ends_ok g L) faulty (k (st\<lparr>ex_stack := s\<rparr>))"
    by (rule assms(2))
qed

lemma next_ok: "vm_ok g K n st \<Longrightarrow> outcome_sat (vm_ok g K 0) (ends_ok g L) faulty (Next st)"
  by (simp add: vm_ok_def)

lemma do_call_ok:
  assumes st: "vm_ok g K (Suc n) st" and m: "vm_message m" "msg_gas m \<le> ex_gas_left st"
    and out: "unat out_off + unat out_n \<le> memory_limit"
  shows "outcome_sat (vm_ok g K 0) (ends_ok g L) faulty (do_call host other m out_off out_n st)"
proof (cases "hi_call host m (ex_host st) (ex_heap st)")
  case None
  then show ?thesis
    using call [of "ex_host st" "ex_heap st" m] st m(1) by (simp add: do_call_def vm_ok_def)
next
  case (Some res)
  obtain r h hp where res: "res = (r, h, hp)" by (cases res)
  have host: "faulty \<or> readable_output r hp"
    "release r = None \<Longrightarrow> K h hp"
    "release r = Some f \<Longrightarrow> (case call_release other f r hp of None \<Rightarrow> faulty | Some hp'' \<Rightarrow> K h hp'')" for f
    using call [of "ex_host st" "ex_heap st" m] st m(1) Some
    by (auto simp: vm_ok_def res)
  define gas where "gas = ex_gas_left st - msg_gas m + clamp (gas_left r) 0 (msg_gas m)"
  have gas: "0 \<le> gas" "gas \<le> g"
    using clamp_range [of 0 "msg_gas m" "gas_left r"] m st
    by (auto simp: gas_def vm_message_def vm_ok_def)
  obtain s where push: "Stack_push (to_uint512 (if status_code r = QRVMC_SUCCESS then 1 else 0))
      (ex_stack st) = Some s"
    using Stack_push_room [of "ex_stack st"] st by (fastforce simp: vm_ok_def)
  then have s: "stack_ok s" "stk_pointer s \<le> stack_limit"
    using Stack_push_Some [OF push] st by (auto simp: vm_ok_def)
  define k where "k = (if unat out_n > output_size r then word_of_nat (output_size r) else out_n)"
  have "unat (word_of_nat n :: u32) \<le> n" for n
    by (simp add: unsigned_of_nat)
  then have k: "unat k \<le> output_size r" "unat k \<le> unat out_n"
    by (auto simp: k_def not_less intro: order_trans [OF _ less_imp_le])
  have store: "\<exists>b x. Memory_store out_off (heap_read (output_data r) hp) k (ex_memory st) = Some (b, x) \<and>
      memory_ok x" if "\<not> faulty"
  proof -
    obtain p x where "Memory_expand out_off k (ex_memory st) = Some (p, x)"
      using k out Memory_expand_None [of out_off k "ex_memory st"]
      by (cases "Memory_expand out_off k (ex_memory st)") auto
    moreover have "k = 0 \<or> (\<exists>bs. heap_read (output_data r) hp = Some bs \<and> unat k \<le> length bs)"
      using host(1) that k by (auto simp: readable_output_def unat_eq_0)
    ultimately have "Memory_store out_off (heap_read (output_data r) hp) k (ex_memory st) \<noteq> None"
      by (auto simp: Memory_store_def)
    then show ?thesis
      using Memory_store_Some st by (fastforce simp: vm_ok_def)
  qed
  show ?thesis
  proof (cases "Memory_store out_off (heap_read (output_data r) hp) k (ex_memory st)")
    case None
    then show ?thesis
      using store by (auto simp: do_call_def Some res Let_def push_then_def push k_def)
  next
    case (Some bx)
    obtain b x where bx: "bx = (b, x)" by (cases bx)
    have "memory_ok x"
      using Memory_store_Some Some st by (auto simp: bx vm_ok_def)
    then show ?thesis
      using \<open>hi_call host m (ex_host st) (ex_heap st) = Some res\<close> Some gas s host(2,3) st
      by (cases "release r")
        (auto simp: do_call_def res bx Let_def push_then_def push vm_ok_def
          simp flip: k_def gas_def split: option.splits)
  qed
qed

lemma call_output_ok:
  assumes st: "vm_ok g K n st" and depth: "msg_depth msg < 1024"
    and input: "\<And>e. input_ptr = Some e \<Longrightarrow> fst e + unat in_size \<le> memory_limit"
  shows "outcome_sat (vm_ok g K 0) (ends_ok g L) faulty
    (call_output host other msg gas recipient call_value input_ptr in_size st)"
  unfolding call_output_def Let_def
proof (rule pop_ok [OF st], rule pop_ok, assumption, rule if_sat)
  fix out_off out_size s t
  assume t: "vm_ok g K (Suc (Suc n)) t"
  let ?out = "Memory_expand (to_uint32 out_off) (to_uint32 out_size) (ex_memory t)"
  let ?t = "t\<lparr>ex_memory := expanded_memory ?out (ex_memory t)\<rparr>"
  have ok: "vm_ok g K (Suc (Suc n)) ?t"
    using t expanded_memory_ok by (auto simp: vm_ok_def)
  then show "outcome_sat (vm_ok g K 0) (ends_ok g L) faulty (fail_with QRVMC_FAILURE ?t)"
    by (rule fail_vm_ok)
  assume both: "\<not> (input_ptr = None \<or> ?out = None)"
  obtain q y where out: "?out = Some (q, y)"
    using both by (cases ?out) auto
  have "length (mem_data (ex_memory ?t)) = memory_limit" "0 \<le> ex_gas_left ?t"
    using ok unfolding vm_ok_def memory_ok_def by blast+
  then show "outcome_sat (vm_ok g K 0) (ends_ok g L) faulty
      (do_call host other (call_message msg gas recipient call_value (fst (the input_ptr)) in_size ?t)
        (to_uint32 out_off) (to_uint32 out_size) ?t)"
    using Memory_expand_Some(2) [OF out] input [of "the input_ptr"] both depth
    by (intro do_call_ok [OF ok]) (auto simp: vm_message_def call_message_def)
qed

lemma call_input_ok:
  assumes st: "vm_ok g K n st" and depth: "msg_depth msg < 1024"
  shows "outcome_sat (vm_ok g K 0) (ends_ok g L) faulty
    (call_input host other msg gas recipient call_value st)"
  unfolding call_input_def Let_def
proof (rule pop_ok [OF st], rule pop_ok, assumption, rule call_output_ok [OF _ depth])
  fix in_off in_size s t
  assume t: "vm_ok g K (Suc (Suc n)) t"
  let ?in = "Memory_expand (to_uint32 in_off) (to_uint32 in_size) (ex_memory t)"
  show "vm_ok g K (Suc (Suc n)) (t\<lparr>ex_memory := expanded_memory ?in (ex_memory t)\<rparr>)"
    using t expanded_memory_ok by (auto simp: vm_ok_def)
  show "fst e + unat (to_uint32 in_size) \<le> memory_limit" if "?in = Some e" for e
    using Memory_expand_Some(1,2) [of "to_uint32 in_off" "to_uint32 in_size" "ex_memory t"] that
    by (cases e) auto
qed

lemma op_call_ok:
  assumes "vm_ok g K n st"
  shows "outcome_sat (vm_ok g K 0) (ends_ok g L) faulty (op_call host other msg st)"
  unfolding op_call_def
  by (rule pop_ok [OF assms] pop_ok if_sat fail_vm_ok call_input_ok | assumption | simp)+

lemma op_return_ok:
  assumes "vm_ok g K n st" "sc \<in> {QRVMC_SUCCESS, QRVMC_REVERT}"
  shows "outcome_sat (vm_ok g K 0) (ends_ok g L) faulty (op_return sc st)"
  unfolding op_return_def
  by (rule pop_ok [OF assms(1)] pop_ok let_sat option_sat prod_sat finish_ok [OF _ assms(2)]
      fail_vm_ok | assumption)+
    (auto simp: Memory_expand_def memory_ok_def vm_ok_def memory_limit_def Let_def split: if_splits)

lemma op_calldataload_ok:
  assumes "vm_ok g K n st" "faulty \<or> message_ok msg"
  shows "outcome_sat (vm_ok g K 0) (ends_ok g L) faulty (op_calldataload msg st)"
  unfolding op_calldataload_def
proof (rule pop_ok [OF assms(1)])
  fix v st'
  assume st': "vm_ok g K (Suc n) st'"
  have push: "outcome_sat (vm_ok g K 0) (ends_ok g L) faulty (push_then w st' Next)" for w
    by (rule push_ok [OF st'] next_ok)+
  have readable: "faulty \<or> (\<exists>bs. msg_input_data msg = Some bs \<and> msg_input_size msg \<le> length bs)"
    if "unat (to_uint32 v) < msg_input_size msg"
    using assms(2) that by (auto simp: message_ok_def split: option.splits)
  show "outcome_sat (vm_ok g K 0) (ends_ok g L) faulty
    (let offset = unat (to_uint32 v) in
     if offset < msg_input_size msg then
       let copy_size = min (msg_input_size msg - offset) 64 in
       (case msg_input_data msg of
          None \<Rightarrow> Fault
        | Some input \<Rightarrow>
            if offset + copy_size \<le> length input
            then push_then (bytes64_of_bytes
              (blit (bytes64_bytes bytes64_zero) 0 (take copy_size (drop offset input)))) st' Next
            else Fault)
     else push_then bytes64_zero st' Next)"
    using readable push by (auto simp: Let_def min_def split: option.splits)
qed

lemma op_host_ok:
  assumes "vm_ok g K n st"
  shows "outcome_sat (vm_ok g K 0) (ends_ok g L) faulty (op_number host st)"
    and "outcome_sat (vm_ok g K 0) (ends_ok g L) faulty (op_sload host msg st)"
    and "outcome_sat (vm_ok g K 0) (ends_ok g L) faulty (op_sstore host msg st)"
proof -
  have push: "outcome_sat (vm_ok g K 0) (ends_ok g L) faulty (push_then w (s\<lparr>ex_host := h\<rparr>) Next)"
    if "vm_ok g K m s" "K h (ex_heap s)" for w s h m
  proof -
    have "vm_ok g K m (s\<lparr>ex_host := h\<rparr>)"
      using that by (simp add: vm_ok_def)
    then show ?thesis by (rule push_ok) (rule next_ok)
  qed
  show "outcome_sat (vm_ok g K 0) (ends_ok g L) faulty (op_number host st)"
    using tx_context [of "ex_host st" "ex_heap st"] assms push [OF assms]
    by (auto simp: op_number_def vm_ok_def split: option.splits)
  show "outcome_sat (vm_ok g K 0) (ends_ok g L) faulty (op_sload host msg st)"
    unfolding op_sload_def
  proof (rule pop_ok [OF assms])
    fix v s
    assume s: "vm_ok g K (Suc n) s"
    show "outcome_sat (vm_ok g K 0) (ends_ok g L) faulty
      (case hi_get_storage host (msg_recipient msg) v (ex_host s) of
         None \<Rightarrow> Fault | Some (val, h) \<Rightarrow> push_then val (s\<lparr>ex_host := h\<rparr>) Next)"
      using get_storage [of "ex_host s" "ex_heap s" "msg_recipient msg" v] s push [OF s]
      by (auto simp: vm_ok_def split: option.splits)
  qed
  show "outcome_sat (vm_ok g K 0) (ends_ok g L) faulty (op_sstore host msg st)"
    unfolding op_sstore_def
  proof (rule pop_ok [OF assms], rule pop_ok, assumption, rule if_sat)
    fix v w s t
    assume t: "vm_ok g K (Suc (Suc n)) t"
    then show "outcome_sat (vm_ok g K 0) (ends_ok g L) faulty (fail_with QRVMC_STATIC_MODE_VIOLATION t)"
      by (rule fail_vm_ok)
    show "outcome_sat (vm_ok g K 0) (ends_ok g L) faulty
      (case hi_set_storage host (msg_recipient msg) v w (ex_host t) of
         None \<Rightarrow> Fault | Some (status, h) \<Rightarrow> Next (t\<lparr>ex_host := h\<rparr>))"
      using set_storage [of "ex_host t" "ex_heap t" "msg_recipient msg" v w] t
      by (auto simp: vm_ok_def split: option.splits)
  qed
qed

lemma op_mstore_ok:
  assumes "vm_ok g K n st"
  shows "outcome_sat (vm_ok g K 0) (ends_ok g L) faulty (op_mstore st)"
  unfolding op_mstore_def
proof (rule pop_ok [OF assms], rule pop_ok, assumption)
  fix v w s t
  assume t: "vm_ok g K (Suc (Suc n)) t"
  have "Memory_store (to_uint32 v) (Some (bytes64_bytes w)) 64 (ex_memory t) \<noteq> None"
    by (auto simp: Memory_store_def split: option.splits)
  then show "outcome_sat (vm_ok g K 0) (ends_ok g L) faulty
    (case Memory_store (to_uint32 v) (Some (bytes64_bytes w)) 64 (ex_memory t) of
       None \<Rightarrow> Fault
     | Some (stored, m) \<Rightarrow> if stored then Next (t\<lparr>ex_memory := m\<rparr>) else fail_with QRVMC_FAILURE t)"
    using t fail_vm_ok [OF t] Memory_store_Some
    by (auto simp: vm_ok_def split: option.splits)
qed

lemma execute_instruction_ok:
  assumes "vm_ok g K n st" "faulty \<or> message_ok msg"
  shows "outcome_sat (vm_ok g K 0) (ends_ok g L) faulty (execute_instruction host other msg code st)"
proof -
  have push: "outcome_sat (vm_ok g K 0) (ends_ok g L) faulty (push_then w s Next)"
    if "vm_ok g K m s" for w m s
    by (rule push_ok [OF that] next_ok)+
  have "vm_ok g K n (st\<lparr>ex_pc := p\<rparr>)" for p
    using assms(1) by (simp add: vm_ok_def)
  then have "outcome_sat (vm_ok g K 0) (ends_ok g L) faulty (op_push code st)"
    by (auto simp: op_push_def Let_def intro: push)
  moreover have "outcome_sat (vm_ok g K 0) (ends_ok g L) faulty (op_add st)"
    unfolding op_add_def Let_def by (rule pop_ok [OF assms(1)] pop_ok push | assumption)+
  moreover have "outcome_sat (vm_ok g K 0) (ends_ok g L) faulty (op_dup1 st)"
    unfolding op_dup1_def by (rule pop_ok [OF assms(1)] push_ok next_ok | assumption)+
  moreover have "outcome_sat (vm_ok g K 0) (ends_ok g L) faulty (op_address msg st)"
    "outcome_sat (vm_ok g K 0) (ends_ok g L) faulty (op_msize st)"
    unfolding op_address_def op_msize_def using assms(1) by (auto intro: push)
  ultimately show ?thesis
    unfolding execute_instruction_def Let_def
    using op_call_ok [OF assms(1)] op_host_ok [OF assms(1)] op_mstore_ok [OF assms(1)]
      op_calldataload_ok [OF assms] op_return_ok [OF assms(1)] finish_ok [OF assms(1)]
      fail_vm_ok [OF assms(1)]
    by (auto intro!: if_sat)
qed

lemma execute_loop_ok:
  assumes "vm_ok g K n st" "faulty \<or> message_ok msg"
  shows "outcome_sat (\<lambda>_. False) (ends_ok g L) faulty (execute_loop host other msg code st)"
  using assms(1)
proof (induction "length code - ex_pc st" arbitrary: st n rule: less_induct)
  case less
  let ?st = "st\<lparr>ex_gas_left := ex_gas_left st - 1\<rparr>"
  have fin: "outcome_sat (\<lambda>_. False) (ends_ok g L) faulty (finish QRVMC_SUCCESS (ex_gas_left st) None 0 st)"
    using finish_ok [OF less.prems] by simp
  have oog: "outcome_sat (\<lambda>_. False) (ends_ok g L) faulty (fail_with QRVMC_OUT_OF_GAS ?st)"
    by (rule fail_ok) (use less.prems in \<open>auto simp: vm_ok_def\<close>)
  have body: "outcome_sat (\<lambda>_. False) (ends_ok g L) faulty
      (case execute_instruction host other msg code ?st of
         Next st' \<Rightarrow> execute_loop host other msg code (st'\<lparr>ex_pc := ex_pc st' + 1\<rparr>) | out \<Rightarrow> out)"
    if pc: "ex_pc st < length code" and gas: "0 \<le> ex_gas_left ?st"
  proof -
    have "vm_ok g K n ?st"
      using less.prems gas by (simp add: vm_ok_def)
    from execute_instruction_ok [OF this assms(2), of code]
    have sat: "outcome_sat (vm_ok g K 0) (ends_ok g L) faulty (execute_instruction host other msg code ?st)" .
    show ?thesis
    proof (cases "execute_instruction host other msg code ?st")
      case (Next st')
      have "ex_pc st \<le> ex_pc st'"
        using execute_instruction_pc_Next [OF Next] by simp
      moreover have "vm_ok g K 0 (st'\<lparr>ex_pc := ex_pc st' + 1\<rparr>)"
        using sat Next by (simp add: vm_ok_def)
      ultimately show ?thesis
        using less.hyps [of "st'\<lparr>ex_pc := ex_pc st' + 1\<rparr>" 0] pc Next by simp
    qed (use sat in simp_all)
  qed
  show ?case
    unfolding execute_loop.simps [of host other msg code st]
    using fin oog body by (simp add: Let_def)
qed

text \<open>The whole execution, also for a message with negative gas, which is refused.\<close>

lemma execute_ok:
  assumes "K h hp" "faulty \<or> message_ok msg"
  shows "outcome_sat (\<lambda>_. False) (ends_ok (max 0 (msg_gas msg)) L) faulty
    (execute host other msg code h hp)"
proof (cases "msg_gas msg < 0")
  case True
  then show ?thesis
    using fail_ok [of "execute_start msg h hp" "max 0 (msg_gas msg)"] assms(1)
    by (simp add: execute_def execute_start_def)
next
  case False
  then have "vm_ok (msg_gas msg) K 0 (execute_start msg h hp)"
    using assms(1) vm_stack.new_invar
    by (simp add: vm_ok_def execute_start_def memory_ok_def Memory_new_def Stack_new_def)
  from execute_loop_ok [OF this assms(2), of code] False show ?thesis
    by (simp add: execute_def execute_start_def max_def)
qed

end

subsection \<open>Hosts\<close>

text \<open>Whatever the host does, what does not depend on it holds.\<close>

interpretation any_host: execution_host host other "\<lambda>_ _. True" "\<lambda>_ _ _. True" True
  for host :: "'h host_methods" and other :: release_table
  by unfold_locales (auto split: option.splits)

text \<open>
  A well-behaved host, with an invariant of its own: its methods return, and a call of a message
  as the VM sends them returns a result whose output can be read and whose release gives back
  exactly the memory that the call allocated.
\<close>

definition host_contract :: "'h host_methods \<Rightarrow> release_table \<Rightarrow> ('h \<Rightarrow> bool) \<Rightarrow> bool" where
  "host_contract host other I \<longleftrightarrow>
    (\<forall>h. I h \<longrightarrow> (\<exists>tx h'. hi_get_tx_context host h = Some (tx, h') \<and> I h')) \<and>
    (\<forall>h a k. I h \<longrightarrow> (\<exists>v h'. hi_get_storage host a k h = Some (v, h') \<and> I h')) \<and>
    (\<forall>h a k v. I h \<longrightarrow> (\<exists>s h'. hi_set_storage host a k v h = Some (s, h') \<and> I h')) \<and>
    (\<forall>h hp m. I h \<longrightarrow> heap_ok hp \<longrightarrow> vm_message m \<longrightarrow>
      (\<exists>r h' hp' hp''. hi_call host m h hp = Some (r, h', hp') \<and> I h' \<and> readable_output r hp' \<and>
        qrvmc_release_result other r hp' = Some hp'' \<and> heap_ok hp'' \<and>
        heap_blocks hp'' = heap_blocks hp))"

definition contract_state ::
    "('h \<Rightarrow> bool) \<Rightarrow> (nat \<Rightarrow> u8 list option) \<Rightarrow> 'h \<Rightarrow> heap \<Rightarrow> bool" where
  "contract_state I blocks h hp \<longleftrightarrow> I h \<and> heap_ok hp \<and> heap_blocks hp = blocks"

text \<open>
  A result that owns at most one block, beyond \<open>blocks\<close>, that holds its output, and has the function
  that frees it.
\<close>

definition owned_result :: "(nat \<Rightarrow> u8 list option) \<Rightarrow> heap_ptr qrvmc_result \<Rightarrow> heap \<Rightarrow> bool" where
  "owned_result blocks r hp \<longleftrightarrow>
    heap_ok hp \<and>
    (release r = None \<and> output_size r = 0 \<and> heap_blocks hp = blocks \<or>
     (\<exists>p bs. release r = Some Qrvmc_free_result_memory \<and> output_data r = Some p \<and> blocks p = None \<and>
       heap_blocks hp = blocks(p \<mapsto> bs) \<and> output_size r \<le> length bs))"

definition contract_result ::
    "('h \<Rightarrow> bool) \<Rightarrow> (nat \<Rightarrow> u8 list option) \<Rightarrow> heap_ptr qrvmc_result \<Rightarrow> 'h \<Rightarrow> heap \<Rightarrow> bool" where
  "contract_result I blocks r h hp \<longleftrightarrow> I h \<and> owned_result blocks r hp"

lemma make_result_owned:
  assumes "heap_ok hp" "n = 0 \<or> (\<exists>bs. out = Some bs \<and> n \<le> length bs)"
    "qrvmc_make_result sc gas gr out n hp = Some (r, hp')"
  shows "owned_result (heap_blocks hp) r hp'"
  using assms(3)
  by (rule make_result_cases)
    (use assms(1,2) heap_ok_fresh [OF assms(1)] in
      \<open>auto simp: owned_result_def result_zero_def heap_ok_def less_Suc_eq\<close>)

lemma owned_result_released:
  assumes "owned_result blocks r hp"
  shows "\<exists>hp'. qrvmc_release_result other r hp = Some hp' \<and> heap_ok hp' \<and> heap_blocks hp' = blocks"
  using assms
  by (auto simp: owned_result_def qrvmc_release_result_def call_release_def qrvmc_free_result_memory_def
      heap_free_def heap_ok_def fun_upd_idem)

lemma owned_result_readable: "owned_result blocks r hp \<Longrightarrow> readable_output r hp"
  by (auto simp: owned_result_def readable_output_def heap_read_def)

lemma make_result_released:
  assumes "heap_ok hp" "qrvmc_make_result sc gas gr out n hp = Some (r, hp')"
  shows "\<exists>hp''. qrvmc_release_result other r hp' = Some hp'' \<and> heap_ok hp'' \<and>
    heap_blocks hp'' = heap_blocks hp"
proof -
  have fresh: "(heap_blocks hp)(heap_next hp := None) = heap_blocks hp"
    using heap_ok_fresh [OF assms(1)] by (simp add: fun_upd_idem)
  from assms(2) show ?thesis
    by (rule make_result_cases)
      (use assms(1) in \<open>auto simp: qrvmc_release_result_def result_zero_def call_release_def
        qrvmc_free_result_memory_def heap_free_def fresh heap_ok_def less_Suc_eq\<close>)
qed

lemma host_contract_execution:
  assumes "host_contract host other I"
  shows "execution_host host other (contract_state I blocks) (contract_result I blocks) False"
proof
  fix h hp
  assume "contract_state I blocks h hp"
  then have st: "I h" "heap_ok hp" "heap_blocks hp = blocks"
    by (simp_all add: contract_state_def)
  have "\<exists>tx h'. hi_get_tx_context host h = Some (tx, h') \<and> I h'"
    using assms st unfolding host_contract_def by blast
  then show "case hi_get_tx_context host h of None \<Rightarrow> False | Some (tx, h') \<Rightarrow> contract_state I blocks h' hp"
    using st by (auto simp: contract_state_def)
  show "case hi_get_storage host a k h of None \<Rightarrow> False | Some (v, h') \<Rightarrow> contract_state I blocks h' hp"
    for a k
  proof -
    have "\<exists>v h'. hi_get_storage host a k h = Some (v, h') \<and> I h'"
      using assms st unfolding host_contract_def by blast
    then show ?thesis using st by (auto simp: contract_state_def)
  qed
  show "case hi_set_storage host a k v h of None \<Rightarrow> False | Some (s, h') \<Rightarrow> contract_state I blocks h' hp"
    for a k v
  proof -
    have "\<exists>s h'. hi_set_storage host a k v h = Some (s, h') \<and> I h'"
      using assms st unfolding host_contract_def by blast
    then show ?thesis using st by (auto simp: contract_state_def)
  qed
  show "contract_result I blocks r h hp'" if "n = 0 \<or> (\<exists>bs. out = Some bs \<and> n \<le> length bs)" "qrvmc_make_result sc gas 0 out n hp = Some (r, hp')"
    for sc gas out n r hp'
    using make_result_owned [OF st(2) that] st by (simp add: contract_result_def)
  fix m
  assume "vm_message m"
  then obtain r h' hp' hp'' where "hi_call host m h hp = Some (r, h', hp')" "I h'"
      "readable_output r hp'" "qrvmc_release_result other r hp' = Some hp''" "heap_ok hp''"
      "heap_blocks hp'' = heap_blocks hp"
    using assms st unfolding host_contract_def by meson
  note res = this
  show "case hi_call host m h hp of
      None \<Rightarrow> False
    | Some (r, h', hp') \<Rightarrow>
        (False \<or> readable_output r hp') \<and>
        (case release r of
           None \<Rightarrow> contract_state I blocks h' hp'
         | Some f \<Rightarrow>
             (case call_release other f r hp' of
                None \<Rightarrow> False | Some hp'' \<Rightarrow> contract_state I blocks h' hp''))"
    using res st(3)
    by (cases "release r") (simp_all add: qrvmc_release_result_def contract_state_def)
qed

text \<open>The mocked host is one, as long as the output of its canned result can be read.\<close>

lemma mocked_host_call_contract:
  assumes "heap_ok hp" "canned_ok h" "vm_message m"
  shows "\<exists>r h' hp' hp''. mocked_call m h hp = Some (r, h', hp') \<and> canned_ok h' \<and> readable_output r hp' \<and>
    qrvmc_release_result other r hp' = Some hp'' \<and> heap_ok hp'' \<and> heap_blocks hp'' = heap_blocks hp"
proof -
  have "view_covers (msg_input_data m) (msg_input_size m)"
    using assms(3) by (auto simp: vm_message_def)
  then obtain h' where h': "record_call m (record_account_access (msg_recipient m) h) = Some h'"
    by (rule record_call_returns)
  let ?cr = "mh_call_result h'"
  have ok: "canned_ok h'"
    using record_call_canned [OF h'] assms(2) canned_ok_simps(1) [of "msg_recipient m" h]
    by (simp add: canned_ok_def)
  then obtain r hp' where make: "qrvmc_make_result (status_code ?cr) (gas_left ?cr) (gas_refund ?cr)
      (output_data ?cr) (output_size ?cr) hp = Some (r, hp')"
    unfolding canned_ok_def by (rule make_result_returns)
  let ?r = "set_optional_storage (optional_storage ?cr) r"
  obtain hp'' where rel: "qrvmc_release_result other r hp' = Some hp''" "heap_ok hp''"
      "heap_blocks hp'' = heap_blocks hp"
    using make_result_released [OF assms(1) make] by blast
  have "readable_output ?r hp'"
    using make
    by (rule make_result_cases)
      (auto simp: readable_output_def set_optional_storage_def result_zero_def heap_read_def)
  moreover have "qrvmc_release_result other ?r hp' = Some hp''"
    using make
    by (rule make_result_cases)
      (use rel in \<open>auto simp: qrvmc_release_result_def set_optional_storage_def result_zero_def
        call_release_def qrvmc_free_result_memory_def\<close>)
  ultimately show ?thesis
    using ok rel make h' by (simp add: mocked_call_def Let_def)
qed

lemma mocked_host_contract: "host_contract (Host_get_interface mocked_methods) other canned_ok"
proof -
  have call: "internal_call mocked_methods m h hp = mocked_call m h hp" for m h hp
    by (cases "mocked_call m h hp")
      (simp_all add: internal_call_def mocked_methods_def Result_release_raw_def Let_def
        split: prod.splits)
  have methods: "hi_call (Host_get_interface mocked_methods) m h hp = mocked_call m h hp"
    "hi_get_tx_context (Host_get_interface mocked_methods) h = Some (mh_tx_context h, h)"
    "hi_get_storage (Host_get_interface mocked_methods) a k h = Some (mocked_get_storage a k h)"
    "hi_set_storage (Host_get_interface mocked_methods) a k v h = mocked_set_storage a k v h"
    for m h hp a k v
    by (simp add: Host_get_interface_def call)
      (simp_all add: Host_get_interface_def mocked_methods_def mocked_get_tx_context_def)
  show ?thesis
    unfolding host_contract_def methods
    using mocked_host_call_contract [of _ _ _ other]
    by (simp add: get_storage_eq set_storage_eq Let_def)
qed

interpretation mocked_execution:
  execution_host "Host_get_interface mocked_methods" other "contract_state canned_ok blocks"
    "contract_result canned_ok blocks" False
  for other blocks
  by (rule host_contract_execution) (rule mocked_host_contract)

subsection \<open>Calls and writes\<close>

text \<open>The calls that an execution of the message \<open>msg\<close> may make.\<close>

definition child_message :: "view qrvmc_message \<Rightarrow> view qrvmc_message \<Rightarrow> bool" where
  "child_message msg m \<longleftrightarrow>
    msg_kind m = QRVMC_CALL \<and> msg_flags m = msg_flags msg \<and>
    msg_depth m = msg_depth msg + 1 \<and> msg_depth m \<le> 1024 \<and>
    0 \<le> msg_gas m \<and> msg_gas m \<le> msg_gas msg \<and> msg_gas m < 2 ^ 32 \<and>
    msg_sender m = msg_recipient msg \<and> msg_code_address m = msg_recipient m \<and>
    (is_static msg \<longrightarrow> vm_is_zero (msg_value m)) \<and>
    (\<exists>bs. msg_input_data m = Some bs \<and> msg_input_size m \<le> length bs \<and> length bs \<le> 1024)"

text \<open>
  A host that is replaced by \<open>no_call\<close> and \<open>no_write\<close> outside what an execution of \<open>msg\<close> may ask of
  it.
\<close>

definition guarded_host ::
    "view qrvmc_message \<Rightarrow>
      (view qrvmc_message \<Rightarrow> 'h \<Rightarrow> heap \<Rightarrow> (heap_ptr qrvmc_result \<times> 'h \<times> heap) option) \<Rightarrow>
      (qrvmc_address \<Rightarrow> qrvmc_bytes64 \<Rightarrow> qrvmc_bytes64 \<Rightarrow> 'h \<Rightarrow> (qrvmc_storage_status \<times> 'h) option) \<Rightarrow>
      'h host_methods \<Rightarrow> 'h host_methods" where
  "guarded_host msg no_call no_write host =
    host\<lparr>hi_call := \<lambda>m h hp. if child_message msg m then hi_call host m h hp else no_call m h hp,
         hi_set_storage := \<lambda>a k v h.
           if \<not> is_static msg \<and> a = msg_recipient msg then hi_set_storage host a k v h
           else no_write a k v h\<rparr>"

lemma pop_then_eq:
  assumes "vm_ok g (\<lambda>_ _. True) n st"
    and "\<And>v s. vm_ok g (\<lambda>_ _. True) (Suc n) s \<Longrightarrow> k v s = k' v s"
  shows "pop_then st k = pop_then st k'"
  using assms Stack_pop_Some [of "ex_stack st"]
  by (auto simp: pop_then_def vm_ok_def split: option.splits)

lemma do_call_guarded:
  "child_message msg m \<Longrightarrow>
    do_call (guarded_host msg no_call no_write host) other m off n st = do_call host other m off n st"
  by (simp add: do_call_def guarded_host_def)

lemma op_sstore_guarded:
  "op_sstore (guarded_host msg no_call no_write host) msg st = op_sstore host msg st"
  unfolding op_sstore_def by (simp add: guarded_host_def cong: if_cong)

lemma call_output_guarded:
  fixes host :: "'h host_methods"
  assumes st: "vm_ok (msg_gas msg) (\<lambda>_ _. True) n st" and depth: "msg_depth msg < 1024"
    and static: "is_static msg \<longrightarrow> vm_is_zero call_value"
    and input: "\<And>e. input_ptr = Some e \<Longrightarrow> fst e + unat in_size \<le> memory_limit"
  shows "call_output (guarded_host msg no_call no_write host) other msg gas recipient call_value
      input_ptr in_size st =
    call_output host other msg gas recipient call_value input_ptr in_size st"
  unfolding call_output_def Let_def
proof (rule pop_then_eq [OF st], rule pop_then_eq, assumption, rule if_cong [OF refl refl])
  fix out_off out_size and s t :: "'h exec_state"
  assume t: "vm_ok (msg_gas msg) (\<lambda>_ _. True) (Suc (Suc n)) t"
  let ?out = "Memory_expand (to_uint32 out_off) (to_uint32 out_size) (ex_memory t)"
  let ?t = "t\<lparr>ex_memory := expanded_memory ?out (ex_memory t)\<rparr>"
  assume both: "\<not> (input_ptr = None \<or> ?out = None)"
  have "length (mem_data (ex_memory ?t)) = 1024" "0 \<le> ex_gas_left ?t" "ex_gas_left ?t \<le> msg_gas msg"
    using t expanded_memory_ok [of "ex_memory t" "to_uint32 out_off" "to_uint32 out_size"]
    by (auto simp: vm_ok_def memory_ok_def memory_limit_def)
  moreover have "uint gas < 2 ^ 32" "0 \<le> uint gas"
    using uint_bounded [of gas] by simp_all
  ultimately show "do_call (guarded_host msg no_call no_write host) other
      (call_message msg gas recipient call_value (fst (the input_ptr)) in_size ?t)
      (to_uint32 out_off) (to_uint32 out_size) ?t =
    do_call host other (call_message msg gas recipient call_value (fst (the input_ptr)) in_size ?t)
      (to_uint32 out_off) (to_uint32 out_size) ?t"
    using input [of "the input_ptr"] both depth static
    by (intro do_call_guarded) (auto simp: child_message_def call_message_def memory_limit_def)
qed

lemma op_call_guarded:
  fixes host :: "'h host_methods"
  assumes "vm_ok (msg_gas msg) (\<lambda>_ _. True) n st"
  shows "op_call (guarded_host msg no_call no_write host) other msg st = op_call host other msg st"
  unfolding op_call_def call_input_def Let_def
proof (rule pop_then_eq [OF assms], rule pop_then_eq, assumption, rule pop_then_eq, assumption,
    rule if_cong [OF refl refl], rule if_cong [OF refl refl], rule pop_then_eq, assumption,
    rule pop_then_eq, assumption, rule call_output_guarded)
  fix gas recipient call_value in_off in_size and s t u v w :: "'h exec_state"
  assume "\<not> 1024 \<le> msg_depth msg" "\<not> (is_static msg \<and> \<not> vm_is_zero call_value)"
    and w: "vm_ok (msg_gas msg) (\<lambda>_ _. True) (Suc (Suc (Suc (Suc (Suc n))))) w"
  then show "msg_depth msg < 1024" "is_static msg \<longrightarrow> vm_is_zero call_value"
    by simp_all
  let ?in = "Memory_expand (to_uint32 in_off) (to_uint32 in_size) (ex_memory w)"
  show "vm_ok (msg_gas msg) (\<lambda>_ _. True) (Suc (Suc (Suc (Suc (Suc n)))))
      (w\<lparr>ex_memory := expanded_memory ?in (ex_memory w)\<rparr>)"
    using w expanded_memory_ok by (auto simp: vm_ok_def)
  show "fst e + unat (to_uint32 in_size) \<le> memory_limit" if "?in = Some e" for e
    using Memory_expand_Some(1,2) [of "to_uint32 in_off" "to_uint32 in_size" "ex_memory w"] that
    by (cases e) auto
qed

lemma execute_instruction_guarded:
  assumes "vm_ok (msg_gas msg) (\<lambda>_ _. True) n st"
  shows "execute_instruction (guarded_host msg no_call no_write host) other msg code st =
    execute_instruction host other msg code st"
proof -
  have ops: "op_number (guarded_host msg no_call no_write host) st = op_number host st"
    "op_sload (guarded_host msg no_call no_write host) msg st = op_sload host msg st"
    by (simp_all add: op_number_def op_sload_def guarded_host_def)
  show ?thesis
    unfolding execute_instruction_def op_call_guarded [OF assms] op_sstore_guarded ops ..
qed

lemma execute_loop_guarded:
  assumes "vm_ok (msg_gas msg) (\<lambda>_ _. True) n st"
  shows "execute_loop (guarded_host msg no_call no_write host) other msg code st =
    execute_loop host other msg code st"
  using assms
proof (induction "length code - ex_pc st" arbitrary: st n rule: less_induct)
  case less
  let ?st = "st\<lparr>ex_gas_left := ex_gas_left st - 1\<rparr>"
  have "(case execute_instruction (guarded_host msg no_call no_write host) other msg code ?st of
         Next st' \<Rightarrow> execute_loop (guarded_host msg no_call no_write host) other msg code
           (st'\<lparr>ex_pc := ex_pc st' + 1\<rparr>) | out \<Rightarrow> out) =
      (case execute_instruction host other msg code ?st of
         Next st' \<Rightarrow> execute_loop host other msg code (st'\<lparr>ex_pc := ex_pc st' + 1\<rparr>) | out \<Rightarrow> out)"
    if pc: "ex_pc st < length code" and gas: "0 \<le> ex_gas_left ?st"
  proof -
    have st: "vm_ok (msg_gas msg) (\<lambda>_ _. True) n ?st"
      using less.prems gas by (simp add: vm_ok_def)
    from any_host.execute_instruction_ok [OF this, of msg host other code]
    have sat: "outcome_sat (vm_ok (msg_gas msg) (\<lambda>_ _. True) 0) (ends_ok (msg_gas msg) (\<lambda>_ _ _. True))
      True (execute_instruction host other msg code ?st)" by simp
    show ?thesis
    proof (cases "execute_instruction host other msg code ?st")
      case (Next st')
      have "ex_pc st \<le> ex_pc st'"
        using execute_instruction_pc_Next [OF Next] by simp
      moreover have "vm_ok (msg_gas msg) (\<lambda>_ _. True) 0 (st'\<lparr>ex_pc := ex_pc st' + 1\<rparr>)"
        using sat Next by (simp add: vm_ok_def)
      ultimately show ?thesis
        using less.hyps [of "st'\<lparr>ex_pc := ex_pc st' + 1\<rparr>" 0] pc Next
        by (simp add: execute_instruction_guarded [OF st])
    qed (simp_all add: execute_instruction_guarded [OF st])
  qed
  then show ?case
    unfolding execute_loop.simps [of _ other msg code st] by (simp add: Let_def)
qed

lemma execute_guarded_host:
  "execute (guarded_host msg no_call no_write host) other msg code h hp = execute host other msg code h hp"
proof (cases "msg_gas msg < 0")
  case True
  then show ?thesis by (simp add: execute_def execute_start_def)
next
  case False
  then have "vm_ok (msg_gas msg) (\<lambda>_ _. True) 0 (execute_start msg h hp)"
    using vm_stack.new_invar
    by (simp add: vm_ok_def execute_start_def memory_ok_def Memory_new_def Stack_new_def)
  note loop = execute_loop_guarded [OF this]
  show ?thesis
    unfolding execute_def Let_def loop ..
qed

subsection \<open>Whole executions\<close>

lemma execute_owned:
  assumes "host_contract host other I" "I h" "heap_ok hp" "message_ok msg"
  shows "\<exists>r h' hp'. execute host other msg code h hp = Done r h' hp' \<and> I h' \<and>
    owned_result (heap_blocks hp) r hp' \<and> result_ok (max 0 (msg_gas msg)) r"
proof -
  have "outcome_sat (\<lambda>_. False)
      (ends_ok (max 0 (msg_gas msg)) (contract_result I (heap_blocks hp))) False
      (execute host other msg code h hp)"
    using assms
    by (intro execution_host.execute_ok [OF host_contract_execution]) (simp_all add: contract_state_def)
  then show ?thesis
    by (cases "execute host other msg code h hp") (auto simp: ends_ok_def contract_result_def)
qed

lemma execute_released:
  assumes "host_contract host other I" "I h" "heap_ok hp" "message_ok msg"
  shows "\<exists>r h' hp' hp''. execute host other msg code h hp = Done r h' hp' \<and> I h' \<and>
    qrvmc_release_result other r hp' = Some hp'' \<and> heap_blocks hp'' = heap_blocks hp"
  using execute_owned [OF assms] owned_result_released by meson

subsection \<open>Properties\<close>

text \<open>C10: The example VM returns gas in range for every code, message and host, also a host that
reports more gas left than it was given or a negative amount: the gas left is between zero and the
gas of the message (zero when that is negative), it is zero for every status but success and
revert, and nothing is refunded. Every execution ends: the loop is a total function.\<close>

theorem vm_gas_in_range:
  "outcome_sat (\<lambda>_. False) (\<lambda>r h hp. result_ok (max 0 (msg_gas msg)) r) True
    (execute host other msg code h0 hp0)"
  using any_host.execute_ok [where h = h0 and hp = hp0 and msg = msg and host = host and other = other
      and code = code]
  by (simp add: ends_ok_def [abs_def])

text \<open>C2: With a well-behaved host the example VM is safe: whatever the code is, the execution never
copies from or to memory it must not, never frees a block twice, and returns a result whose release
leaves exactly the blocks on the heap that were there before: no result of a call leaks, because
pushing the success flag after seven pops cannot overflow the stack.\<close>

theorem vm_safe_no_leak:
  assumes "host_contract host other I" "I h" "heap_ok hp" "message_ok msg"
  shows "\<exists>r h' hp' hp''. execute host other msg code h hp = Done r h' hp' \<and> I h' \<and>
    qrvmc_release_result other r hp' = Some hp'' \<and> heap_blocks hp'' = heap_blocks hp"
  using assms by (rule execute_released)

theorem vm_safe_no_leak_witness:
  "\<exists>r h' hp' hp''. execute (Host_get_interface mocked_methods) (\<lambda>_ _ _. None)
      ((message_zero (Some [1, 2]))\<lparr>msg_gas := 100, msg_input_size := 2\<rparr>)
      [0x60, 0, 0x60, 1, 0x60, 0, 0x60, 2, 0x60, 0, 0x60, 5, 0x60, 9, 0xf1]
      (mocked_host_new 0) heap_empty = Done r h' hp' \<and> canned_ok h' \<and>
    qrvmc_release_result (\<lambda>_ _ _. None) r hp' = Some hp'' \<and> heap_blocks hp'' = heap_blocks heap_empty"
  by (rule vm_safe_no_leak [OF mocked_host_contract])
    (simp_all add: canned_ok_def mocked_host_new_def view_result_zero_def message_ok_def
      message_zero_def int32_ok_def int64_ok_def)

text \<open>C17: What an execution asks of its host is disciplined, whatever the code and the host: every
call is a plain call by the executing account, one level deeper and at most 1024 deep, with gas
that fits 32 bits and is within the gas of the message, the flags of the message, no value in
static mode, and an input that lies in the memory; storage is written only outside static mode and
only to the executing account. Replacing the host's answers to any other call or write by
arbitrary ones does not change the execution.\<close>

theorem vm_calls_disciplined:
  "execute (guarded_host msg no_call no_write host) other msg code h hp =
    execute host other msg code h hp"
  by (rule execute_guarded_host)

text \<open>C22: The array with a pointer is a bounded stack of 1024 items: popping takes the item that was
pushed last and fails exactly on the empty stack, pushing fails exactly on a full one.\<close>

theorem stack_refines_list:
  assumes "stack_ok s"
  shows "map_option (\<lambda>(v, s'). (v, stack_content s')) (Stack_pop s) =
      (case stack_content s of [] \<Rightarrow> None | v # vs \<Rightarrow> Some (v, vs)) \<and>
    map_option stack_content (Stack_push w s) =
      (if length (stack_content s) = 1024 then None else Some (w # stack_content s))"
proof
  show "map_option (\<lambda>(v, s'). (v, stack_content s')) (Stack_pop s) =
      (case stack_content s of [] \<Rightarrow> None | v # vs \<Rightarrow> Some (v, vs))"
    using vm_stack.pop_None [OF assms] vm_stack.pop_Some [OF assms]
    by (cases "Stack_pop s") (auto split: list.splits)
  show "map_option stack_content (Stack_push w s) =
      (if length (stack_content s) = 1024 then None else Some (w # stack_content s))"
    using vm_stack.push_None [OF assms, of w] vm_stack.push_Some [OF assms, of w]
    by (cases "Stack_push w s") (auto simp: stack_limit_def)
qed

theorem stack_refines_list_witness:
  "map_option stack_content (Stack_push bytes64_zero Stack_new) = Some [bytes64_zero]"
  using stack_refines_list [OF vm_stack.new_invar, of bytes64_zero] vm_stack.new_content by simp

text \<open>C23: Storing in memory never leaves the buffer and wraps nowhere: it fails, without any change,
exactly when the region does not fit the 1024 bytes, also when offset plus size exceeds 32 bits,
and otherwise overwrites the region and no other byte and grows the size to its end.\<close>

theorem memory_store_region:
  assumes "memory_ok m" "unat n \<le> length bs"
  shows "Memory_store off (Some bs) n m =
    (if unat off + unat n > 1024 then Some (False, m)
     else Some (True, \<lparr>mem_size = max (mem_size m) (off + n),
       mem_data = take (unat off) (mem_data m) @ take (unat n) bs @
         drop (unat off + unat n) (mem_data m)\<rparr>))"
  using assms
  by (cases m)
    (auto simp: Memory_store_def Memory_expand_def memory_limit_def Let_def memory_ok_def blit_def
      min_absorb2 max_def not_less unat_eq_0)

theorem memory_store_region_witness:
  "Memory_store 1022 (Some [7, 7]) 2 Memory_new =
    Some (True, \<lparr>mem_size = max 0 (1022 + 2), mem_data = take 1022 (replicate 1024 0) @ [7, 7]\<rparr>)"
proof -
  have "memory_ok Memory_new"
    by (simp add: memory_ok_def Memory_new_def)
  from memory_store_region [OF this, of 2 "[7, 7]" 1022] show ?thesis
    by (simp add: Memory_new_def memory_limit_def)
qed

end
