(* ===== verification/VMSemantics.thy ===== *)
theory VMSemantics
  imports VMContract
begin

text \<open>
  What the instructions of the example VM compute: the 32-bit arithmetic on 512-bit items, the
  reads of code and call data past their ends, the effect on the stack as the instruction tables
  state it, and that gas suffices when there is a unit for each byte of the code.
\<close>

subsection \<open>Conversions\<close>

lemma to_uint32_load: "to_uint32 v = load32be (drop 60 (bytes64_bytes v))"
  by (simp add: to_uint32_def load32be_def)

lemma unat_to_uint32: "unat (to_uint32 v) = be_val (bytes64_bytes v) mod 2 ^ 32"
proof -
  have "be_val (bytes64_bytes v) =
      be_val (take 60 (bytes64_bytes v)) * 256 ^ 4 + be_val (drop 60 (bytes64_bytes v))"
    using be_val_append [of "take 60 (bytes64_bytes v)" "drop 60 (bytes64_bytes v)"] by simp
  moreover have "be_val (drop 60 (bytes64_bytes v)) < 256 ^ 4"
    using be_val_less [of "drop 60 (bytes64_bytes v)"] by simp
  ultimately have "be_val (bytes64_bytes v) mod 2 ^ 32 = be_val (drop 60 (bytes64_bytes v))"
    by simp
  then show ?thesis
    by (simp add: to_uint32_load unat_load32be)
qed

lemma to_uint512_u64: "to_uint512 x = bytes64_of_u64 (ucast x)"
proof -
  have low: "(ucast (drop_bit k (ucast x :: u64)) :: u8) = ucast (drop_bit k x)" if "k \<le> 24" for k
    using that by (intro bit_word_eqI) (simp add: bit_simps)
  have high: "(ucast (drop_bit k (ucast x :: u64)) :: u8) = 0" if "32 \<le> k" for k
    using that by (intro bit_word_eqI) (auto simp: bit_simps dest: bit_imp_le_length)
  have zeros: "bytes64_bytes bytes64_zero = replicate 60 0 @ [0, 0, 0, 0]"
    using replicate_add [of 60 4 "0 :: u8"] by (simp add: bytes64_zero.rep_eq numeral_eq_Suc)
  have "(bytes64_bytes bytes64_zero)
      [63 := ucast x, 62 := ucast (drop_bit 8 x), 61 := ucast (drop_bit 16 x),
       60 := ucast (drop_bit 24 x)] =
    replicate 60 0 @ [ucast (drop_bit 24 x), ucast (drop_bit 16 x), ucast (drop_bit 8 x), ucast x]"
    unfolding zeros by (simp add: list_update_append)
  moreover have "replicate 56 0 @ u64_be_bytes (ucast x) =
    replicate 60 0 @ [ucast (drop_bit 24 x), ucast (drop_bit 16 x), ucast (drop_bit 8 x), ucast x]"
    using low [of 24] low [of 16] low [of 8] low [of 0] high [of 56] high [of 48] high [of 40]
      high [of 32] replicate_add [of 56 4 "0 :: u8"]
    by (simp add: u64_be_bytes_def numeral_eq_Suc)
  ultimately show ?thesis
    by (simp flip: bytes64_bytes_inject add: to_uint512_def bytes64_of_u64.rep_eq u64_be_bytes_def)
qed

lemma be_val_to_uint512 [be_simps]: "be_val (bytes64_bytes (to_uint512 x)) = unat x"
proof -
  have "unat x < 2 ^ 64"
    using unsigned_less [of x] by (rule less_le_trans) simp
  then have "unat (ucast x :: u64) = unat x"
    by (simp add: unsigned_ucast_eq take_bit_nat_eq_self)
  then show ?thesis
    by (simp add: to_uint512_u64 be_val_bytes64_of_u64)
qed

lemma vm_is_zero_iff: "vm_is_zero v \<longleftrightarrow> be_val (bytes64_bytes v) = 0"
proof -
  have "list_all (\<lambda>b. b = 0) bs \<longleftrightarrow> be_val bs = 0" for bs
    by (induction bs) (auto simp: unat_eq_0)
  then show ?thesis by (simp add: vm_is_zero_def)
qed

text \<open>An address and its stack item hold the same bytes.\<close>

lemma to_address_to_uint512: "to_address (to_uint512_address a) = a"
  by (simp add: to_address_def to_uint512_address_def)

subsection \<open>Stack effects\<close>

text \<open>From \<open>p\<close> items on, the instruction needed \<open>req\<close> and changed their number by \<open>chg\<close>.\<close>

definition height_change :: "nat \<Rightarrow> int \<Rightarrow> int \<Rightarrow> 'h exec_state \<Rightarrow> bool" where
  "height_change p req chg st \<longleftrightarrow> req \<le> int p \<and> int (stk_pointer (ex_stack st)) = int p + chg"

lemma pop_height:
  assumes "\<And>v st'. stk_pointer (ex_stack st) = Suc (stk_pointer (ex_stack st')) \<Longrightarrow>
      outcome_sat P (\<lambda>_ _ _. True) True (k v st')"
  shows "outcome_sat P (\<lambda>_ _ _. True) True (pop_then st k)"
  using assms
  by (intro pop_then_sat)
    (auto simp: fail_with_def finish_sat Stack_pop_def Let_def split: if_splits option.splits)

lemma push_height:
  assumes "\<And>st'. stk_pointer (ex_stack st') = Suc (stk_pointer (ex_stack st)) \<Longrightarrow>
      outcome_sat P (\<lambda>_ _ _. True) True (k st')"
  shows "outcome_sat P (\<lambda>_ _ _. True) True (push_then v st k)"
  using assms
  by (intro push_then_sat) (auto simp: fail_with_def finish_sat Stack_push_def split: if_splits)

lemma end_height:
  "outcome_sat P (\<lambda>_ _ _. True) True (finish sc gas out n st)"
  "outcome_sat P (\<lambda>_ _ _. True) True (fail_with sc st)"
  by (simp_all add: fail_with_def finish_sat split: option.splits)

lemmas height_sat = pop_height push_height if_sat let_sat option_sat prod_sat end_height fault_sat
  next_sat

lemma do_call_height:
  "outcome_sat (\<lambda>st'. stk_pointer (ex_stack st') = Suc (stk_pointer (ex_stack st))) (\<lambda>_ _ _. True) True
    (do_call host other m off n st)"
  unfolding do_call_def by (rule height_sat | simp)+

lemma call_output_height:
  "outcome_sat (\<lambda>st'. stk_pointer (ex_stack st) = Suc (stk_pointer (ex_stack st')) \<and> 0 < stk_pointer (ex_stack st')) (\<lambda>_ _ _. True) True
    (call_output host other msg gas recipient call_value ptr in_size st)"
proof -
  have call: "outcome_sat (\<lambda>st'. stk_pointer (ex_stack st) = Suc (stk_pointer (ex_stack st')) \<and> 0 < stk_pointer (ex_stack st'))
      (\<lambda>_ _ _. True) True (do_call host other m off n s)"
    if "stk_pointer (ex_stack st) = Suc (Suc (stk_pointer (ex_stack s)))" for m off n s
    using do_call_height [of s host other m off n] that
    by (auto simp: outcome_sat_def split: outcome.splits)
  show ?thesis
    unfolding call_output_def Let_def
    by (intro pop_height if_sat end_height call) simp
qed

lemma call_input_height:
  "outcome_sat (\<lambda>st'. stk_pointer (ex_stack st) = stk_pointer (ex_stack st') + 3 \<and> 0 < stk_pointer (ex_stack st')) (\<lambda>_ _ _. True) True
    (call_input host other msg gas recipient call_value st)"
proof -
  have call: "outcome_sat (\<lambda>st'. stk_pointer (ex_stack st) = stk_pointer (ex_stack st') + 3 \<and> 0 < stk_pointer (ex_stack st'))
      (\<lambda>_ _ _. True) True (call_output host other msg gas recipient call_value ptr in_size s)"
    if "stk_pointer (ex_stack st) = Suc (Suc (stk_pointer (ex_stack s)))" for ptr in_size s
    using call_output_height [of s host other msg gas recipient call_value ptr in_size] that
    by (auto simp: outcome_sat_def split: outcome.splits)
  show ?thesis
    unfolding call_input_def Let_def by (intro pop_height call) simp
qed

lemma op_heights:
  "outcome_sat (height_change (stk_pointer (ex_stack st)) 2 (- 1)) (\<lambda>_ _ _. True) True (op_add st)"
  "outcome_sat (height_change (stk_pointer (ex_stack st)) 0 1) (\<lambda>_ _ _. True) True (op_address msg st)"
  "outcome_sat (height_change (stk_pointer (ex_stack st)) 1 0) (\<lambda>_ _ _. True) True (op_calldataload msg st)"
  "outcome_sat (height_change (stk_pointer (ex_stack st)) 0 1) (\<lambda>_ _ _. True) True (op_number host st)"
  "outcome_sat (height_change (stk_pointer (ex_stack st)) 2 (- 2)) (\<lambda>_ _ _. True) True (op_mstore st)"
  "outcome_sat (height_change (stk_pointer (ex_stack st)) 1 0) (\<lambda>_ _ _. True) True (op_sload host msg st)"
  "outcome_sat (height_change (stk_pointer (ex_stack st)) 2 (- 2)) (\<lambda>_ _ _. True) True (op_sstore host msg st)"
  "outcome_sat (height_change (stk_pointer (ex_stack st)) 0 1) (\<lambda>_ _ _. True) True (op_msize st)"
  "outcome_sat (height_change (stk_pointer (ex_stack st)) 0 1) (\<lambda>_ _ _. True) True (op_push code st)"
  "outcome_sat (height_change (stk_pointer (ex_stack st)) 1 1) (\<lambda>_ _ _. True) True (op_dup1 st)"
  unfolding op_add_def op_address_def op_calldataload_def op_number_def op_mstore_def op_sload_def
    op_sstore_def op_msize_def op_push_def op_dup1_def
  by (rule height_sat | simp add: height_change_def)+

lemma op_call_height:
  "outcome_sat (height_change (stk_pointer (ex_stack st)) 7 (- 6)) (\<lambda>_ _ _. True) True
    (op_call host other msg st)"
proof -
  have call: "outcome_sat (height_change (stk_pointer (ex_stack st)) 7 (- 6)) (\<lambda>_ _ _. True) True
      (call_input host other msg gas recipient call_value s)"
    if "stk_pointer (ex_stack st) = Suc (Suc (Suc (stk_pointer (ex_stack s))))"
    for gas recipient call_value s
    using call_input_height [of s host other msg gas recipient call_value] that
    by (auto simp: outcome_sat_def height_change_def split: outcome.splits)
  show ?thesis
    unfolding op_call_def by (intro pop_height if_sat end_height call) simp
qed

lemma op_return_height: "outcome_sat P (\<lambda>_ _ _. True) True (op_return sc st)"
  unfolding op_return_def by (rule height_sat)+

lemma push_metrics:
  assumes "OP_PUSH1 \<le> opcode" "opcode \<le> OP_PUSH64"
  shows "zond_metrics ! opcode = metrics_entry VERYLOW 0 1"
proof -
  have k: "opcode - OP_PUSH1 < 64"
    using assms by (simp add: OP_PUSH1_def OP_PUSH64_def)
  have "zond_metrics ! opcode = take 64 (drop OP_PUSH1 zond_metrics) ! (opcode - OP_PUSH1)"
    using assms k by (simp add: OP_PUSH1_def)
  then show ?thesis
    using k by (simp add: zond_metrics_push)
qed

lemmas implemented_metrics = metrics_of_implemented [simplified]

lemma execute_instruction_height:
  "outcome_sat (height_change (stk_pointer (ex_stack st))
      (stack_height_required (zond_metrics ! unat (code ! ex_pc st)))
      (stack_height_change (zond_metrics ! unat (code ! ex_pc st)))) (\<lambda>_ _ _. True) True
    (execute_instruction host other msg code st)"
  unfolding execute_instruction_def
  by (intro let_sat if_sat)
    (auto simp: implemented_metrics push_metrics metrics_entry_def op_heights op_call_height
      op_return_height end_height)

lemma unimplemented:
  assumes "stack_height_required (zond_metrics ! unat (code ! ex_pc st)) = 0"
    and "stack_height_change (zond_metrics ! unat (code ! ex_pc st)) = 0"
    and "unat (code ! ex_pc st) \<noteq> OP_STOP"
  shows "execute_instruction host other msg code st = fail_with QRVMC_UNDEFINED_INSTRUCTION st"
proof -
  have "unat (code ! ex_pc st) \<noteq> opcode"
    if "stack_height_required (zond_metrics ! opcode) \<noteq> 0 \<or> stack_height_change (zond_metrics ! opcode) \<noteq> 0"
    for opcode
    using that assms(1,2) by auto
  note other = this [of OP_ADD] this [of OP_ADDRESS] this [of OP_CALLDATALOAD] this [of OP_NUMBER]
    this [of OP_MSTORE] this [of OP_SLOAD] this [of OP_SSTORE] this [of OP_MSIZE] this [of OP_DUP1]
    this [of OP_CALL] this [of OP_RETURN] this [of OP_REVERT]
  have no_push: "\<not> (OP_PUSH1 \<le> unat (code ! ex_pc st) \<and> unat (code ! ex_pc st) \<le> OP_PUSH64)"
    using push_metrics [of "unat (code ! ex_pc st)"] assms(2) by (auto simp: metrics_entry_def)
  show ?thesis
    unfolding execute_instruction_def Let_def if_not_P [OF no_push]
    using other by (simp add: implemented_metrics metrics_entry_def assms(3))
qed

subsection \<open>Gas and program counter\<close>

text \<open>An instruction other than \<open>OP_CALL\<close> leaves the gas alone and never ends for lack of it.\<close>

definition not_out_of_gas :: "heap_ptr qrvmc_result \<Rightarrow> 'h \<Rightarrow> heap \<Rightarrow> bool" where
  "not_out_of_gas r h hp \<longleftrightarrow> status_code r \<noteq> QRVMC_OUT_OF_GAS"

lemma finish_not_out_of_gas:
  assumes "sc \<noteq> QRVMC_OUT_OF_GAS" f
  shows "outcome_sat P not_out_of_gas f (finish sc gas out n st)"
proof -
  have "status_code r \<noteq> QRVMC_OUT_OF_GAS"
    if "qrvmc_make_result sc gas 0 out n (ex_heap st) = Some (r, hp)" for r hp
    using that by (rule make_result_cases) (use assms in \<open>auto simp: result_zero_def\<close>)
  then show ?thesis
    using assms(2) by (auto simp: finish_sat not_out_of_gas_def split: option.splits)
qed

lemma fail_not_out_of_gas:
  "sc \<noteq> QRVMC_OUT_OF_GAS \<Longrightarrow> outcome_sat P not_out_of_gas f (fail_with sc st)"
  by (simp add: fail_with_def finish_sat not_out_of_gas_def)

lemmas gas_sat = control_sat finish_not_out_of_gas fail_not_out_of_gas fault_sat next_sat

lemma op_gas:
  "outcome_sat (\<lambda>st'. ex_gas_left st' = ex_gas_left st) not_out_of_gas True (op_add st)"
  "outcome_sat (\<lambda>st'. ex_gas_left st' = ex_gas_left st) not_out_of_gas True (op_address msg st)"
  "outcome_sat (\<lambda>st'. ex_gas_left st' = ex_gas_left st) not_out_of_gas True (op_calldataload msg st)"
  "outcome_sat (\<lambda>st'. ex_gas_left st' = ex_gas_left st) not_out_of_gas True (op_number host st)"
  "outcome_sat (\<lambda>st'. ex_gas_left st' = ex_gas_left st) not_out_of_gas True (op_mstore st)"
  "outcome_sat (\<lambda>st'. ex_gas_left st' = ex_gas_left st) not_out_of_gas True (op_sload host msg st)"
  "outcome_sat (\<lambda>st'. ex_gas_left st' = ex_gas_left st) not_out_of_gas True (op_sstore host msg st)"
  "outcome_sat (\<lambda>st'. ex_gas_left st' = ex_gas_left st) not_out_of_gas True (op_msize st)"
  "outcome_sat (\<lambda>st'. ex_gas_left st' = ex_gas_left st) not_out_of_gas True (op_push code st)"
  "outcome_sat (\<lambda>st'. ex_gas_left st' = ex_gas_left st) not_out_of_gas True (op_dup1 st)"
  unfolding op_add_def op_address_def op_calldataload_def op_number_def op_mstore_def op_sload_def
    op_sstore_def op_msize_def op_push_def op_dup1_def
  by (rule gas_sat | simp)+

lemma op_return_gas: "sc \<noteq> QRVMC_OUT_OF_GAS \<Longrightarrow> outcome_sat P not_out_of_gas True (op_return sc st)"
  unfolding op_return_def by (rule gas_sat | simp)+

lemma simple_instruction_gas:
  assumes "unat (code ! ex_pc st) \<noteq> OP_CALL"
  shows "outcome_sat (\<lambda>st'. ex_gas_left st' = ex_gas_left st) not_out_of_gas True
    (execute_instruction host other msg code st)"
  unfolding execute_instruction_def
  by (intro let_sat if_sat)
    (use assms in \<open>simp_all add: op_gas op_return_gas finish_not_out_of_gas fail_not_out_of_gas\<close>)

lemma loop_enough_gas:
  assumes "\<forall>b \<in> set code. unat b \<noteq> OP_CALL" "int (length code) \<le> ex_gas_left st + int (ex_pc st)"
    "0 \<le> ex_gas_left st"
  shows "outcome_sat (\<lambda>_. False) not_out_of_gas True (execute_loop host other msg code st)"
  using assms(2,3)
proof (induction "length code - ex_pc st" arbitrary: st rule: less_induct)
  case less
  let ?st = "st\<lparr>ex_gas_left := ex_gas_left st - 1\<rparr>"
  have "outcome_sat (\<lambda>_. False) not_out_of_gas True
      (case execute_instruction host other msg code ?st of
         Next st' \<Rightarrow> execute_loop host other msg code (st'\<lparr>ex_pc := ex_pc st' + 1\<rparr>) | out \<Rightarrow> out)"
    if pc: "ex_pc st < length code"
  proof -
    have "unat (code ! ex_pc ?st) \<noteq> OP_CALL"
      using assms(1) pc by simp
    note sat = simple_instruction_gas [OF this, of host other msg]
    show ?thesis
    proof (cases "execute_instruction host other msg code ?st")
      case (Next st')
      have "ex_pc st \<le> ex_pc st'"
        using execute_instruction_pc_Next [OF Next] by simp
      then show ?thesis
        using less.hyps [of "st'\<lparr>ex_pc := ex_pc st' + 1\<rparr>"] less.prems sat Next pc by simp
    qed (use sat in simp_all)
  qed
  then show ?case
    unfolding execute_loop.simps [of host other msg code st]
    using less.prems by (auto simp: Let_def finish_not_out_of_gas)
qed

subsection \<open>Properties\<close>

text \<open>C18: The interpreter agrees with the instruction tables: whenever the loop goes on after an
instruction, the stack had at least the items that the metrics of its opcode require, and its
height changed by exactly the change that they state.\<close>

theorem vm_follows_metrics:
  "outcome_sat (height_change (stk_pointer (ex_stack st))
      (stack_height_required (zond_metrics ! unat (code ! ex_pc st)))
      (stack_height_change (zond_metrics ! unat (code ! ex_pc st)))) (\<lambda>_ _ _. True) True
    (execute_instruction host other msg code st)"
  by (rule execute_instruction_height)

text \<open>An opcode without a name in the tables ends the execution as an undefined instruction, with
no gas left and no output.\<close>

theorem vm_undefined_opcodes:
  assumes "zond_names ! unat (code ! ex_pc st) = None"
  shows "execute_instruction host other msg code st =
    Done (result_zero\<lparr>status_code := QRVMC_UNDEFINED_INSTRUCTION\<rparr>) (ex_host st) (ex_heap st)"
proof -
  have "unat (code ! ex_pc st) < 256" by simp
  then have "named_ok (zond_names ! unat (code ! ex_pc st)) (zond_metrics ! unat (code ! ex_pc st))"
    using list_all2_nthD [OF list_all2_appendI [OF named_ok_lo named_ok_hi], of "unat (code ! ex_pc st)"]
    by (simp add: zond_names_def zond_metrics_def length_tables_halves)
  then have "zond_metrics ! unat (code ! ex_pc st) = metrics_entry UNDEFINED 0 0"
    using assms by (simp add: named_ok_def undefined_metrics_def)
  then have "stack_height_required (zond_metrics ! unat (code ! ex_pc st)) = 0 \<and>
      stack_height_change (zond_metrics ! unat (code ! ex_pc st)) = 0"
    by (simp add: metrics_entry_def)
  moreover have "unat (code ! ex_pc st) \<noteq> OP_STOP"
  proof
    assume "unat (code ! ex_pc st) = OP_STOP"
    then have "zond_names ! 0 = None"
      using assms by (simp only: OP_STOP_def)
    then show False
      by (simp add: zond_names_def zond_names_lo_def)
  qed
  ultimately have "execute_instruction host other msg code st = fail_with QRVMC_UNDEFINED_INSTRUCTION st"
    by (intro unimplemented) simp_all
  then show ?thesis
    by (simp add: fail_with_def finish_def result_zero_def)
qed

theorem vm_undefined_opcodes_witness:
  "execute_instruction (Host_get_interface mocked_methods) (\<lambda>_ _ _. None) (message_zero None) [0x0c]
      (execute_start (message_zero None) (mocked_host_new 0) heap_empty) =
    Done (result_zero\<lparr>status_code := QRVMC_UNDEFINED_INSTRUCTION\<rparr>) (mocked_host_new 0) heap_empty"
  using vm_undefined_opcodes [of "[0x0c]" "execute_start (message_zero None) (mocked_host_new 0) heap_empty"]
  by (simp add: execute_start_def zond_names_def zond_names_lo_def)

text \<open>C19: Gas of one unit for each byte of the code is enough: a code without calls that is given at
least that much does not run out of gas, whatever the host answers.\<close>

theorem vm_gas_suffices:
  assumes "\<forall>b \<in> set code. unat b \<noteq> OP_CALL" "int (length code) \<le> msg_gas msg"
  shows "outcome_sat (\<lambda>_. False) not_out_of_gas True (execute host other msg code h hp)"
  using loop_enough_gas [OF assms(1), of "execute_start msg h hp" host other msg] assms(2)
  by (simp add: execute_def execute_start_def)

theorem vm_gas_suffices_witness:
  "outcome_sat (\<lambda>_. False) not_out_of_gas True
    (execute (Host_get_interface mocked_methods) (\<lambda>_ _ _. None) ((message_zero None)\<lparr>msg_gas := 4\<rparr>)
      [0x60, 1, 0x30, 0x01] (mocked_host_new 0) heap_empty)"
  by (rule vm_gas_suffices) (simp_all add: OP_CALL_def message_zero_def)

text \<open>The addition pops two items and pushes their sum as 512-bit numbers reduced to 32 bits; it
never overflows the stack.\<close>

theorem vm_add_32_bit:
  assumes "stack_ok (ex_stack st)" "stack_content (ex_stack st) = a # b # rest"
    and "code ! ex_pc st = 0x01"
  shows "\<exists>s c. execute_instruction host other msg code st = Next (st\<lparr>ex_stack := s\<rparr>) \<and> stack_ok s \<and>
    stack_content s = c # rest \<and>
    be_val (bytes64_bytes c) = (be_val (bytes64_bytes a) + be_val (bytes64_bytes b)) mod 2 ^ 32"
proof -
  obtain s1 where s1: "Stack_pop (ex_stack st) = Some (a, s1)" "stack_content s1 = b # rest" "stack_ok s1"
    using vm_stack.pop_Cons [OF assms(1,2)] by blast
  obtain s2 where s2: "Stack_pop s1 = Some (b, s2)" "stack_content s2 = rest" "stack_ok s2"
    using vm_stack.pop_Cons [OF s1(3,2)] by blast
  have room: "length (stack_content s2) < stack_limit"
    using vm_stack.content_bound [OF assms(1)] assms(2) s2(2) by simp
  define c where "c = to_uint512 (to_uint32 a + to_uint32 b)"
  obtain s where s: "Stack_push c s2 = Some s" "stack_content s = c # stack_content s2" "stack_ok s"
    using vm_stack.push_room [OF s2(3) room] by blast
  have "be_val (bytes64_bytes c) = (be_val (bytes64_bytes a) + be_val (bytes64_bytes b)) mod 2 ^ 32"
    by (simp add: c_def be_val_to_uint512 unat_word_ariths unat_to_uint32 mod_simps)
  moreover have "execute_instruction host other msg code st = Next (st\<lparr>ex_stack := s\<rparr>)"
    using s1(1) s2(1) s(1) assms(3)
    by (simp add: execute_instruction_def OP_STOP_def OP_ADD_def op_add_def pop_then_def push_then_def
        Let_def flip: c_def)
  ultimately show ?thesis using s s2(2) by auto
qed

lemma two_items:
  "\<exists>s. stack_ok s \<and> stack_content s = [a, b]"
proof -
  obtain s1 where s1: "Stack_push b Stack_new = Some s1" "stack_content s1 = [b]" "stack_ok s1"
    using vm_stack.push_room [OF vm_stack.new_invar, of b] by (auto simp: vm_stack.new_content stack_limit_def)
  obtain s2 where "Stack_push a s1 = Some s2" "stack_content s2 = [a, b]" "stack_ok s2"
    using vm_stack.push_room [OF s1(3), of a] s1(2) by (auto simp: stack_limit_def)
  then show ?thesis by blast
qed

theorem vm_add_32_bit_witness:
  "\<exists>st s c. execute_instruction (Host_get_interface mocked_methods) (\<lambda>_ _ _. None) (message_zero None)
      [0x01] st = Next ((st :: mocked_host exec_state)\<lparr>ex_stack := s\<rparr>) \<and>
    stack_content s = [c] \<and> be_val (bytes64_bytes c) = 1"
proof -
  obtain s where s: "stack_ok s" "stack_content s = [to_uint512 0xffffffff, to_uint512 2]"
    using two_items by blast
  let ?st = "(execute_start (message_zero None) (mocked_host_new 0) heap_empty)\<lparr>ex_stack := s\<rparr>"
  obtain t c where t: "execute_instruction (Host_get_interface mocked_methods) (\<lambda>_ _ _. None)
      (message_zero None) [0x01] ?st = Next (?st\<lparr>ex_stack := t\<rparr>)" "stack_content t = [c]"
      "be_val (bytes64_bytes c) = (be_val (bytes64_bytes (to_uint512 0xffffffff)) +
        be_val (bytes64_bytes (to_uint512 2))) mod 2 ^ 32"
    using vm_add_32_bit [of ?st "to_uint512 0xffffffff" "to_uint512 2" "[]" "[0x01]"
        "Host_get_interface mocked_methods" "\<lambda>_ _ _. None" "message_zero None"] s
    by (auto simp: execute_start_def)
  have "be_val (bytes64_bytes c) = 1"
    by (simp add: t(3) be_val_to_uint512)
  then show ?thesis
    using t(1,2) by blast
qed

end
