(* ===== verification/VMSteps.thy ===== *)
theory VMSteps
  imports VMSemantics
begin

text \<open>
  The interpreter loop of the example VM as a transition system: one step is one iteration of the
  loop that goes on, an end is an iteration that returns or the end of the code. The states that an
  execution goes through are the reachable ones; what holds in all of them is proved by induction
  over the steps, and the function \<open>execute\<close> computes exactly the ends that are reachable.
\<close>

subsection \<open>Iterations\<close>

inductive loop_step ::
    "'h host_methods \<Rightarrow> release_table \<Rightarrow> view qrvmc_message \<Rightarrow> u8 list \<Rightarrow> 'h exec_state \<Rightarrow>
      'h exec_state \<Rightarrow> bool"
  for host other msg code where
  iteration:
    "ex_pc st < length code \<Longrightarrow> \<not> ex_gas_left st - 1 < 0 \<Longrightarrow>
      execute_instruction host other msg code (st\<lparr>ex_gas_left := ex_gas_left st - 1\<rparr>) = Next st' \<Longrightarrow>
      loop_step host other msg code st (st'\<lparr>ex_pc := ex_pc st' + 1\<rparr>)"

inductive loop_ends ::
    "'h host_methods \<Rightarrow> release_table \<Rightarrow> view qrvmc_message \<Rightarrow> u8 list \<Rightarrow> 'h exec_state \<Rightarrow>
      'h outcome \<Rightarrow> bool"
  for host other msg code where
  end_of_code:
    "\<not> ex_pc st < length code \<Longrightarrow>
      loop_ends host other msg code st (finish QRVMC_SUCCESS (ex_gas_left st) None 0 st)"
| out_of_gas:
    "ex_pc st < length code \<Longrightarrow> ex_gas_left st - 1 < 0 \<Longrightarrow>
      loop_ends host other msg code st
        (fail_with QRVMC_OUT_OF_GAS (st\<lparr>ex_gas_left := ex_gas_left st - 1\<rparr>))"
| returns:
    "ex_pc st < length code \<Longrightarrow> \<not> ex_gas_left st - 1 < 0 \<Longrightarrow>
      execute_instruction host other msg code (st\<lparr>ex_gas_left := ex_gas_left st - 1\<rparr>) = out \<Longrightarrow>
      (\<And>st'. out \<noteq> Next st') \<Longrightarrow> loop_ends host other msg code st out"

text \<open>The states at the head of the loop, with the number of iterations before.\<close>

inductive loop_reaches ::
    "'h host_methods \<Rightarrow> release_table \<Rightarrow> view qrvmc_message \<Rightarrow> u8 list \<Rightarrow> 'h \<Rightarrow> heap \<Rightarrow> nat \<Rightarrow>
      'h exec_state \<Rightarrow> bool"
  for host other msg code h hp where
  entered: "0 \<le> msg_gas msg \<Longrightarrow> loop_reaches host other msg code h hp 0 (execute_start msg h hp)"
| iterated:
    "loop_reaches host other msg code h hp n st \<Longrightarrow> loop_step host other msg code st st' \<Longrightarrow>
      loop_reaches host other msg code h hp (Suc n) st'"

inductive_cases loop_stepE: "loop_step host other msg code st st'"
inductive_cases loop_endsE: "loop_ends host other msg code st out"
inductive_simps loop_reaches_0: "loop_reaches host other msg code h hp 0 st"
inductive_simps loop_reaches_Suc: "loop_reaches host other msg code h hp (Suc n) st"

lemma loop_step_deterministic:
  "loop_step host other msg code st s \<Longrightarrow> loop_step host other msg code st t \<Longrightarrow> s = t"
  by (auto elim!: loop_stepE)

lemma loop_ends_no_step:
  "loop_ends host other msg code st out \<Longrightarrow> \<not> loop_step host other msg code st st'"
  by (auto elim!: loop_stepE loop_endsE)

lemma loop_step_or_end:
  "(\<exists>st'. loop_step host other msg code st st') \<or> (\<exists>out. loop_ends host other msg code st out)"
  by (cases "execute_instruction host other msg code (st\<lparr>ex_gas_left := ex_gas_left st - 1\<rparr>)")
    (blast intro: loop_step.intros loop_ends.intros)+

subsection \<open>The loop follows the steps\<close>

lemma execute_loop_step:
  "loop_step host other msg code st st' \<Longrightarrow>
    execute_loop host other msg code st = execute_loop host other msg code st'"
  by (erule loop_stepE) (simp add: execute_loop.simps [of host other msg code st])

lemma execute_loop_ends:
  assumes "loop_ends host other msg code st out"
  shows "execute_loop host other msg code st = out"
  using assms
proof (cases rule: loop_ends.cases)
  case returns
  then show ?thesis
    by (cases out) (auto simp: execute_loop.simps [of host other msg code st])
qed (simp_all add: execute_loop.simps [of host other msg code st])

lemma execute_loop_reaches:
  "loop_reaches host other msg code h hp n st \<Longrightarrow>
    execute host other msg code h hp = execute_loop host other msg code st"
  by (induction rule: loop_reaches.induct)
    (simp_all add: execute_def execute_start_def execute_loop_step)

lemma loop_step_pc: "loop_step host other msg code st st' \<Longrightarrow> ex_pc st < ex_pc st' \<and> ex_pc st < length code"
  by (erule loop_stepE) (auto dest: execute_instruction_pc_Next)

lemma loop_reaches_end:
  "loop_reaches host other msg code h hp n st \<Longrightarrow>
    \<exists>m st' out. loop_reaches host other msg code h hp m st' \<and> loop_ends host other msg code st' out"
proof (induction "length code - ex_pc st" arbitrary: n st rule: less_induct)
  case less
  show ?case
  proof (cases "\<exists>st'. loop_step host other msg code st st'")
    case True
    then obtain st' where st': "loop_step host other msg code st st'" ..
    then show ?thesis
      using less.hyps [OF _ iterated [OF less.prems st']] loop_step_pc [OF st']
      by (meson diff_less_mono2 less_trans)
  next
    case False
    then show ?thesis
      using loop_step_or_end [of host other msg code st] less.prems by blast
  qed
qed

subsection \<open>The program counter\<close>

text \<open>An instruction skips at most the 64 bytes that it pushes.\<close>

lemmas pc_bound_sat = control_sat fault_sat next_sat

lemma end_pc_bound:
  "outcome_sat P (\<lambda>_ _ _. True) True (finish sc gas out n st)"
  "outcome_sat P (\<lambda>_ _ _. True) True (fail_with sc st)"
  by (simp_all add: fail_with_def finish_sat split: option.splits)

lemma do_call_pc_bound:
  "ex_pc st \<le> q \<Longrightarrow>
    outcome_sat (\<lambda>st'. ex_pc st' \<le> q) (\<lambda>_ _ _. True) True
      (do_call host other call_msg out_offset out_size st)"
  unfolding do_call_def by (rule pc_bound_sat end_pc_bound | simp)+

lemma op_call_pc_bound:
  "ex_pc st \<le> q \<Longrightarrow>
    outcome_sat (\<lambda>st'. ex_pc st' \<le> q) (\<lambda>_ _ _. True) True (op_call host other msg st)"
  unfolding op_call_def call_input_def call_output_def
  by (rule pc_bound_sat end_pc_bound do_call_pc_bound | simp)+

lemma op_push_pc_bound:
  assumes "unat (code ! ex_pc st) \<le> OP_PUSH64"
  shows "outcome_sat (\<lambda>st'. ex_pc st' \<le> ex_pc st + 64) (\<lambda>_ _ _. True) True (op_push code st)"
proof -
  have "unat (code ! ex_pc st) - OP_PUSH1 + 1 \<le> 64"
    using assms by (simp add: OP_PUSH1_def OP_PUSH64_def)
  then show ?thesis
    unfolding op_push_def Let_def by (intro push_then_sat end_pc_bound next_sat) simp
qed

lemma execute_instruction_pc_bound:
  "outcome_sat (\<lambda>st'. ex_pc st' \<le> ex_pc st + 64) (\<lambda>_ _ _. True) True
    (execute_instruction host other msg code st)"
  unfolding execute_instruction_def op_add_def op_address_def op_calldataload_def op_number_def
    op_mstore_def op_sload_def op_sstore_def op_msize_def op_dup1_def op_return_def
  by (rule pc_bound_sat end_pc_bound op_call_pc_bound op_push_pc_bound | simp)+

lemma loop_step_pc_bound:
  assumes "loop_step host other msg code st st'"
  shows "ex_pc st < ex_pc st'" "ex_pc st' \<le> length code + 64" "ex_pc st < length code"
  using assms execute_instruction_pc_bound [of "st\<lparr>ex_gas_left := ex_gas_left st - 1\<rparr>" host other msg code]
  by (auto elim!: loop_stepE dest: execute_instruction_pc_Next)

subsection \<open>Invariants\<close>

context execution_host
begin

lemma loop_step_ok:
  assumes "loop_step host other msg code st st'" "faulty \<or> message_ok msg" "vm_ok g K n st"
  shows "vm_ok (ex_gas_left st - 1) K 0 st'"
  using assms(1)
proof (cases rule: loop_step.cases)
  case (iteration s)
  have "vm_ok (ex_gas_left st - 1) K n (st\<lparr>ex_gas_left := ex_gas_left st - 1\<rparr>)"
    using assms(3) iteration(3) by (simp add: vm_ok_def)
  from execute_instruction_ok [OF this assms(2), of code] show ?thesis
    by (simp add: iteration vm_ok_def)
qed

lemma loop_reaches_ok:
  assumes "loop_reaches host other msg code h hp n st" "faulty \<or> message_ok msg" "K h hp"
  shows "vm_ok (msg_gas msg - int n) K 0 st \<and> n \<le> ex_pc st \<and> ex_pc st \<le> length code + 64 \<and>
    n \<le> length code"
  using assms
proof (induction rule: loop_reaches.induct)
  case entered
  then show ?case
    using vm_stack.new_invar
    by (simp add: vm_ok_def execute_start_def memory_ok_def Memory_new_def Stack_new_def)
next
  case (iterated n st st')
  then have "vm_ok (ex_gas_left st - 1) K 0 st'"
    using loop_step_ok by blast
  then show ?case
    using loop_step_pc_bound [OF iterated.hyps(2)] iterated by (auto simp: vm_ok_def)
qed

end

subsection \<open>Properties\<close>

text \<open>C12: Whatever the code, the message and the host are, before every iteration of the loop the gas
left is not negative and at most the gas of the message less one unit for each iteration before,
also when calls gave gas back; the stack and the memory are in their bounds, and there were at most
as many iterations as the code has bytes. The program counter is at least the number of iterations
and at most 64 past the end, so it does not wrap.\<close>

theorem vm_loop_invariant:
  assumes "loop_reaches host other msg code h hp n st"
  shows "0 \<le> ex_gas_left st \<and> ex_gas_left st + int n \<le> msg_gas msg \<and> stack_ok (ex_stack st) \<and>
    memory_ok (ex_memory st) \<and> n \<le> length code \<and> n \<le> ex_pc st \<and> ex_pc st \<le> length code + 64"
  using any_host.loop_reaches_ok [OF assms] by (simp add: vm_ok_def)

text \<open>A first iteration, for the witnesses: a code that pushes the memory size.\<close>

lemma one_iteration:
  assumes "hp = heap_empty"
  shows "\<exists>st. loop_reaches (Host_get_interface mocked_methods) (\<lambda>_ _ _. None)
      ((message_zero None)\<lparr>msg_gas := 3\<rparr>) [0x59, 0x59] (mocked_host_new 0) hp 1 st \<and>
    ex_gas_left st = 2 \<and> ex_pc st = 1"
proof -
  let ?msg = "(message_zero None)\<lparr>msg_gas := 3\<rparr>"
  let ?st = "execute_start ?msg (mocked_host_new 0) hp"
  obtain s where s: "Stack_push (to_uint512 0) Stack_new = Some s"
    using Stack_push_room [of Stack_new] by (auto simp: Stack_new_def stack_limit_def)
  have "execute_instruction (Host_get_interface mocked_methods) (\<lambda>_ _ _. None) ?msg [0x59, 0x59]
      (?st\<lparr>ex_gas_left := ex_gas_left ?st - 1\<rparr>) = Next (?st\<lparr>ex_gas_left := 2, ex_stack := s\<rparr>)"
    using s
    by (simp add: execute_instruction_def execute_start_def message_zero_def Memory_new_def
        op_msize_def push_then_def OP_STOP_def OP_ADD_def OP_ADDRESS_def OP_CALLDATALOAD_def
        OP_NUMBER_def OP_MSTORE_def OP_SLOAD_def OP_SSTORE_def OP_MSIZE_def)
  then have "loop_step (Host_get_interface mocked_methods) (\<lambda>_ _ _. None) ?msg [0x59, 0x59] ?st
      (?st\<lparr>ex_gas_left := 2, ex_stack := s, ex_pc := 1\<rparr>)"
    using iteration [of ?st "[0x59, 0x59]" "Host_get_interface mocked_methods" "\<lambda>_ _ _. None" ?msg
        "?st\<lparr>ex_gas_left := 2, ex_stack := s\<rparr>"]
    by (simp add: execute_start_def message_zero_def)
  then show ?thesis
    by (intro exI conjI) (auto simp: loop_reaches_Suc [of _ _ _ _ _ _ 0, simplified] loop_reaches_0 message_zero_def)
qed

theorem vm_loop_invariant_witness:
  "\<exists>st. loop_reaches (Host_get_interface mocked_methods) (\<lambda>_ _ _. None)
      ((message_zero None)\<lparr>msg_gas := 3\<rparr>) [0x59, 0x59] (mocked_host_new 0) heap_empty 1 st \<and>
    stack_ok (ex_stack st) \<and> ex_gas_left st + 1 \<le> 3"
proof -
  obtain st where st: "loop_reaches (Host_get_interface mocked_methods) (\<lambda>_ _ _. None)
      ((message_zero None)\<lparr>msg_gas := 3\<rparr>) [0x59, 0x59] (mocked_host_new 0) heap_empty 1 st"
    using one_iteration [OF refl] by blast
  from vm_loop_invariant [OF st] show ?thesis
    using st by auto
qed


text \<open>C13: With a well-behaved host the heap holds, before every iteration, exactly the blocks that it
held when the execution started: the results of calls are released in the iteration that makes
them.\<close>

theorem vm_loop_no_leak:
  assumes "host_contract host other I" "I h" "heap_ok hp" "message_ok msg"
    and "loop_reaches host other msg code h hp n st"
  shows "I (ex_host st) \<and> heap_ok (ex_heap st) \<and> heap_blocks (ex_heap st) = heap_blocks hp"
  using execution_host.loop_reaches_ok [OF host_contract_execution [OF assms(1), of "heap_blocks hp"]
      assms(5)] assms(2-4)
  by (simp add: vm_ok_def contract_state_def)

theorem vm_loop_no_leak_witness:
  "\<exists>st. loop_reaches (Host_get_interface mocked_methods) (\<lambda>_ _ _. None)
      ((message_zero None)\<lparr>msg_gas := 3\<rparr>) [0x59, 0x59] (mocked_host_new 0) heap_empty 1 st \<and>
    canned_ok (ex_host st) \<and> heap_blocks (ex_heap st) = heap_blocks heap_empty"
proof -
  obtain st where st: "loop_reaches (Host_get_interface mocked_methods) (\<lambda>_ _ _. None)
      ((message_zero None)\<lparr>msg_gas := 3\<rparr>) [0x59, 0x59] (mocked_host_new 0) heap_empty 1 st"
    using one_iteration [OF refl] by blast
  have "canned_ok (mocked_host_new 0)" "message_ok ((message_zero None)\<lparr>msg_gas := 3\<rparr>)"
    by (simp_all add: canned_ok_def mocked_host_new_def view_result_zero_def message_ok_def
        message_zero_def int32_ok_def int64_ok_def)
  from vm_loop_no_leak [OF mocked_host_contract this(1) _ this(2) st] show ?thesis
    using st by auto
qed

end
