(* ===== verification/VM.thy ===== *)
theory VM
  imports HostInterface
begin

text \<open>
  The VM interface: \<open>struct qrvmc_vm\<close> of \<open>include/qrvmc/qrvmc.h\<close>, the C functions on it of
  \<open>include/qrvmc/helpers.h\<close> and the owning class \<open>VM\<close> of \<open>include/qrvmc/qrvmc.hpp\<close>.

  A VM instance is the struct together with the state \<open>'s\<close> that its implementation keeps behind the
  pointer. Instances live at addresses; a call through a pointer that has no instance is undefined
  behaviour, \<open>None\<close>. The host context is the host itself, as in the host interface.
\<close>

subsection \<open>The struct\<close>

text \<open>
  The destroy function says what is left of the instance: nothing when it deletes the object.
  A null host interface is \<open>None\<close>.
\<close>

record ('s, 'h) qrvmc_vm =
  vm_abi_version :: int
  vm_name :: string
  vm_version :: string
  vm_destroy :: "'s \<Rightarrow> 's option"
  vm_execute :: "'h host_methods option \<Rightarrow> qrvmc_revision \<Rightarrow> view qrvmc_message \<Rightarrow> u8 list \<Rightarrow>
    's \<Rightarrow> 'h \<Rightarrow> heap \<Rightarrow> (heap_ptr qrvmc_result \<times> 's \<times> 'h \<times> heap) option"
  vm_get_capabilities :: "'s \<Rightarrow> u32"
  vm_set_option :: "(string \<Rightarrow> string option \<Rightarrow> 's \<Rightarrow> qrvmc_set_option_result \<times> 's) option"

type_synonym ('s, 'h) vm_instances = "nat \<Rightarrow> (('s, 'h) qrvmc_vm \<times> 's) option"

subsection \<open>The C helpers\<close>

definition qrvmc_is_abi_compatible :: "nat \<Rightarrow> ('s, 'h) vm_instances \<Rightarrow> bool option" where
  "qrvmc_is_abi_compatible p w =
    map_option (\<lambda>(vm, _). vm_abi_version vm = QRVMC_ABI_VERSION) (w p)"

definition qrvmc_vm_name :: "nat \<Rightarrow> ('s, 'h) vm_instances \<Rightarrow> string option" where
  "qrvmc_vm_name p w = map_option (\<lambda>(vm, _). vm_name vm) (w p)"

definition qrvmc_vm_version :: "nat \<Rightarrow> ('s, 'h) vm_instances \<Rightarrow> string option" where
  "qrvmc_vm_version p w = map_option (\<lambda>(vm, _). vm_version vm) (w p)"

definition qrvmc_vm_has_capability :: "nat \<Rightarrow> u32 \<Rightarrow> ('s, 'h) vm_instances \<Rightarrow> bool option" where
  "qrvmc_vm_has_capability p capability w =
    map_option (\<lambda>(vm, s). vm_get_capabilities vm s AND capability \<noteq> 0) (w p)"

definition qrvmc_destroy :: "nat \<Rightarrow> ('s, 'h) vm_instances \<Rightarrow> ('s, 'h) vm_instances option" where
  "qrvmc_destroy p w =
    (case w p of
       None \<Rightarrow> None
     | Some (vm, s) \<Rightarrow> Some (w(p := map_option (\<lambda>s'. (vm, s')) (vm_destroy vm s))))"

definition qrvmc_set_option ::
    "nat \<Rightarrow> string \<Rightarrow> string option \<Rightarrow> ('s, 'h) vm_instances \<Rightarrow>
      (qrvmc_set_option_result \<times> ('s, 'h) vm_instances) option" where
  "qrvmc_set_option p name val w =
    (case w p of
       None \<Rightarrow> None
     | Some (vm, s) \<Rightarrow>
         (case vm_set_option vm of
            Some f \<Rightarrow> (let (r, s') = f name val s in Some (r, w(p \<mapsto> (vm, s'))))
          | None \<Rightarrow> Some (QRVMC_SET_OPTION_INVALID_NAME, w)))"

definition qrvmc_execute ::
    "nat \<Rightarrow> 'h host_methods option \<Rightarrow> qrvmc_revision \<Rightarrow> view qrvmc_message \<Rightarrow> u8 list \<Rightarrow>
      ('s, 'h) vm_instances \<Rightarrow> 'h \<Rightarrow> heap \<Rightarrow>
      (heap_ptr qrvmc_result \<times> ('s, 'h) vm_instances \<times> 'h \<times> heap) option" where
  "qrvmc_execute p host revision msg code w h hp =
    (case w p of
       None \<Rightarrow> None
     | Some (vm, s) \<Rightarrow>
         map_option (\<lambda>(r, s', h', hp'). (r, w(p \<mapsto> (vm, s')), h', hp'))
           (vm_execute vm host revision msg code s h hp))"

subsection \<open>The owning class\<close>

text \<open>\<open>m\<close> is \<open>m_instance\<close>. The destructor is \<open>reset\<close>.\<close>

definition VM_bool :: "nat option \<Rightarrow> bool" where
  "VM_bool m \<longleftrightarrow> m \<noteq> None"

definition VM_reset ::
    "nat option \<Rightarrow> ('s, 'h) vm_instances \<Rightarrow> (nat option \<times> ('s, 'h) vm_instances) option" where
  "VM_reset m w =
    (case m of
       Some p \<Rightarrow> map_option (\<lambda>w'. (None, w')) (qrvmc_destroy p w)
     | None \<Rightarrow> Some (m, w))"

text \<open>The move constructor: the new object and what is left of the other one.\<close>

definition VM_move :: "nat option \<Rightarrow> nat option \<times> nat option" where
  "VM_move other = (other, None)"

definition VM_set_option ::
    "nat option \<Rightarrow> string \<Rightarrow> string option \<Rightarrow> ('s, 'h) vm_instances \<Rightarrow>
      (qrvmc_set_option_result \<times> ('s, 'h) vm_instances) option" where
  "VM_set_option m name val w =
    (case m of None \<Rightarrow> None | Some p \<Rightarrow> qrvmc_set_option p name val w)"

text \<open>The constructor with options: it sets them in order and ignores the outcomes.\<close>

fun VM_set_options ::
    "nat option \<Rightarrow> (string \<times> string option) list \<Rightarrow> ('s, 'h) vm_instances \<Rightarrow>
      ('s, 'h) vm_instances option" where
  "VM_set_options m [] w = Some w"
| "VM_set_options m ((name, val) # options) w =
    (case VM_set_option m name val w of
       None \<Rightarrow> None
     | Some (_, w') \<Rightarrow> VM_set_options m options w')"

definition VM_configured ::
    "nat option \<Rightarrow> (string \<times> string option) list \<Rightarrow> ('s, 'h) vm_instances \<Rightarrow>
      (nat option \<times> ('s, 'h) vm_instances) option" where
  "VM_configured vm options w =
    (if vm = None then Some (vm, w)
     else map_option (\<lambda>w'. (vm, w')) (VM_set_options vm options w))"

text \<open>The accessors go through the pointer, which must not be null.\<close>

definition VM_get_raw_pointer :: "nat option \<Rightarrow> nat option" where
  "VM_get_raw_pointer m = m"

definition VM_is_abi_compatible :: "nat option \<Rightarrow> ('s, 'h) vm_instances \<Rightarrow> bool option" where
  "VM_is_abi_compatible m w =
    (case m of
       None \<Rightarrow> None
     | Some p \<Rightarrow> map_option (\<lambda>(vm, _). vm_abi_version vm = QRVMC_ABI_VERSION) (w p))"

definition VM_name :: "nat option \<Rightarrow> ('s, 'h) vm_instances \<Rightarrow> string option" where
  "VM_name m w = (case m of None \<Rightarrow> None | Some p \<Rightarrow> map_option (\<lambda>(vm, _). vm_name vm) (w p))"

definition VM_version :: "nat option \<Rightarrow> ('s, 'h) vm_instances \<Rightarrow> string option" where
  "VM_version m w = (case m of None \<Rightarrow> None | Some p \<Rightarrow> map_option (\<lambda>(vm, _). vm_version vm) (w p))"

definition VM_get_capabilities :: "nat option \<Rightarrow> ('s, 'h) vm_instances \<Rightarrow> u32 option" where
  "VM_get_capabilities m w =
    (case m of None \<Rightarrow> None | Some p \<Rightarrow> map_option (\<lambda>(vm, s). vm_get_capabilities vm s) (w p))"

definition VM_has_capability :: "nat option \<Rightarrow> u32 \<Rightarrow> ('s, 'h) vm_instances \<Rightarrow> bool option" where
  "VM_has_capability m capability w =
    map_option (\<lambda>capabilities. capabilities AND capability \<noteq> 0) (VM_get_capabilities m w)"

text \<open>The methods of the class give what the C functions give for its pointer.\<close>

lemma VM_accessors:
  "VM_is_abi_compatible (Some p) w = qrvmc_is_abi_compatible p w"
  "VM_name (Some p) w = qrvmc_vm_name p w"
  "VM_version (Some p) w = qrvmc_vm_version p w"
  "VM_has_capability (Some p) capability w = qrvmc_vm_has_capability p capability w"
  by (cases "w p"; simp add: VM_is_abi_compatible_def qrvmc_is_abi_compatible_def VM_name_def
      qrvmc_vm_name_def VM_version_def qrvmc_vm_version_def VM_has_capability_def
      VM_get_capabilities_def qrvmc_vm_has_capability_def split: prod.splits)+

text \<open>The three \<open>execute\<close> functions: with a host interface, with a \<open>Host\<close> object, without a host.\<close>

definition VM_execute ::
    "nat option \<Rightarrow> 'h host_methods \<Rightarrow> qrvmc_revision \<Rightarrow> view qrvmc_message \<Rightarrow> u8 list \<Rightarrow>
      ('s, 'h) vm_instances \<Rightarrow> 'h \<Rightarrow> heap \<Rightarrow>
      (heap_ptr qrvmc_result \<times> ('s, 'h) vm_instances \<times> 'h \<times> heap) option" where
  "VM_execute m host revision msg code w h hp =
    (case m of None \<Rightarrow> None | Some p \<Rightarrow> qrvmc_execute p (Some host) revision msg code w h hp)"

definition VM_execute_Host ::
    "nat option \<Rightarrow> 'h host_methods \<Rightarrow> qrvmc_revision \<Rightarrow> view qrvmc_message \<Rightarrow> u8 list \<Rightarrow>
      ('s, 'h) vm_instances \<Rightarrow> 'h \<Rightarrow> heap \<Rightarrow>
      (heap_ptr qrvmc_result \<times> ('s, 'h) vm_instances \<times> 'h \<times> heap) option" where
  "VM_execute_Host m host revision msg code w h hp =
    VM_execute m (Host_get_interface host) revision msg code w h hp"

definition VM_execute_no_host ::
    "nat option \<Rightarrow> qrvmc_revision \<Rightarrow> view qrvmc_message \<Rightarrow> u8 list \<Rightarrow>
      ('s, 'h) vm_instances \<Rightarrow> 'h \<Rightarrow> heap \<Rightarrow>
      (heap_ptr qrvmc_result \<times> ('s, 'h) vm_instances \<times> 'h \<times> heap) option" where
  "VM_execute_no_host m revision msg code w h hp =
    (case m of None \<Rightarrow> None | Some p \<Rightarrow> qrvmc_execute p None revision msg code w h hp)"

subsection \<open>Programs with VM objects\<close>

text \<open>
  The objects of a program by number, each with its pointer, the instances, and the pointers that
  the program holds itself: \<open>New\<close> is a call of a create function that makes a new instance.
  \<open>Use\<close> is any method that may change the state of the instance and nothing else, as \<open>execute\<close>.
\<close>

record ('s, 'h) vm_world =
  vm_objects :: "nat \<Rightarrow> nat option option"
  vm_instances :: "('s, 'h) vm_instances"
  vm_raw :: "nat set"

datatype (dead 's, dead 'h) vm_op =
    New nat "('s, 'h) qrvmc_vm" 's
  | Default nat
  | Own nat "nat option"
  | Own_configured nat "nat option" "(string \<times> string option) list"
  | Move_object nat nat
  | Assign_object nat nat
  | Set nat string "string option"
  | Use nat "'s \<Rightarrow> 's"
  | End nat

fun vm_step :: "('s, 'h) vm_op \<Rightarrow> ('s, 'h) vm_world \<Rightarrow> ('s, 'h) vm_world option" where
  "vm_step (New p vm s) w =
    Some (w\<lparr>vm_instances := (vm_instances w)(p \<mapsto> (vm, s)), vm_raw := insert p (vm_raw w)\<rparr>)"
| "vm_step (Default i) w = Some (w\<lparr>vm_objects := (vm_objects w)(i \<mapsto> None)\<rparr>)"
| "vm_step (Own i vm) w =
    Some (w\<lparr>vm_objects := (vm_objects w)(i \<mapsto> vm), vm_raw := vm_raw w - set_option vm\<rparr>)"
| "vm_step (Own_configured i vm options) w =
    (case VM_configured vm options (vm_instances w) of
       None \<Rightarrow> None
     | Some (m, ws) \<Rightarrow> Some (w\<lparr>vm_instances := ws, vm_objects := (vm_objects w)(i \<mapsto> m),
         vm_raw := vm_raw w - set_option vm\<rparr>))"
| "vm_step (Move_object i j) w =
    (case vm_objects w j of
       None \<Rightarrow> None
     | Some other \<Rightarrow>
         (let (new, old) = VM_move other
          in Some (w\<lparr>vm_objects := (vm_objects w)(i \<mapsto> new, j \<mapsto> old)\<rparr>)))"
| "vm_step (Assign_object i j) w =
    (case (vm_objects w i, vm_objects w j) of
       (Some this, Some other) \<Rightarrow>
         (if i \<noteq> j then
            (case VM_reset this (vm_instances w) of
               None \<Rightarrow> None
             | Some (_, ws) \<Rightarrow>
                 (let (new, old) = VM_move other
                  in Some (w\<lparr>vm_instances := ws, vm_objects := (vm_objects w)(i \<mapsto> new, j \<mapsto> old)\<rparr>)))
          else Some w)
     | _ \<Rightarrow> None)"
| "vm_step (Set i name val) w =
    (case vm_objects w i of
       None \<Rightarrow> None
     | Some m \<Rightarrow>
         map_option (\<lambda>(_, ws). w\<lparr>vm_instances := ws\<rparr>) (VM_set_option m name val (vm_instances w)))"
| "vm_step (Use i f) w =
    (case vm_objects w i of
       Some (Some p) \<Rightarrow>
         (case vm_instances w p of
            None \<Rightarrow> None
          | Some (vm, s) \<Rightarrow> Some (w\<lparr>vm_instances := (vm_instances w)(p \<mapsto> (vm, f s))\<rparr>))
     | _ \<Rightarrow> None)"
| "vm_step (End i) w =
    (case vm_objects w i of
       None \<Rightarrow> None
     | Some m \<Rightarrow>
         map_option (\<lambda>(_, ws). w\<lparr>vm_objects := (vm_objects w)(i := None), vm_instances := ws\<rparr>)
           (VM_reset m (vm_instances w)))"

text \<open>
  What a program may do: a constructor makes a new object and takes a null pointer or one that the
  program holds; the other operations are on objects that are alive, and those that call the VM on
  objects that hold one.
\<close>

fun vm_op_enabled :: "('s, 'h) vm_op \<Rightarrow> ('s, 'h) vm_world \<Rightarrow> bool" where
  "vm_op_enabled (New p vm s) w \<longleftrightarrow>
    vm_instances w p = None \<and> p \<notin> vm_raw w \<and> (\<forall>s. vm_destroy vm s = None)"
| "vm_op_enabled (Default i) w \<longleftrightarrow> vm_objects w i = None"
| "vm_op_enabled (Own i vm) w \<longleftrightarrow> vm_objects w i = None \<and> set_option vm \<subseteq> vm_raw w"
| "vm_op_enabled (Own_configured i vm options) w \<longleftrightarrow> vm_objects w i = None \<and> set_option vm \<subseteq> vm_raw w"
| "vm_op_enabled (Move_object i j) w \<longleftrightarrow> vm_objects w i = None \<and> vm_objects w j \<noteq> None"
| "vm_op_enabled (Assign_object i j) w \<longleftrightarrow> vm_objects w i \<noteq> None \<and> vm_objects w j \<noteq> None"
| "vm_op_enabled (Set i name val) w \<longleftrightarrow> (\<exists>p. vm_objects w i = Some (Some p))"
| "vm_op_enabled (Use i f) w \<longleftrightarrow> (\<exists>p. vm_objects w i = Some (Some p))"
| "vm_op_enabled (End i) w \<longleftrightarrow> vm_objects w i \<noteq> None"

fun vm_run :: "('s, 'h) vm_op list \<Rightarrow> ('s, 'h) vm_world \<Rightarrow> ('s, 'h) vm_world option" where
  "vm_run [] w = Some w"
| "vm_run (op # ops) w = (case vm_step op w of None \<Rightarrow> None | Some w' \<Rightarrow> vm_run ops w')"

fun vm_ops_enabled :: "('s, 'h) vm_op list \<Rightarrow> ('s, 'h) vm_world \<Rightarrow> bool" where
  "vm_ops_enabled [] w \<longleftrightarrow> True"
| "vm_ops_enabled (op # ops) w \<longleftrightarrow>
    vm_op_enabled op w \<and> (case vm_step op w of None \<Rightarrow> True | Some w' \<Rightarrow> vm_ops_enabled ops w')"

subsection \<open>Ownership\<close>

definition vm_holds :: "('s, 'h) vm_world \<Rightarrow> nat \<Rightarrow> nat \<Rightarrow> bool" where
  "vm_holds w i p \<longleftrightarrow> vm_objects w i = Some (Some p)"

text \<open>The instances are exactly those that one object or the program itself holds.\<close>

definition vm_inv :: "('s, 'h) vm_world \<Rightarrow> bool" where
  "vm_inv w \<longleftrightarrow>
    (\<forall>i p. vm_holds w i p \<longrightarrow> p \<notin> vm_raw w) \<and>
    (\<forall>i j p. vm_holds w i p \<longrightarrow> vm_holds w j p \<longrightarrow> i = j) \<and>
    (\<forall>p. vm_instances w p \<noteq> None \<longleftrightarrow> p \<in> vm_raw w \<or> (\<exists>i. vm_holds w i p)) \<and>
    (\<forall>p vm s. vm_instances w p = Some (vm, s) \<longrightarrow> (\<forall>s'. vm_destroy vm s' = None))"

text \<open>Calls that only change the states of instances.\<close>

definition same_vms :: "('s, 'h) vm_instances \<Rightarrow> ('s, 'h) vm_instances \<Rightarrow> bool" where
  "same_vms ws ws' \<longleftrightarrow> (\<forall>p. map_option fst (ws' p) = map_option fst (ws p))"

lemma same_vms_refl [simp]: "same_vms ws ws"
  by (simp add: same_vms_def)

lemma same_vms_trans [trans]: "same_vms ws ws' \<Longrightarrow> same_vms ws' ws'' \<Longrightarrow> same_vms ws ws''"
  by (simp add: same_vms_def)

lemma same_vms_update: "ws p = Some (vm, s) \<Longrightarrow> same_vms ws (ws(p \<mapsto> (vm, s')))"
  by (simp add: same_vms_def)

lemma same_vms_None: "same_vms ws ws' \<Longrightarrow> ws' p = None \<longleftrightarrow> ws p = None"
  using map_option_is_None [of fst "ws' p"] map_option_is_None [of fst "ws p"]
  by (simp add: same_vms_def)

lemma same_vms_Some: "same_vms ws ws' \<Longrightarrow> ws' p = Some (vm, s') \<Longrightarrow> \<exists>s. ws p = Some (vm, s)"
  unfolding same_vms_def by (drule spec [of _ p]) (auto simp: map_option_case split: option.splits)

lemma qrvmc_set_option_same:
  assumes "ws p \<noteq> None"
  obtains r ws' where "qrvmc_set_option p name val ws = Some (r, ws')" "same_vms ws ws'"
proof -
  obtain vm s where p: "ws p = Some (vm, s)" using assms by auto
  show ?thesis
  proof (cases "vm_set_option vm")
    case None
    then show ?thesis using p by (intro that) (auto simp: qrvmc_set_option_def)
  next
    case (Some f)
    obtain r s' where "f name val s = (r, s')" by fastforce
    then show ?thesis
      using p Some by (intro that) (auto simp: qrvmc_set_option_def intro: same_vms_update)
  qed
qed

lemma VM_set_options_same:
  assumes "ws p \<noteq> None"
  shows "\<exists>ws'. VM_set_options (Some p) options ws = Some ws' \<and> same_vms ws ws'"
  using assms
proof (induction options arbitrary: ws)
  case (Cons nv options)
  obtain name val where nv: "nv = (name, val)" by fastforce
  obtain r ws1 where step: "qrvmc_set_option p name val ws = Some (r, ws1)" "same_vms ws ws1"
    using qrvmc_set_option_same [of ws p, OF Cons.prems] by blast
  then obtain ws' where "VM_set_options (Some p) options ws1 = Some ws'" "same_vms ws1 ws'"
    using Cons.IH [of ws1] Cons.prems same_vms_None [OF step(2), of p] by auto
  then show ?case
    using step by (auto simp: nv VM_set_option_def intro: same_vms_trans)
qed simp

lemma vm_inv_same:
  assumes "vm_inv w" "same_vms (vm_instances w) ws"
  shows "vm_inv (w\<lparr>vm_instances := ws\<rparr>)"
proof -
  have holds: "vm_holds (w\<lparr>vm_instances := ws\<rparr>) = vm_holds w"
    by (simp add: vm_holds_def fun_eq_iff)
  have "vm_destroy vm s' = None" if "ws p = Some (vm, s)" for p vm s s'
    using same_vms_Some [OF assms(2) that] assms(1) unfolding vm_inv_def by blast
  then show ?thesis
    using assms(1) by (simp add: vm_inv_def holds same_vms_None [OF assms(2)])
qed

text \<open>Taking a raw pointer, moving a pointer between objects, destroying the instance of an object.\<close>

lemma vm_inv_own:
  assumes "vm_inv w" "vm_objects w i = None" "set_option vm \<subseteq> vm_raw w"
  shows "vm_inv (w\<lparr>vm_objects := (vm_objects w)(i \<mapsto> vm), vm_raw := vm_raw w - set_option vm\<rparr>)"
    (is "vm_inv ?w")
proof -
  have holds: "vm_holds ?w j p \<longleftrightarrow> vm_holds w j p \<or> j = i \<and> vm = Some p" for j p
    using assms(2) by (auto simp: vm_holds_def)
  have raw: "p \<in> vm_raw ?w \<longleftrightarrow> p \<in> vm_raw w \<and> vm \<noteq> Some p" for p
    by (auto simp: elem_set)
  have "vm = Some p \<Longrightarrow> p \<in> vm_raw w" for p
    using assms(3) by auto
  then show ?thesis
    using assms(1) unfolding vm_inv_def holds raw by auto
qed

lemma vm_inv_move:
  assumes "vm_inv w" "vm_objects w i = None \<or> vm_objects w i = Some None" "vm_objects w j = Some m" "i \<noteq> j"
  shows "vm_inv (w\<lparr>vm_objects := (vm_objects w)(i \<mapsto> m, j \<mapsto> None)\<rparr>)" (is "vm_inv ?w")
proof -
  have holds: "vm_holds ?w k p \<longleftrightarrow> (if k = i then vm_holds w j p else k \<noteq> j \<and> vm_holds w k p)" for k p
    using assms(3,4) by (auto simp: vm_holds_def)
  have "\<not> vm_holds w i p" for p
    using assms(2) by (auto simp: vm_holds_def)
  then have some: "(\<exists>k. vm_holds ?w k p) \<longleftrightarrow> (\<exists>k. vm_holds w k p)" for p
    unfolding holds using assms(4) by metis
  have "\<And>k p. vm_holds ?w k p \<Longrightarrow> p \<notin> vm_raw w" "\<And>k l p. vm_holds ?w k p \<Longrightarrow> vm_holds ?w l p \<Longrightarrow> k = l"
    using assms(1) unfolding holds vm_inv_def by (auto split: if_splits)
  then show ?thesis
    using assms(1) some unfolding vm_inv_def by simp
qed

lemma vm_inv_reset:
  assumes "vm_inv w" "vm_objects w i = Some m" "x = None \<or> x = Some None"
  shows "\<exists>ws. VM_reset m (vm_instances w) = Some (None, ws) \<and>
    vm_inv (w\<lparr>vm_objects := (vm_objects w)(i := x), vm_instances := ws\<rparr>)"
proof (cases m)
  case None
  then have "vm_holds (w\<lparr>vm_objects := (vm_objects w)(i := x)\<rparr>) = vm_holds w"
    using assms(2,3) by (auto simp: vm_holds_def fun_eq_iff)
  then have "vm_inv (w\<lparr>vm_objects := (vm_objects w)(i := x)\<rparr>)"
    using assms(1) by (simp add: vm_inv_def)
  then show ?thesis by (simp add: None VM_reset_def)
next
  case (Some p)
  then obtain vm s where p: "vm_instances w p = Some (vm, s)" "vm_destroy vm s = None"
    using assms(1,2) unfolding vm_inv_def vm_holds_def by (metis not_None_eq surj_pair)
  then have "VM_reset m (vm_instances w) = Some (None, (vm_instances w)(p := None))"
    by (simp add: Some VM_reset_def qrvmc_destroy_def)
  moreover have "vm_inv (w\<lparr>vm_objects := (vm_objects w)(i := x),
      vm_instances := (vm_instances w)(p := None)\<rparr>)"
    using assms Some unfolding vm_inv_def vm_holds_def by (auto; metis option.inject)
  ultimately show ?thesis by blast
qed

lemma vm_step_inv:
  assumes "vm_inv w" "vm_op_enabled op w"
  shows "\<exists>w'. vm_step op w = Some w' \<and> vm_inv w'"
proof (cases op)
  case (New p vm s)
  then show ?thesis using assms by (auto simp: vm_inv_def vm_holds_def)
next
  case (Default i)
  then show ?thesis using assms vm_inv_own [of w i None] by simp
next
  case (Own i vm)
  then show ?thesis using assms vm_inv_own [of w i vm] by simp
next
  case (Own_configured i vm options)
  have "\<exists>ws. VM_configured vm options (vm_instances w) = Some (vm, ws) \<and> same_vms (vm_instances w) ws"
  proof (cases vm)
    case None
    then show ?thesis by (simp add: VM_configured_def)
  next
    case (Some p)
    then have "vm_instances w p \<noteq> None"
      using assms Own_configured unfolding vm_inv_def by auto
    from VM_set_options_same [of "vm_instances w" p, OF this, of options] show ?thesis
      by (auto simp: VM_configured_def Some)
  qed
  then obtain ws where ws: "VM_configured vm options (vm_instances w) = Some (vm, ws)"
    "same_vms (vm_instances w) ws" by blast
  have "vm_inv (w\<lparr>vm_instances := ws, vm_objects := (vm_objects w)(i \<mapsto> vm),
      vm_raw := vm_raw w - set_option vm\<rparr>)"
    using vm_inv_own [OF vm_inv_same [OF assms(1) ws(2)], of i vm] assms(2) Own_configured by simp
  then show ?thesis by (simp add: Own_configured ws(1))
next
  case (Move_object i j)
  then show ?thesis using assms vm_inv_move [of w i j] by (cases "i = j") (auto simp: VM_move_def)
next
  case (Assign_object i j)
  then obtain this other where objs: "vm_objects w i = Some this" "vm_objects w j = Some other"
    using assms(2) by auto
  obtain ws where ws: "VM_reset this (vm_instances w) = Some (None, ws)"
    "vm_inv (w\<lparr>vm_objects := (vm_objects w)(i \<mapsto> None), vm_instances := ws\<rparr>)"
    using vm_inv_reset [OF assms(1) objs(1), of "Some None"] by blast
  have "vm_inv (w\<lparr>vm_instances := ws, vm_objects := (vm_objects w)(i \<mapsto> other, j \<mapsto> None)\<rparr>)" if "i \<noteq> j"
    using vm_inv_move [OF ws(2), of i j other] that objs by (simp add: fun_upd_twist)
  then show ?thesis
    using assms(1) by (auto simp: Assign_object objs ws(1) VM_move_def)
next
  case (Set i name val)
  then obtain p where p: "vm_objects w i = Some (Some p)" using assms(2) by auto
  then have "vm_instances w p \<noteq> None"
    using assms(1) by (auto simp: vm_inv_def vm_holds_def)
  from qrvmc_set_option_same [of "vm_instances w" p, OF this, of name val] obtain r ws
    where "qrvmc_set_option p name val (vm_instances w) = Some (r, ws)" "same_vms (vm_instances w) ws"
    by blast
  then show ?thesis using vm_inv_same [OF assms(1)] by (simp add: Set p VM_set_option_def)
next
  case (Use i f)
  then obtain p where p: "vm_objects w i = Some (Some p)" using assms(2) by auto
  then obtain vm s where "vm_instances w p = Some (vm, s)"
    using assms(1) unfolding vm_inv_def vm_holds_def by (metis not_None_eq surj_pair)
  then show ?thesis
    using vm_inv_same [OF assms(1) same_vms_update] by (simp add: Use p)
next
  case (End i)
  then obtain m where m: "vm_objects w i = Some m" using assms(2) by auto
  from vm_inv_reset [OF assms(1) this, of None] show ?thesis by (auto simp: End m)
qed

lemma vm_run_inv:
  assumes "vm_inv w" "vm_ops_enabled ops w"
  shows "\<exists>w'. vm_run ops w = Some w' \<and> vm_inv w'"
  using assms
proof (induction ops arbitrary: w)
  case (Cons op ops)
  from vm_step_inv [OF Cons.prems(1)] Cons.prems(2) obtain w1
    where "vm_step op w = Some w1" "vm_inv w1" by auto
  then show ?case using Cons.IH [of w1] Cons.prems(2) by simp
qed simp

subsection \<open>Properties\<close>

text \<open>C9: A program that makes VM instances and constructs, configures, moves, move-assigns (also to
itself), uses and ends \<open>VM\<close> objects never calls a method of an instance that is gone, never destroys
an instance twice and never loses one: after any such sequence the instances that are left are
exactly those that one object or the program itself holds, so that none is left when there are no
objects and no raw pointers.\<close>

theorem vm_object_ownership:
  assumes "vm_ops_enabled ops \<lparr>vm_objects = (\<lambda>_. None), vm_instances = (\<lambda>_. None), vm_raw = {}\<rparr>"
  shows "\<exists>w. vm_run ops \<lparr>vm_objects = (\<lambda>_. None), vm_instances = (\<lambda>_. None), vm_raw = {}\<rparr> = Some w \<and>
    (\<forall>p. vm_instances w p \<noteq> None \<longleftrightarrow> p \<in> vm_raw w \<or> (\<exists>i. vm_objects w i = Some (Some p))) \<and>
    (\<forall>i j p. vm_objects w i = Some (Some p) \<and> vm_objects w j = Some (Some p) \<longrightarrow> i = j)"
proof -
  have "vm_inv \<lparr>vm_objects = (\<lambda>_. None), vm_instances = (\<lambda>_. None), vm_raw = {}\<rparr>"
    by (simp add: vm_inv_def vm_holds_def)
  from vm_run_inv [OF this assms] obtain w
    where w: "vm_run ops \<lparr>vm_objects = (\<lambda>_. None), vm_instances = (\<lambda>_. None), vm_raw = {}\<rparr> = Some w"
      "vm_inv w"
    by blast
  from w(2) have "\<forall>p. vm_instances w p \<noteq> None \<longleftrightarrow> p \<in> vm_raw w \<or> (\<exists>i. vm_objects w i = Some (Some p))"
    "\<forall>i j p. vm_objects w i = Some (Some p) \<and> vm_objects w j = Some (Some p) \<longrightarrow> i = j"
    by (simp_all add: vm_inv_def vm_holds_def)
  with w(1) show ?thesis by blast
qed

theorem vm_object_ownership_witness:
  "\<exists>w. vm_run [New 3 \<lparr>vm_abi_version = 12, vm_name = ''a'', vm_version = ''1'', vm_destroy = \<lambda>_. None,
        vm_execute = \<lambda>_ _ _ _ _ _ _. None, vm_get_capabilities = \<lambda>_. 1,
        vm_set_option = Some (\<lambda>_ _ s. (QRVMC_SET_OPTION_SUCCESS, Suc s))\<rparr> 0,
      Own_configured 0 (Some 3) [(''x'', Some ''1'')], Default 1, Assign_object 1 0, Set 1 ''y'' None,
      Move_object 2 1, End 0, End 1, Use 2 Suc, End 2]
    \<lparr>vm_objects = (\<lambda>_. None), vm_instances = (\<lambda>_. None), vm_raw = {}\<rparr> =
    Some (w :: (nat, nat) vm_world) \<and>
    (\<forall>p. vm_instances w p \<noteq> None \<longleftrightarrow> p \<in> vm_raw w \<or> (\<exists>i. vm_objects w i = Some (Some p))) \<and>
    (\<forall>i j p. vm_objects w i = Some (Some p) \<and> vm_objects w j = Some (Some p) \<longrightarrow> i = j)"
  by (rule vm_object_ownership)
    (simp add: VM_configured_def VM_set_option_def qrvmc_set_option_def VM_move_def VM_reset_def
      qrvmc_destroy_def)

end
