(* ===== verification/CString.thy ===== *)
theory CString
  imports Prelude
begin

text \<open>
  What the sources use of the C library on strings. A C string is the list of its characters
  before the terminating null, so it has no null in it; a buffer is the list of all its characters,
  and a pointer into it an index.

  \<open>decimal\<close> is the \<open>%d\<close> of \<open>printf\<close>, \<open>strtol_auto\<close> is \<open>strtol\<close> with base 0 for 64-bit \<open>long\<close>.
\<close>

subsection \<open>Decimal numbers\<close>

definition digit_char :: "nat \<Rightarrow> char" where
  "digit_char d = char_of (48 + d)"

fun decimal_nat :: "nat \<Rightarrow> string" where
  "decimal_nat n =
    (if n < 10 then [digit_char n] else decimal_nat (n div 10) @ [digit_char (n mod 10)])"

declare decimal_nat.simps [simp del]

definition decimal :: "int \<Rightarrow> string" where
  "decimal k = (if k < 0 then CHR ''-'' # decimal_nat (nat (- k)) else decimal_nat (nat k))"

subsection \<open>Reading numbers\<close>

definition c_isspace :: "char \<Rightarrow> bool" where
  "c_isspace c \<longleftrightarrow> c = CHR '' '' \<or> 9 \<le> (of_char c :: nat) \<and> (of_char c :: nat) \<le> 13"

text \<open>The value of a digit or letter, and 36 for other characters.\<close>

definition digit_value :: "char \<Rightarrow> nat" where
  "digit_value c =
    (let n = of_char c :: nat in
     if 48 \<le> n \<and> n \<le> 57 then n - 48
     else if 97 \<le> n \<and> n \<le> 122 then n - 87
     else if 65 \<le> n \<and> n \<le> 90 then n - 55 else 36)"

definition digits_value :: "nat \<Rightarrow> string \<Rightarrow> nat" where
  "digits_value base = foldl (\<lambda>v c. v * base + digit_value c) 0"

definition strtol_sign :: "string \<Rightarrow> bool \<times> string" where
  "strtol_sign s =
    (case s of
       c # t \<Rightarrow> if c = CHR ''-'' then (True, t) else if c = CHR ''+'' then (False, t) else (False, s)
     | [] \<Rightarrow> (False, s))"

text \<open>The base that the prefix chooses, and the text without the prefix of hexadecimal numbers.\<close>

definition strtol_base :: "string \<Rightarrow> nat \<times> string" where
  "strtol_base s =
    (if take 1 s = ''0'' then
       (if length s > 2 \<and> (s ! 1 = CHR ''x'' \<or> s ! 1 = CHR ''X'') \<and> digit_value (s ! 2) < 16
        then (16, drop 2 s) else (8, s))
     else (10, s))"

definition long_clamp :: "int \<Rightarrow> int" where
  "long_clamp v = max (- (2 ^ 63)) (min (2 ^ 63 - 1) v)"

text \<open>The number and the text after it, or the whole text when there is no number.\<close>

definition strtol_auto :: "string \<Rightarrow> int \<times> string" where
  "strtol_auto s =
    (let (neg, t) = strtol_sign (dropWhile c_isspace s);
         (base, u) = strtol_base t;
         ds = takeWhile (\<lambda>c. digit_value c < base) u
     in if ds = [] then (0, s)
        else (long_clamp ((if neg then - 1 else 1) * int (digits_value base ds)), drop (length ds) u))"

subsection \<open>Reading back decimal numbers\<close>

lemma digit_value_char [simp]: "d < 10 \<Longrightarrow> digit_value (digit_char d) = d"
  by (simp add: digit_value_def digit_char_def of_char_of take_bit_eq_mod)

lemma digit_char_code: "d < 10 \<Longrightarrow> of_char (digit_char d) = 48 + d"
  by (simp add: digit_char_def of_char_of take_bit_eq_mod)

lemma decimal_nat_digits: "\<forall>c \<in> set (decimal_nat n). \<exists>d < 10. c = digit_char d"
proof (induction n rule: decimal_nat.induct)
  case (1 n)
  then show ?case
    by (cases "n < 10") (auto simp: decimal_nat.simps [of n] intro: exI [of _ n] exI [of _ "n mod 10"])
qed

lemma digits_value_snoc: "digits_value base (ds @ [c]) = digits_value base ds * base + digit_value c"
  by (simp add: digits_value_def)

lemma digits_value_decimal [simp]: "digits_value 10 (decimal_nat n) = n"
proof (induction n rule: decimal_nat.induct)
  case (1 n)
  then show ?case
    by (cases "n < 10") (simp_all add: decimal_nat.simps [of n] digits_value_snoc, simp add: digits_value_def)
qed

lemma decimal_nat_Cons:
  "\<exists>d ds. decimal_nat n = digit_char d # ds \<and> d < 10 \<and> (d = 0 \<longleftrightarrow> n = 0) \<and> (n = 0 \<longrightarrow> ds = [])"
proof (induction n rule: decimal_nat.induct)
  case (1 n)
  show ?case
  proof (cases "n < 10")
    case False
    then obtain d ds where "decimal_nat (n div 10) = digit_char d # ds" "d < 10" "d \<noteq> 0"
      using "1.IH" by (auto simp: div_eq_0_iff)
    then show ?thesis using False by (auto simp: decimal_nat.simps [of n])
  qed (auto simp: decimal_nat.simps [of n])
qed

lemma strtol_base_decimal:
  "\<exists>base. strtol_base (decimal_nat n) = (base, decimal_nat n) \<and> (base = 10 \<or> base = 8 \<and> n = 0)"
proof -
  obtain d ds where n: "decimal_nat n = digit_char d # ds" "d < 10" "d = 0 \<longleftrightarrow> n = 0" "n = 0 \<longrightarrow> ds = []"
    using decimal_nat_Cons [of n] by blast
  show ?thesis
  proof (cases "n = 0")
    case True
    then show ?thesis using n by (simp add: strtol_base_def)
  next
    case False
    have "digit_char d \<noteq> CHR ''0''"
      using False n digit_char_code [OF n(2)] by auto
    then show ?thesis using n by (simp add: strtol_base_def)
  qed
qed

lemma takeWhile_decimal:
  "takeWhile (\<lambda>c. digit_value c < 10) (decimal_nat n) = decimal_nat n"
  using decimal_nat_digits [of n] by (intro takeWhile_eq_all_conv [THEN iffD2]) auto

lemma decimal_nat_0 [simp]: "decimal_nat 0 = ''0''"
  by (simp add: decimal_nat.simps [of 0] digit_char_def) code_simp

lemma strtol_unsigned:
  fixes sg :: int
  shows "(let (base, u) = strtol_base (decimal_nat n); ds = takeWhile (\<lambda>c. digit_value c < base) u
    in if ds = [] then (0, s) else (long_clamp (sg * int (digits_value base ds)), drop (length ds) u)) =
   (long_clamp (sg * int n), [])"
proof -
  obtain base where base: "strtol_base (decimal_nat n) = (base, decimal_nat n)"
    "base = 10 \<or> base = 8 \<and> n = 0"
    using strtol_base_decimal by blast
  have "decimal_nat n \<noteq> []"
    using decimal_nat_Cons [of n] by auto
  moreover have "digit_value CHR ''0'' = 0"
    by (simp add: digit_value_def)
  ultimately show ?thesis
    using base by (auto simp: takeWhile_decimal digits_value_def [of 8])
qed

text \<open>\<open>strtol\<close> reads what \<open>%d\<close> prints, up to the end, limited to the range of \<open>long\<close>.\<close>

lemma strtol_decimal: "strtol_auto (decimal k) = (long_clamp k, [])"
proof (cases "k < 0")
  case True
  then have "dropWhile c_isspace (decimal k) = CHR ''-'' # decimal_nat (nat (- k))"
    by (simp add: decimal_def c_isspace_def)
  then show ?thesis
    using strtol_unsigned [of "nat (- k)" "decimal k" "- 1"] True
    by (simp add: strtol_auto_def strtol_sign_def)
next
  case False
  obtain d ds where n: "decimal_nat (nat k) = digit_char d # ds" "d < 10"
    using decimal_nat_Cons [of "nat k"] by blast
  have "\<not> c_isspace (digit_char d)" "digit_char d \<noteq> CHR ''-''" "digit_char d \<noteq> CHR ''+''"
    using digit_char_code [OF n(2)] by (auto simp: c_isspace_def)
  then have "strtol_sign (dropWhile c_isspace (decimal k)) = (False, decimal_nat (nat k))"
    using False n by (simp add: decimal_def strtol_sign_def)
  then show ?thesis
    using strtol_unsigned [of "nat k" "decimal k" 1] False by (simp add: strtol_auto_def)
qed

end
