(* ===== verification/ExampleInstance.thy ===== *)
theory ExampleInstance
  imports VM VMContract CString
begin

text \<open>
  The instance around the interpreter of \<open>examples/example_vm/example_vm.cpp\<close>: its struct, which
  extends \<open>qrvmc_vm\<close> by the verbosity, construction, destruction, capabilities and options.

  A verbosity above zero makes the VM print a line when an execution starts, which is not modelled.
\<close>

subsection \<open>Options\<close>

record ExampleVM =
  verbose :: int

definition ExampleVM_new :: ExampleVM where
  "ExampleVM_new = \<lparr>verbose = 0\<rparr>"

definition ExampleVM_get_capabilities :: "ExampleVM \<Rightarrow> u32" where
  "ExampleVM_get_capabilities vm = QRVMC_CAPABILITY_QRVM1"

definition ExampleVM_set_option ::
    "string \<Rightarrow> string option \<Rightarrow> ExampleVM \<Rightarrow> qrvmc_set_option_result \<times> ExampleVM" where
  "ExampleVM_set_option name val vm =
    (if name = ''verbose'' then
       (case val of
          None \<Rightarrow> (QRVMC_SET_OPTION_INVALID_VALUE, vm)
        | Some text \<Rightarrow>
            (let (v, end_text) = strtol_auto text in
             if end_text = text then (QRVMC_SET_OPTION_INVALID_VALUE, vm)
             else if v > 9 \<or> v < - 1 then (QRVMC_SET_OPTION_INVALID_VALUE, vm)
             else (QRVMC_SET_OPTION_SUCCESS, vm\<lparr>verbose := v\<rparr>)))
     else (QRVMC_SET_OPTION_INVALID_NAME, vm))"

subsection \<open>The instance\<close>

text \<open>\<open>delete\<close> leaves nothing.\<close>

definition ExampleVM_destroy :: "ExampleVM \<Rightarrow> ExampleVM option" where
  "ExampleVM_destroy vm = None"

text \<open>The methods of a null host interface cannot be called.\<close>

definition null_interface :: "'h host_methods" where
  "null_interface =
    \<lparr>hi_account_exists = \<lambda>_ _. None, hi_get_storage = \<lambda>_ _ _. None, hi_set_storage = \<lambda>_ _ _ _. None,
     hi_get_balance = \<lambda>_ _. None, hi_get_code_size = \<lambda>_ _. None, hi_get_code_hash = \<lambda>_ _. None,
     hi_copy_code = \<lambda>_ _ _ _ _. None, hi_call = \<lambda>_ _ _. None, hi_get_tx_context = \<lambda>_. None,
     hi_get_block_hash = \<lambda>_ _. None, hi_emit_log = \<lambda>_ _ _ _ _ _. None,
     hi_access_account = \<lambda>_ _. None, hi_access_storage = \<lambda>_ _ _. None\<rparr>"

definition ExampleVM_execute ::
    "release_table \<Rightarrow> 'h host_methods option \<Rightarrow> qrvmc_revision \<Rightarrow> view qrvmc_message \<Rightarrow> u8 list \<Rightarrow>
      ExampleVM \<Rightarrow> 'h \<Rightarrow> heap \<Rightarrow> (heap_ptr qrvmc_result \<times> ExampleVM \<times> 'h \<times> heap) option" where
  "ExampleVM_execute other host revision msg code vm h hp =
    (case execute (case host of None \<Rightarrow> null_interface | Some H \<Rightarrow> H) other msg code h hp of
       Done r h' hp' \<Rightarrow> Some (r, vm, h', hp')
     | _ \<Rightarrow> None)"

definition ExampleVM_methods :: "release_table \<Rightarrow> string \<Rightarrow> (ExampleVM, 'h) qrvmc_vm" where
  "ExampleVM_methods other project_version =
    \<lparr>vm_abi_version = QRVMC_ABI_VERSION, vm_name = ''example_vm'', vm_version = project_version,
     vm_destroy = ExampleVM_destroy, vm_execute = ExampleVM_execute other,
     vm_get_capabilities = ExampleVM_get_capabilities,
     vm_set_option = Some ExampleVM_set_option\<rparr>"

text \<open>\<open>new (std::nothrow)\<close> gives an address where there is no instance yet, or null.\<close>

definition qrvmc_create_example_vm ::
    "release_table \<Rightarrow> string \<Rightarrow> nat option \<Rightarrow> (ExampleVM, 'h) vm_instances \<Rightarrow>
      nat option \<times> (ExampleVM, 'h) vm_instances" where
  "qrvmc_create_example_vm other project_version address w =
    (case address of
       None \<Rightarrow> (None, w)
     | Some p \<Rightarrow> (Some p, w(p \<mapsto> (ExampleVM_methods other project_version, ExampleVM_new))))"

subsection \<open>Properties\<close>


text \<open>Run through the C++ class on an instance that the create function made, with a \<open>Host\<close> object
that behaves well, the example VM returns, its result can be released without a leak, and the
instance is there as before; it reports the interface version of the client and the one capability
of executing bytecode.\<close>

theorem example_vm_through_class:
  assumes "host_contract (Host_get_interface H) other I" "I h" "heap_ok hp" "message_ok msg"
    and "qrvmc_create_example_vm other project_version (Some p) w = (m, w1)"
  shows "\<exists>r h' hp' hp''. VM_execute_Host m H revision msg code w1 h hp = Some (r, w1, h', hp') \<and>
    I h' \<and> qrvmc_release_result other r hp' = Some hp'' \<and> heap_blocks hp'' = heap_blocks hp \<and>
    qrvmc_is_abi_compatible (the m) w1 = Some True \<and>
    VM_has_capability m QRVMC_CAPABILITY_QRVM1 w1 = Some True \<and>
    VM_has_capability m QRVMC_CAPABILITY_PRECOMPILES w1 = Some False"
proof -
  obtain r h' hp' hp'' where run: "execute (Host_get_interface H) other msg code h hp = Done r h' hp'"
    "I h'" "qrvmc_release_result other r hp' = Some hp''" "heap_blocks hp'' = heap_blocks hp"
    using execute_released [OF assms(1-4)] by blast
  have m: "m = Some p" "w1 = w(p \<mapsto> (ExampleVM_methods other project_version, ExampleVM_new))"
    using assms(5) by (simp_all add: qrvmc_create_example_vm_def)
  have "VM_execute_Host m H revision msg code w1 h hp = Some (r, w1, h', hp')"
    by (simp add: m VM_execute_Host_def VM_execute_def qrvmc_execute_def ExampleVM_methods_def
        ExampleVM_execute_def run(1))
  moreover have "qrvmc_is_abi_compatible (the m) w1 = Some True"
    by (simp add: m qrvmc_is_abi_compatible_def ExampleVM_methods_def)
  moreover have "VM_has_capability m QRVMC_CAPABILITY_QRVM1 w1 = Some True"
    "VM_has_capability m QRVMC_CAPABILITY_PRECOMPILES w1 = Some False"
    by (simp_all add: m VM_has_capability_def VM_get_capabilities_def qrvmc_vm_has_capability_def ExampleVM_methods_def
        ExampleVM_get_capabilities_def QRVMC_CAPABILITY_QRVM1_def QRVMC_CAPABILITY_PRECOMPILES_def)
  ultimately show ?thesis using run by blast
qed

theorem example_vm_through_class_witness:
  "\<exists>r h' hp' hp''. VM_execute_Host (Some 5) mocked_methods QRVMC_ZOND
      ((message_zero (Some [1, 2]))\<lparr>msg_gas := 100, msg_input_size := 2\<rparr>) [0x60, 1, 0x60, 0, 0x55]
      (\<lambda>p. if p = 5 then Some (ExampleVM_methods (\<lambda>_ _ _. None) ''0.0.0'', ExampleVM_new) else None)
      (mocked_host_new 0) heap_empty =
    Some (r, (\<lambda>p. if p = 5 then Some (ExampleVM_methods (\<lambda>_ _ _. None) ''0.0.0'', ExampleVM_new) else None),
      h', hp') \<and> canned_ok h' \<and>
    qrvmc_release_result (\<lambda>_ _ _. None) r hp' = Some hp'' \<and> heap_blocks hp'' = heap_blocks heap_empty"
proof -
  have made: "qrvmc_create_example_vm (\<lambda>_ _ _. None) ''0.0.0'' (Some 5) (\<lambda>_. None) = (Some 5,
      \<lambda>p. if p = 5 then Some (ExampleVM_methods (\<lambda>_ _ _. None) ''0.0.0'', ExampleVM_new) else None)"
    by (auto simp: qrvmc_create_example_vm_def)
  have canned: "canned_ok (mocked_host_new 0)"
    by (simp add: canned_ok_def mocked_host_new_def view_result_zero_def)
  have msg: "message_ok ((message_zero (Some [1, 2]))\<lparr>msg_gas := 100, msg_input_size := 2\<rparr>)"
    by (simp add: message_ok_def message_zero_def int32_ok_def int64_ok_def)
  have heap: "heap_ok heap_empty" by simp
  from example_vm_through_class [OF mocked_host_contract canned heap msg made, of QRVMC_ZOND
      "[0x60, 1, 0x60, 0, 0x55]"]
  show ?thesis by blast
qed

end
