(* ===== verification/Precompiles.thy ===== *)
theory Precompiles
  imports VM VMContract
begin

text \<open>
  The VM of \<open>examples/example_precompiles_vm/example_precompiles_vm.cpp\<close>, which executes precompiled
  contracts: the code address of the message selects the contract, the code and the host are not
  used. Numbers of words are \<open>uint64_t\<close>, gas is \<open>int64_t\<close>.
\<close>

subsection \<open>The contracts\<close>

definition identity_base_gas :: int where
  "identity_base_gas = 15"

definition identity_word_gas :: int where
  "identity_word_gas = 3"

definition identity_word_size :: nat where
  "identity_word_size = 32"

definition max_input_words :: u64 where
  "max_input_words = word_of_int (((2 ^ 63 - 1) - identity_base_gas) div identity_word_gas)"

definition execute_identity :: "view qrvmc_message \<Rightarrow> heap \<Rightarrow> (heap_ptr qrvmc_result \<times> heap) option" where
  "execute_identity msg hp =
    (let input_words = (word_of_nat (msg_input_size msg div identity_word_size) :: u64) +
           of_bool (msg_input_size msg mod identity_word_size \<noteq> 0)
     in if input_words > max_input_words
        then Some (result_zero\<lparr>status_code := QRVMC_OUT_OF_GAS\<rparr>, hp)
        else let gas_cost = identity_base_gas + identity_word_gas * sint input_words
          in if msg_gas msg < gas_cost
             then Some (result_zero\<lparr>status_code := QRVMC_OUT_OF_GAS\<rparr>, hp)
             else qrvmc_make_result QRVMC_SUCCESS (msg_gas msg - gas_cost) 0 (msg_input_data msg)
               (msg_input_size msg) hp)"

definition execute_empty :: "view qrvmc_message \<Rightarrow> heap_ptr qrvmc_result" where
  "execute_empty msg = result_zero\<lparr>status_code := QRVMC_SUCCESS, gas_left := msg_gas msg\<rparr>"

definition not_implemented :: "heap_ptr qrvmc_result" where
  "not_implemented = result_zero\<lparr>status_code := QRVMC_REJECTED\<rparr>"

subsection \<open>Selecting the contract\<close>

definition precompile_prefix_size :: nat where
  "precompile_prefix_size = 64 - 2"

definition precompile_id :: "u8 list \<Rightarrow> int" where
  "precompile_id bytes =
    push_bit 8 (uint (bytes ! precompile_prefix_size)) OR uint (bytes ! (precompile_prefix_size + 1))"

definition precompiles_execute :: "view qrvmc_message \<Rightarrow> heap \<Rightarrow> (heap_ptr qrvmc_result \<times> heap) option" where
  "precompiles_execute msg hp =
    (let bytes = address_bytes (msg_code_address msg) in
     if list_ex (\<lambda>x. x \<noteq> 0) (take precompile_prefix_size bytes)
     then Some (result_zero\<lparr>status_code := QRVMC_REJECTED\<rparr>, hp)
     else let i = precompile_id bytes in
       if i = 0x0004 then execute_identity msg hp
       else if i = 0x0001 \<or> i = 0x0002 \<or> i = 0x0005 then Some (not_implemented, hp)
       else Some (execute_empty msg, hp))"

text \<open>The one static instance, which is not destroyed and has no options.\<close>

definition qrvmc_create_example_precompiles_vm :: "string \<Rightarrow> (unit, 'h) qrvmc_vm" where
  "qrvmc_create_example_precompiles_vm project_version =
    \<lparr>vm_abi_version = QRVMC_ABI_VERSION, vm_name = ''example_precompiles_vm'',
     vm_version = project_version, vm_destroy = (\<lambda>_. Some ()),
     vm_execute = (\<lambda>host revision msg code vm h hp.
       map_option (\<lambda>(r, hp'). (r, (), h, hp')) (precompiles_execute msg hp)),
     vm_get_capabilities = (\<lambda>_. QRVMC_CAPABILITY_PRECOMPILES), vm_set_option = None\<rparr>"

subsection \<open>Facts\<close>

lemma be_val_zero_prefix: "be_val xs = 0 \<longleftrightarrow> (\<forall>x \<in> set xs. x = 0)"
  by (induction xs) (auto simp: unat_eq_0)

lemma precompile_id_value:
  assumes "length bs = 64"
  shows "precompile_id bs = int (be_val (drop 62 bs))"
proof -
  have "drop 62 bs = [bs ! 62, bs ! 63]"
    using assms by (simp add: list_eq_iff_nth_eq less_Suc_eq numeral_2_eq_2)
  moreover have "push_bit 8 a OR b = a * 256 + b" if "0 \<le> b" "b < 256" for a b :: int
  proof -
    have "push_bit 8 a AND take_bit 8 b = 0"
      by (rule bit_eqI) (auto simp: bit_simps)
    then have "push_bit 8 a OR take_bit 8 b = push_bit 8 a + take_bit 8 b"
      by (simp add: disjunctive_add_eq_or)
    moreover have "take_bit 8 b = b"
      using that by (simp add: take_bit_int_eq_self)
    ultimately show ?thesis by (simp add: push_bit_eq_mult)
  qed
  ultimately show ?thesis
    using uint_bounded [of "bs ! 63"]
    by (simp add: precompile_id_def precompile_prefix_size_def)
qed

text \<open>The code address as a number decides.\<close>

lemma precompiles_execute_cases:
  "precompiles_execute msg hp =
    (let a = be_val (address_bytes (msg_code_address msg)) in
     if a \<ge> 2 ^ 16 \<or> a \<in> {1, 2, 5} then Some (not_implemented, hp)
     else if a = 4 then execute_identity msg hp else Some (execute_empty msg, hp))"
proof -
  let ?bs = "address_bytes (msg_code_address msg)"
  have len: "length ?bs = 64" by simp
  have split: "be_val ?bs = be_val (take 62 ?bs) * 65536 + be_val (drop 62 ?bs)"
    using be_val_append [of "take 62 ?bs" "drop 62 ?bs"] len by simp
  have low: "be_val (drop 62 ?bs) < 65536"
    using be_val_less [of "drop 62 ?bs"] len by simp
  have prefix: "list_ex (\<lambda>x. x \<noteq> 0) (take precompile_prefix_size ?bs) \<longleftrightarrow> be_val ?bs \<ge> 2 ^ 16"
  proof -
    have "list_ex (\<lambda>x. x \<noteq> 0) (take precompile_prefix_size ?bs) \<longleftrightarrow> be_val (take 62 ?bs) \<noteq> 0"
      by (auto simp: be_val_zero_prefix list_ex_iff precompile_prefix_size_def)
    also have "\<dots> \<longleftrightarrow> be_val ?bs \<ge> 2 ^ 16"
      using split low by auto
    finally show ?thesis .
  qed
  show ?thesis
  proof (cases "be_val ?bs \<ge> 2 ^ 16")
    case True
    then show ?thesis
      by (simp add: precompiles_execute_def prefix not_implemented_def Let_def)
  next
    case False
    then have "precompile_id ?bs = int (be_val ?bs)"
      using split low by (simp add: precompile_id_value [OF len])
    then show ?thesis
      using False by (simp add: precompiles_execute_def prefix Let_def)
  qed
qed

text \<open>Rounding up to words; the words of an input in memory are few.\<close>

lemma identity_words:
  assumes "n < 2 ^ 64"
  shows "(word_of_nat (n div identity_word_size) :: u64) + of_bool (n mod identity_word_size \<noteq> 0) =
      word_of_nat ((n + 31) div 32)" "(n + 31) div 32 < 2 ^ 60"
proof -
  have "(n + 31) div 32 = (n mod 32 + 31 + n div 32 * 32) div 32"
    by (simp add: algebra_simps)
  also have "\<dots> = n div 32 + (n mod 32 + 31) div 32"
    by (simp only: div_mult_self3)
  also have "(n mod 32 + 31) div 32 = of_bool (n mod 32 \<noteq> 0)"
    using mod_less_divisor [of 32 n] by (cases "n mod 32 = 0") (auto intro!: div_nat_eqI)
  finally have "(n + 31) div 32 = n div 32 + of_bool (n mod 32 \<noteq> 0)" .
  then show "(word_of_nat (n div identity_word_size) :: u64) + of_bool (n mod identity_word_size \<noteq> 0) =
      word_of_nat ((n + 31) div 32)"
    by (simp add: identity_word_size_def)
  show "(n + 31) div 32 < 2 ^ 60"
    using assms by (simp add: div_less_iff_less_mult)
qed

lemma sint_small_word:
  assumes "n < 2 ^ 60"
  shows "sint (word_of_nat n :: u64) = int n"
proof -
  have "int n < 2 ^ 60"
    using assms by (metis of_nat_less_iff of_nat_numeral of_nat_power)
  then show ?thesis
    by (simp add: signed_of_nat signed_take_bit_int_eq_self)
qed

lemma execute_identity_cost:
  assumes "msg_input_size msg < 2 ^ 64"
  shows "execute_identity msg hp =
    (let cost = 15 + 3 * int ((msg_input_size msg + 31) div 32) in
     if msg_gas msg < cost then Some (result_zero\<lparr>status_code := QRVMC_OUT_OF_GAS\<rparr>, hp)
     else qrvmc_make_result QRVMC_SUCCESS (msg_gas msg - cost) 0 (msg_input_data msg)
       (msg_input_size msg) hp)"
proof -
  let ?n = "(msg_input_size msg + 31) div 32"
  note words = identity_words [OF assms]
  have "\<not> word_of_nat ?n > max_input_words"
  proof -
    have "unat max_input_words = 3074457345618258597"
      by (simp add: max_input_words_def identity_base_gas_def identity_word_gas_def)
    moreover have "unat (word_of_nat ?n :: u64) = ?n"
      using words(2) by (simp add: unsigned_of_nat take_bit_nat_eq_self)
    ultimately show ?thesis
      using words(2) by (simp add: word_less_nat_alt)
  qed
  then show ?thesis
    unfolding execute_identity_def words(1)
    by (simp add: Let_def sint_small_word [OF words(2)] identity_base_gas_def identity_word_gas_def)
qed

lemma precompiles_heap:
  assumes "precompiles_execute msg hp = Some (r, hp')"
  shows "release r = None \<and> output_size r = 0 \<and> hp' = hp \<or>
    (\<exists>gas. qrvmc_make_result QRVMC_SUCCESS gas 0 (msg_input_data msg) (msg_input_size msg) hp = Some (r, hp'))"
proof (cases "execute_identity msg hp = Some (r, hp')")
  case True
  then show ?thesis
    by (auto simp: execute_identity_def result_zero_def Let_def split: if_splits)
next
  case False
  then show ?thesis
    using assms
    by (auto simp: precompiles_execute_cases execute_empty_def not_implemented_def result_zero_def Let_def
        split: if_splits)
qed

lemma precompiles_return:
  assumes "view_covers (msg_input_data msg) (msg_input_size msg)"
  obtains r hp' where "precompiles_execute msg hp = Some (r, hp')"
proof -
  have "qrvmc_make_result sc gas gr (msg_input_data msg) (msg_input_size msg) hp \<noteq> None" for sc gas gr
    using make_result_returns [OF assms, of sc gas gr hp] by fastforce
  then have "precompiles_execute msg hp \<noteq> None"
    by (simp add: precompiles_execute_cases execute_identity_def Let_def)
  then show ?thesis using that by auto
qed

subsection \<open>Properties\<close>

text \<open>The precompiles VM selects the contract by the code address as a number: outside the reserved
range of 2^16 addresses and for the contracts that are not implemented it rejects, at address 4 it
copies the input, and elsewhere it acts as empty code, which costs nothing.\<close>

theorem precompiles_select:
  "precompiles_execute msg hp =
    (let a = be_val (address_bytes (msg_code_address msg)) in
     if a \<ge> 2 ^ 16 \<or> a \<in> {1, 2, 5} then Some (result_zero\<lparr>status_code := QRVMC_REJECTED\<rparr>, hp)
     else if a = 4 then execute_identity msg hp
     else Some (result_zero\<lparr>status_code := QRVMC_SUCCESS, gas_left := msg_gas msg\<rparr>, hp))"
  unfolding precompiles_execute_cases not_implemented_def execute_empty_def ..

text \<open>C21: The identity contract costs 15 and 3 for each started word of 32 bytes. For every input that
has a size the cost is computed without overflow of the signed 64-bit gas, the check against the
largest number of words never fails, and the gas left is neither negative nor more than given.\<close>

theorem identity_gas:
  assumes "msg_input_size msg < 2 ^ 64"
  shows "execute_identity msg hp =
      (let cost = 15 + 3 * int ((msg_input_size msg + 31) div 32) in
       if msg_gas msg < cost then Some (result_zero\<lparr>status_code := QRVMC_OUT_OF_GAS\<rparr>, hp)
       else qrvmc_make_result QRVMC_SUCCESS (msg_gas msg - cost) 0 (msg_input_data msg)
         (msg_input_size msg) hp) \<and>
    int64_ok (15 + 3 * int ((msg_input_size msg + 31) div 32))"
proof
  have "int ((msg_input_size msg + 31) div 32) < 2 ^ 60"
    using identity_words(2) [OF assms] by (metis of_nat_less_iff of_nat_numeral of_nat_power)
  then show "int64_ok (15 + 3 * int ((msg_input_size msg + 31) div 32))"
    unfolding int64_ok_def by simp
qed (rule execute_identity_cost [OF assms])

theorem identity_gas_witness:
  "execute_identity ((message_zero (Some (replicate 33 7)))\<lparr>msg_gas := 20, msg_input_size := 33\<rparr>)
      heap_empty = Some (result_zero\<lparr>status_code := QRVMC_OUT_OF_GAS\<rparr>, heap_empty)"
  using identity_gas [of "(message_zero (Some (replicate 33 7)))\<lparr>msg_gas := 20, msg_input_size := 33\<rparr>" heap_empty]
  by simp

text \<open>A client of the C++ class can execute a precompile without a host and release the result:
the call returns for every message with a readable input, no memory is lost, and the static
instance survives both the execution and the end of the object that owns it.\<close>

theorem precompiles_without_host:
  assumes "heap_ok hp" "w p = Some (qrvmc_create_example_precompiles_vm project_version, ())"
    and "view_covers (msg_input_data msg) (msg_input_size msg)"
  shows "\<exists>r hp' hp''. VM_execute_no_host (Some p) revision msg code w h hp = Some (r, w, h, hp') \<and>
    qrvmc_release_result other r hp' = Some hp'' \<and> heap_blocks hp'' = heap_blocks hp \<and>
    VM_reset (Some p) w = Some (None, w)"
proof -
  obtain r hp' where run: "precompiles_execute msg hp = Some (r, hp')"
    using assms(3) by (rule precompiles_return)
  have "\<exists>hp''. qrvmc_release_result other r hp' = Some hp'' \<and> heap_blocks hp'' = heap_blocks hp"
  proof (cases "release r = None \<and> hp' = hp")
    case True
    then show ?thesis by (simp add: qrvmc_release_result_def)
  next
    case False
    then obtain gas where "qrvmc_make_result QRVMC_SUCCESS gas 0 (msg_input_data msg) (msg_input_size msg) hp = Some (r, hp')"
      using precompiles_heap [OF run] by blast
    from make_result_released [OF assms(1) this, of other] show ?thesis by blast
  qed
  moreover have "w(p \<mapsto> (qrvmc_create_example_precompiles_vm project_version, ())) = w"
    using assms(2) by (simp add: fun_upd_idem)
  ultimately show ?thesis
    using assms(2) run
    by (simp add: VM_execute_no_host_def qrvmc_execute_def VM_reset_def qrvmc_destroy_def
        qrvmc_create_example_precompiles_vm_def)
qed

theorem precompiles_without_host_witness:
  "\<exists>r hp' hp''. VM_execute_no_host (Some 1) QRVMC_ZOND (message_zero None) []
      [1 \<mapsto> (qrvmc_create_example_precompiles_vm ''0.0.0'', ())] (0 :: nat) heap_empty =
      Some (r, [1 \<mapsto> (qrvmc_create_example_precompiles_vm ''0.0.0'', ())], 0, hp') \<and>
    qrvmc_release_result (\<lambda>_ _ _. None) r hp' = Some hp'' \<and> heap_blocks hp'' = heap_blocks heap_empty \<and>
    VM_reset (Some 1) [1 \<mapsto> (qrvmc_create_example_precompiles_vm ''0.0.0'' :: (unit, nat) qrvmc_vm, ())] =
      Some (None, [1 \<mapsto> (qrvmc_create_example_precompiles_vm ''0.0.0'', ())])"
  by (rule precompiles_without_host) (simp_all add: message_zero_def)

end
