(* ===== verification/ExampleHost.thy ===== *)
theory ExampleHost
  imports VMContract
begin

text \<open>
  The host of \<open>examples/example_host.cpp\<close>: accounts with balance, code and storage in maps, answers of
  fixed values for the rest, and a call that reverts with its input. The functions \<open>accounts.find\<close>
  and \<open>accounts[addr]\<close> of the ordered map are lookup and lookup with insertion of a default; the
  order of the keys is the one of \<open>Bytes\<close>, which is linear.
\<close>

subsection \<open>The state\<close>

record account =
  xa_balance :: qrvmc_uint512be
  xa_code :: "u8 list"
  xa_storage :: "qrvmc_bytes64 \<Rightarrow> qrvmc_bytes64 option"

definition account_default :: account where
  "account_default = \<lparr>xa_balance = bytes64_zero, xa_code = [], xa_storage = (\<lambda>_. None)\<rparr>"

definition code_hash :: "account \<Rightarrow> qrvmc_bytes64" where
  "code_hash acc =
    foldl (\<lambda>ret v. bytes64_of_bytes
        ((bytes64_bytes ret)[unat v mod 64 := (bytes64_bytes ret ! (unat v mod 64)) XOR v]))
      bytes64_zero (xa_code acc)"

record ExampleHost =
  xh_accounts :: "qrvmc_address \<Rightarrow> account option"
  xh_tx_context :: qrvmc_tx_context

definition ExampleHost_default :: ExampleHost where
  "ExampleHost_default = \<lparr>xh_accounts = (\<lambda>_. None), xh_tx_context = tx_context_zero\<rparr>"

definition ExampleHost_with_context :: "qrvmc_tx_context \<Rightarrow> ExampleHost" where
  "ExampleHost_with_context tx = \<lparr>xh_accounts = (\<lambda>_. None), xh_tx_context = tx\<rparr>"

definition ExampleHost_with_accounts ::
    "qrvmc_tx_context \<Rightarrow> (qrvmc_address \<Rightarrow> account option) \<Rightarrow> ExampleHost" where
  "ExampleHost_with_accounts tx accounts = \<lparr>xh_accounts = accounts, xh_tx_context = tx\<rparr>"

subsection \<open>The methods\<close>

definition example_account_exists :: "qrvmc_address \<Rightarrow> ExampleHost \<Rightarrow> bool" where
  "example_account_exists addr h \<longleftrightarrow> xh_accounts h addr \<noteq> None"

definition example_get_storage :: "qrvmc_address \<Rightarrow> qrvmc_bytes64 \<Rightarrow> ExampleHost \<Rightarrow> qrvmc_bytes64" where
  "example_get_storage addr key h =
    (case xh_accounts h addr of
       None \<Rightarrow> bytes64_zero
     | Some acc \<Rightarrow> (case xa_storage acc key of Some v \<Rightarrow> v | None \<Rightarrow> bytes64_zero))"

definition example_set_storage ::
    "qrvmc_address \<Rightarrow> qrvmc_bytes64 \<Rightarrow> qrvmc_bytes64 \<Rightarrow> ExampleHost \<Rightarrow> qrvmc_storage_status \<times> ExampleHost"
    where
  "example_set_storage addr key val h =
    (let acc = (case xh_accounts h addr of Some acc \<Rightarrow> acc | None \<Rightarrow> account_default);
         prev_value = (case xa_storage acc key of Some v \<Rightarrow> v | None \<Rightarrow> bytes64_zero);
         acc = acc\<lparr>xa_storage := (xa_storage acc)(key \<mapsto> val)\<rparr>
     in (if bytes64_eq prev_value val then QRVMC_STORAGE_ASSIGNED else QRVMC_STORAGE_MODIFIED,
         h\<lparr>xh_accounts := (xh_accounts h)(addr \<mapsto> acc)\<rparr>))"

definition example_get_balance :: "qrvmc_address \<Rightarrow> ExampleHost \<Rightarrow> qrvmc_uint512be" where
  "example_get_balance addr h =
    (case xh_accounts h addr of Some acc \<Rightarrow> xa_balance acc | None \<Rightarrow> bytes64_zero)"

definition example_get_code_size :: "qrvmc_address \<Rightarrow> ExampleHost \<Rightarrow> nat" where
  "example_get_code_size addr h =
    (case xh_accounts h addr of Some acc \<Rightarrow> length (xa_code acc) | None \<Rightarrow> 0)"

definition example_get_code_hash :: "qrvmc_address \<Rightarrow> ExampleHost \<Rightarrow> qrvmc_bytes64" where
  "example_get_code_hash addr h =
    (case xh_accounts h addr of Some acc \<Rightarrow> code_hash acc | None \<Rightarrow> bytes64_zero)"

definition example_copy_code :: "qrvmc_address \<Rightarrow> nat \<Rightarrow> view \<Rightarrow> nat \<Rightarrow> ExampleHost \<Rightarrow>
    (nat \<times> view) option" where
  "example_copy_code addr code_offset buffer_data buffer_size h =
    (case xh_accounts h addr of
       None \<Rightarrow> Some (0, buffer_data)
     | Some acc \<Rightarrow>
         (let code = xa_code acc in
          if code_offset \<ge> length code then Some (0, buffer_data)
          else let n = min buffer_size (length code - code_offset) in
            if n = 0 then Some (0, buffer_data)
            else (case buffer_data of
                    None \<Rightarrow> Some (0, buffer_data)
                  | Some buf \<Rightarrow>
                      if n \<le> length buf
                      then Some (n, Some (blit buf 0 (take n (drop code_offset code)))) else None)))"

definition example_call :: "view qrvmc_message \<Rightarrow> heap \<Rightarrow> (heap_ptr qrvmc_result \<times> heap) option" where
  "example_call msg hp =
    qrvmc_make_result QRVMC_REVERT (msg_gas msg) 0 (msg_input_data msg) (msg_input_size msg) hp"

definition recent_block_hash :: "qrvmc_bytes64 option" where
  "recent_block_hash =
    bytes64_literal ''b10c8a5fb10c8a5fb10c8a5fb10c8a5fb10c8a5fb10c8a5fb10c8a5fb10c8a5f''"

text \<open>The literals do not fail, so that \<open>None\<close> does not arise; the distance is computed in 64 bits.\<close>

definition example_get_block_hash :: "int \<Rightarrow> ExampleHost \<Rightarrow> qrvmc_bytes64 option" where
  "example_get_block_hash number h =
    (let current_block_number = block_number (xh_tx_context h) in
     if number < 0 \<or> number \<ge> current_block_number then Some bytes64_zero
     else let distance = (word_of_int current_block_number :: u64) - word_of_int number
       in if distance \<le> 256 then recent_block_hash else Some bytes64_zero)"

definition ExampleHost_methods :: "ExampleHost host_methods" where
  "ExampleHost_methods =
    \<lparr>hi_account_exists = \<lambda>addr h. Some (example_account_exists addr h, h),
     hi_get_storage = \<lambda>addr key h. Some (example_get_storage addr key h, h),
     hi_set_storage = \<lambda>addr key val h. Some (example_set_storage addr key val h),
     hi_get_balance = \<lambda>addr h. Some (example_get_balance addr h, h),
     hi_get_code_size = \<lambda>addr h. Some (example_get_code_size addr h, h),
     hi_get_code_hash = \<lambda>addr h. Some (example_get_code_hash addr h, h),
     hi_copy_code = \<lambda>addr off buf n h.
       map_option (\<lambda>(copied, buf'). (copied, buf', h)) (example_copy_code addr off buf n h),
     hi_call = \<lambda>msg h hp. map_option (\<lambda>(r, hp'). (r, h, hp')) (example_call msg hp),
     hi_get_tx_context = \<lambda>h. Some (xh_tx_context h, h),
     hi_get_block_hash = \<lambda>n h. map_option (\<lambda>v. (v, h)) (example_get_block_hash n h),
     hi_emit_log = \<lambda>addr data data_size topics topics_count h. Some h,
     hi_access_account = \<lambda>addr h. Some (QRVMC_ACCESS_COLD, h),
     hi_access_storage = \<lambda>addr key h. Some (QRVMC_ACCESS_COLD, h)\<rparr>"

text \<open>\<open>example_host_get_interface\<close> and \<open>example_host_create_context\<close>: the allocation may fail.\<close>

definition example_host_get_interface :: "ExampleHost host_methods" where
  "example_host_get_interface = Host_get_interface ExampleHost_methods"

definition example_host_create_context :: "bool \<Rightarrow> qrvmc_tx_context \<Rightarrow> ExampleHost option" where
  "example_host_create_context allocated tx =
    (if allocated then Some (ExampleHost_with_context tx) else None)"

subsection \<open>The host as a provider of the interface\<close>

lemma set_storage_reads:
  "example_get_storage addr' key' (snd (example_set_storage addr key val h)) =
    (if addr' = addr \<and> key' = key then val else example_get_storage addr' key' h)"
  by (auto simp: example_get_storage_def example_set_storage_def account_default_def Let_def
      split: option.splits)

interpretation example_storage: storage_host ExampleHost_methods "\<lambda>_. True"
proof unfold_locales
  fix h a k v s h' a' k'
  assume "hi_set_storage ExampleHost_methods a k v h = Some (s, h')"
  then have "h' = snd (example_set_storage a k v h)"
    by (simp add: ExampleHost_methods_def)
  then show "map_option fst (hi_get_storage ExampleHost_methods a' k' h') =
      (if a' = a \<and> k' = k then Some v else map_option fst (hi_get_storage ExampleHost_methods a' k' h))"
    by (simp add: ExampleHost_methods_def set_storage_reads)
qed (auto simp: ExampleHost_methods_def)

lemma example_host_contract: "host_contract example_host_get_interface other (\<lambda>_. True)"
proof -
  have call: "\<exists>r h' hp' hp''. hi_call example_host_get_interface m h hp = Some (r, h', hp') \<and>
      readable_output r hp' \<and> qrvmc_release_result other r hp' = Some hp'' \<and> heap_ok hp'' \<and>
      heap_blocks hp'' = heap_blocks hp"
    if ok: "heap_ok hp" "vm_message m" for m h hp
  proof -
    have "view_covers (msg_input_data m) (msg_input_size m)"
      using ok(2) by (auto simp: vm_message_def)
    then obtain r hp' where make: "qrvmc_make_result QRVMC_REVERT (msg_gas m) 0 (msg_input_data m)
        (msg_input_size m) hp = Some (r, hp')" by (rule make_result_returns)
    obtain hp'' where rel: "qrvmc_release_result other r hp' = Some hp''" "heap_ok hp''"
        "heap_blocks hp'' = heap_blocks hp"
      using make_result_released [OF ok(1) make] by blast
    have "readable_output r hp'"
      using make
      by (rule make_result_cases)
        (use ok(2) in \<open>auto simp: readable_output_def result_zero_def heap_read_def vm_message_def\<close>)
    then show ?thesis
      using rel make
      by (auto simp: example_host_get_interface_def Host_get_interface_def internal_call_def
          ExampleHost_methods_def example_call_def Result_release_raw_def Let_def split: prod.splits)
  qed
  show ?thesis
    unfolding host_contract_def
    using call
    by (auto simp: example_host_get_interface_def ExampleHost_methods_def Host_get_interface_def)
qed

interpretation example_execution:
  execution_host example_host_get_interface other "contract_state (\<lambda>_. True) blocks"
    "contract_result (\<lambda>_. True) blocks" False
  for other blocks
  by (rule host_contract_execution) (rule example_host_contract)

interpretation example_adapted: storage_host example_host_get_interface "\<lambda>_. True"
  using example_storage.storage_host_axioms
  by (simp add: storage_host_def example_host_get_interface_def)

lemma block_distance:
  assumes "0 \<le> number" "number < current" "current < 2 ^ 63"
  shows "(word_of_int current :: u64) - word_of_int number \<le> 256 \<longleftrightarrow> current - number \<le> 256"
proof -
  have "(word_of_int current :: u64) - word_of_int number = word_of_int (current - number)"
    by simp
  moreover have "uint (word_of_int (current - number) :: u64) = current - number"
    by (subst unsigned_of_int) (use assms in \<open>simp add: take_bit_int_eq_self\<close>)
  ultimately show ?thesis
    by (simp add: word_le_def)
qed

subsection \<open>Properties\<close>

text \<open>The example host gives a hash exactly for the 256 blocks before the current one, and zero for
the current and later blocks, older blocks and negative numbers; the unsigned difference of the
block numbers does not wrap for any numbers that fit their signed 64-bit type.\<close>

theorem example_block_hash_window:
  assumes "int64_ok (block_number (xh_tx_context h))" "int64_ok number"
  shows "example_get_block_hash number h =
    (let current = block_number (xh_tx_context h) in
     if 0 \<le> number \<and> number < current \<and> current - number \<le> 256 then recent_block_hash
     else Some bytes64_zero)"
  using assms block_distance [of number "block_number (xh_tx_context h)"]
  by (simp add: example_get_block_hash_def int64_ok_def Let_def)

theorem example_block_hash_window_witness:
  "example_get_block_hash 43 (ExampleHost_with_context (tx_context_zero\<lparr>block_number := 300\<rparr>)) =
    Some bytes64_zero"
  using example_block_hash_window [of "ExampleHost_with_context (tx_context_zero\<lparr>block_number := 300\<rparr>)" 43]
  by (simp add: ExampleHost_with_context_def int64_ok_def)


end
