(* ===== verification/Loader.thy ===== *)
theory Loader
  imports VM CString "HOL-Library.Monad_Syntax"
begin

text \<open>
  The loader of VM modules, \<open>lib/loader/loader.c\<close> with its error codes in
  \<open>include/qrvmc/loader.h\<close>.

  The dynamic linker and the create functions of the modules are a parameter, \<open>dll_system\<close>, with a
  state of its own. Buffers are lists of characters that the C code writes in place; reading a
  string that is not terminated inside its buffer and writing past the end are undefined
  behaviour, \<open>None\<close>. The world logs what the loader does with modules and instances, in order.
\<close>

subsection \<open>Strings in buffers\<close>

abbreviation NUL :: char where
  "NUL \<equiv> CHR 0x00"

definition c_string :: "string \<Rightarrow> nat \<Rightarrow> string option" where
  "c_string buf p =
    (if NUL \<in> set (drop p buf) then Some (takeWhile (\<lambda>c. c \<noteq> NUL) (drop p buf)) else None)"

definition find_char :: "char \<Rightarrow> string \<Rightarrow> nat option" where
  "find_char c s =
    (let k = length (takeWhile (\<lambda>x. x \<noteq> c) s) in if k < length s then Some k else None)"

definition c_strchr :: "string \<Rightarrow> nat \<Rightarrow> char \<Rightarrow> nat option option" where
  "c_strchr buf p c = map_option (\<lambda>s. map_option ((+) p) (find_char c s)) (c_string buf p)"

definition c_strrchr :: "string \<Rightarrow> char \<Rightarrow> nat option" where
  "c_strrchr s c = map_option (\<lambda>k. length s - 1 - k) (find_char c (rev s))"

definition buf_write :: "string \<Rightarrow> nat \<Rightarrow> string \<Rightarrow> string option" where
  "buf_write buf p s = (if p + length s \<le> length buf then Some (blit buf p s) else None)"

definition strcpy_sx :: "string \<Rightarrow> nat \<Rightarrow> nat \<Rightarrow> string \<Rightarrow> (int \<times> string) option" where
  "strcpy_sx buf dest destsz src =
    (let len = length src in
     if len \<ge> destsz then map_option (Pair 1) (buf_write buf dest [NUL])
     else map_option (Pair 0) (buf_write buf dest (src @ [NUL])))"

text \<open>The token, the buffer, and the pointer after the token.\<close>

definition get_token :: "string \<Rightarrow> nat \<Rightarrow> char \<Rightarrow> (nat \<times> string \<times> nat) option" where
  "get_token buf str delim =
    do {
      delim_pos \<leftarrow> c_strchr buf str delim;
      (case delim_pos of
         Some q \<Rightarrow> Some (str, buf[q := NUL], q + 1)
       | None \<Rightarrow> do { s \<leftarrow> c_string buf str; Some (str, buf, str + length s) })
    }"

subsection \<open>The state\<close>

datatype qrvmc_loader_error_code =
    QRVMC_LOADER_SUCCESS
  | QRVMC_LOADER_CANNOT_OPEN
  | QRVMC_LOADER_SYMBOL_NOT_FOUND
  | QRVMC_LOADER_INVALID_ARGUMENT
  | QRVMC_LOADER_VM_CREATION_FAILURE
  | QRVMC_LOADER_ABI_VERSION_MISMATCH
  | QRVMC_LOADER_INVALID_OPTION_NAME
  | QRVMC_LOADER_INVALID_OPTION_VALUE
  | QRVMC_LOADER_UNSPECIFIED_ERROR

fun loader_error_value :: "qrvmc_loader_error_code \<Rightarrow> int" where
  "loader_error_value QRVMC_LOADER_SUCCESS = 0"
| "loader_error_value QRVMC_LOADER_CANNOT_OPEN = 1"
| "loader_error_value QRVMC_LOADER_SYMBOL_NOT_FOUND = 2"
| "loader_error_value QRVMC_LOADER_INVALID_ARGUMENT = 3"
| "loader_error_value QRVMC_LOADER_VM_CREATION_FAILURE = 4"
| "loader_error_value QRVMC_LOADER_ABI_VERSION_MISMATCH = 5"
| "loader_error_value QRVMC_LOADER_INVALID_OPTION_NAME = 6"
| "loader_error_value QRVMC_LOADER_INVALID_OPTION_VALUE = 7"
| "loader_error_value QRVMC_LOADER_UNSPECIFIED_ERROR = - 1"

definition PATH_MAX_LENGTH :: nat where
  "PATH_MAX_LENGTH = 4096"

definition LAST_ERROR_MSG_BUFFER_SIZE :: nat where
  "LAST_ERROR_MSG_BUFFER_SIZE = 511"

text \<open>What \<open>last_error_msg\<close> points to: the static buffer or a message of the dynamic linker.\<close>

datatype error_msg = Msg_null | Msg_buffer | Msg_system string

datatype loader_event =
    Opened nat
  | Closed nat
  | Created nat
  | Option_set nat string string
  | Destroyed nat

record ('s, 'h, 'e) loader_world =
  ld_vms :: "('s, 'h) vm_instances"
  ld_system :: 'e
  ld_events :: "loader_event list"
  ld_error_msg :: error_msg
  ld_error_buffer :: string

text \<open>
  The dynamic linker and the create functions \<open>'f\<close>; \<open>garbage\<close> is what an uninitialised buffer holds.
\<close>

record ('s, 'h, 'e, 'f) dll_system =
  sys_open :: "string \<Rightarrow> 'e \<Rightarrow> nat option \<times> 'e"
  sys_close :: "nat \<Rightarrow> 'e \<Rightarrow> 'e"
  sys_get_create_fn :: "nat \<Rightarrow> string \<Rightarrow> 'e \<Rightarrow> 'f option \<times> 'e"
  sys_error_msg :: "'e \<Rightarrow> string option \<times> 'e"
  sys_create :: "'f \<Rightarrow> ('s, 'h) vm_instances \<Rightarrow> 'e \<Rightarrow> nat option \<times> ('s, 'h) vm_instances \<times> 'e"
  garbage :: "nat \<Rightarrow> char"

definition log_event :: "loader_event \<Rightarrow> ('s, 'h, 'e) loader_world \<Rightarrow> ('s, 'h, 'e) loader_world" where
  "log_event ev w = w\<lparr>ld_events := ld_events w @ [ev]\<rparr>"

definition DLL_OPEN ::
    "('s, 'h, 'e, 'f) dll_system \<Rightarrow> string \<Rightarrow> ('s, 'h, 'e) loader_world \<Rightarrow>
      nat option \<times> ('s, 'h, 'e) loader_world" where
  "DLL_OPEN S filename w =
    (let (r, e) = sys_open S filename (ld_system w); w = w\<lparr>ld_system := e\<rparr>
     in (r, case r of Some h \<Rightarrow> log_event (Opened h) w | None \<Rightarrow> w))"

definition DLL_CLOSE ::
    "('s, 'h, 'e, 'f) dll_system \<Rightarrow> nat \<Rightarrow> ('s, 'h, 'e) loader_world \<Rightarrow> ('s, 'h, 'e) loader_world" where
  "DLL_CLOSE S h w = log_event (Closed h) (w\<lparr>ld_system := sys_close S h (ld_system w)\<rparr>)"

definition DLL_GET_CREATE_FN ::
    "('s, 'h, 'e, 'f) dll_system \<Rightarrow> nat \<Rightarrow> string \<Rightarrow> ('s, 'h, 'e) loader_world \<Rightarrow>
      'f option \<times> ('s, 'h, 'e) loader_world" where
  "DLL_GET_CREATE_FN S h name w =
    (let (r, e) = sys_get_create_fn S h name (ld_system w) in (r, w\<lparr>ld_system := e\<rparr>))"

definition DLL_GET_ERROR_MSG ::
    "('s, 'h, 'e, 'f) dll_system \<Rightarrow> ('s, 'h, 'e) loader_world \<Rightarrow>
      string option \<times> ('s, 'h, 'e) loader_world" where
  "DLL_GET_ERROR_MSG S w =
    (let (r, e) = sys_error_msg S (ld_system w) in (r, w\<lparr>ld_system := e\<rparr>))"

definition call_create_fn ::
    "('s, 'h, 'e, 'f) dll_system \<Rightarrow> 'f \<Rightarrow> ('s, 'h, 'e) loader_world \<Rightarrow>
      nat option \<times> ('s, 'h, 'e) loader_world" where
  "call_create_fn S f w =
    (let (r, vms, e) = sys_create S f (ld_vms w) (ld_system w);
         w = w\<lparr>ld_vms := vms, ld_system := e\<rparr>
     in (r, case r of Some p \<Rightarrow> log_event (Created p) w | None \<Rightarrow> w))"

definition destroy_vm :: "nat \<Rightarrow> ('s, 'h, 'e) loader_world \<Rightarrow> ('s, 'h, 'e) loader_world option" where
  "destroy_vm p w =
    map_option (\<lambda>vms. log_event (Destroyed p) (w\<lparr>ld_vms := vms\<rparr>)) (qrvmc_destroy p (ld_vms w))"

subsection \<open>Errors\<close>

text \<open>The formatted text goes to the buffer, cut to its size, and counts only when all of it fits.\<close>

definition set_error ::
    "string \<Rightarrow> ('s, 'h, 'e) loader_world \<Rightarrow> ('s, 'h, 'e) loader_world" where
  "set_error text w =
    w\<lparr>ld_error_buffer := take (LAST_ERROR_MSG_BUFFER_SIZE - 1) text,
      ld_error_msg := (if length text < LAST_ERROR_MSG_BUFFER_SIZE then Msg_buffer else ld_error_msg w)\<rparr>"

definition qrvmc_last_error_msg ::
    "('s, 'h, 'e) loader_world \<Rightarrow> string option \<times> ('s, 'h, 'e) loader_world" where
  "qrvmc_last_error_msg w =
    (case ld_error_msg w of
       Msg_null \<Rightarrow> None | Msg_buffer \<Rightarrow> Some (ld_error_buffer w) | Msg_system s \<Rightarrow> Some s,
     w\<lparr>ld_error_msg := Msg_null\<rparr>)"

text \<open>An out parameter is \<open>None\<close> for a null pointer, and otherwise its value.\<close>

definition set_out :: "'a \<Rightarrow> 'a option \<Rightarrow> 'a option" where
  "set_out v cell = map_option (\<lambda>_. v) cell"

subsection \<open>The name of the create function\<close>

definition create_prefix :: string where
  "create_prefix = ''qrvmc_create_''"

function replace_dashes :: "string \<Rightarrow> nat \<Rightarrow> string option" where
  "replace_dashes buf dash_pos =
    (case c_strchr buf dash_pos CHR ''-'' of
       None \<Rightarrow> None
     | Some None \<Rightarrow> Some buf
     | Some (Some q) \<Rightarrow> replace_dashes (buf[q := CHR ''_'']) (q + 1))"
  by pat_completeness auto

lemma find_char_less: "find_char c s = Some k \<Longrightarrow> k < length s \<and> s ! k = c"
  unfolding find_char_def Let_def
  by (auto split: if_splits) (metis (mono_tags, lifting) nth_length_takeWhile)

lemma c_strchr_bounds: "c_strchr buf p c = Some (Some q) \<Longrightarrow> p \<le> q \<and> q < length buf"
proof -
  assume "c_strchr buf p c = Some (Some q)"
  then obtain s k where s: "c_string buf p = Some s" "find_char c s = Some k" "q = p + k"
    by (auto simp: c_strchr_def)
  have "length s \<le> length buf - p"
    using s(1) length_takeWhile_le [of _ "drop p buf"] by (auto simp: c_string_def split: if_splits)
  with find_char_less [OF s(2)] s(3) show ?thesis by arith
qed

termination replace_dashes
  by (relation "measure (\<lambda>(buf, dash_pos). length buf - dash_pos)")
    (auto dest!: c_strchr_bounds)

declare replace_dashes.simps [simp del]

definition name_position :: "string \<Rightarrow> nat" where
  "name_position filename =
    (let sep_pos = c_strrchr filename CHR ''/'';
         name_pos = (case sep_pos of Some q \<Rightarrow> q + 1 | None \<Rightarrow> 0)
     in if take 3 (drop name_pos filename) = ''lib'' then name_pos + 3 else name_pos)"

definition create_fn_name :: "(nat \<Rightarrow> char) \<Rightarrow> string \<Rightarrow> string option" where
  "create_fn_name uninit filename =
    do {
      let prefix_length = length create_prefix;
      let size = (prefix_length + 1) + PATH_MAX_LENGTH;
      let prefixed_name = map uninit [0..<size];
      (_, prefixed_name) \<leftarrow> strcpy_sx prefixed_name 0 size create_prefix;
      let name = drop (name_position filename) filename;
      let base_name = prefix_length;
      (_, prefixed_name) \<leftarrow> strcpy_sx prefixed_name base_name PATH_MAX_LENGTH name;
      ext_pos \<leftarrow> c_strchr prefixed_name 0 CHR ''.'';
      let prefixed_name = (case ext_pos of Some q \<Rightarrow> prefixed_name[q := NUL] | None \<Rightarrow> prefixed_name);
      prefixed_name \<leftarrow> replace_dashes prefixed_name base_name;
      c_string prefixed_name 0
    }"

subsection \<open>Loading\<close>

text \<open>The error code, the function and the handle, when the caller wants it, at the label \<open>exit\<close>.\<close>

definition load_module ::
    "('s, 'h, 'e, 'f) dll_system \<Rightarrow> string option \<Rightarrow> nat option option \<Rightarrow> ('s, 'h, 'e) loader_world \<Rightarrow>
      (qrvmc_loader_error_code \<times> 'f option \<times> nat option option \<times> ('s, 'h, 'e) loader_world) option" where
  "load_module S filename handle_out w =
    (case filename of
       None \<Rightarrow> Some (QRVMC_LOADER_INVALID_ARGUMENT, None, handle_out,
         set_error ''invalid argument: file name cannot be null'' w)
     | Some file \<Rightarrow>
         if length file = 0 then Some (QRVMC_LOADER_INVALID_ARGUMENT, None, handle_out,
           set_error ''invalid argument: file name cannot be empty'' w)
         else if length file \<ge> PATH_MAX_LENGTH then Some (QRVMC_LOADER_INVALID_ARGUMENT, None, handle_out,
           set_error (''invalid argument: file name is too long ('' @
             decimal (sint (word_of_nat (length file) :: u32)) @ '', maximum allowed length is '' @
             decimal (int PATH_MAX_LENGTH - 1) @ '')'') w)
         else
           (case DLL_OPEN S file w of
              (None, w) \<Rightarrow>
                (case DLL_GET_ERROR_MSG S w of
                   (Some m, w) \<Rightarrow> Some (QRVMC_LOADER_CANNOT_OPEN, None, handle_out,
                     w\<lparr>ld_error_msg := Msg_system m\<rparr>)
                 | (None, w) \<Rightarrow> Some (QRVMC_LOADER_CANNOT_OPEN, None, handle_out,
                     set_error (''cannot open '' @ file) (w\<lparr>ld_error_msg := Msg_null\<rparr>)))
            | (Some handle, w) \<Rightarrow>
                do {
                  prefixed_name \<leftarrow> create_fn_name (garbage S) file;
                  let (create_fn, w) = DLL_GET_CREATE_FN S handle prefixed_name w;
                  let (create_fn, w) =
                    (if create_fn = None then DLL_GET_CREATE_FN S handle ''qrvmc_create'' w
                     else (create_fn, w));
                  if create_fn = None then
                    Some (QRVMC_LOADER_SYMBOL_NOT_FOUND, create_fn, handle_out,
                      set_error (''QRVMC create function not found in '' @ file) (DLL_CLOSE S handle w))
                  else Some (QRVMC_LOADER_SUCCESS, create_fn, set_out (Some handle) handle_out, w)
                }))"

definition load_internal ::
    "('s, 'h, 'e, 'f) dll_system \<Rightarrow> string option \<Rightarrow> qrvmc_loader_error_code option \<Rightarrow>
      nat option option \<Rightarrow> ('s, 'h, 'e) loader_world \<Rightarrow>
      ('f option \<times> qrvmc_loader_error_code option \<times> nat option option \<times> ('s, 'h, 'e) loader_world) option"
    where
  "load_internal S filename error_code handle_out w =
    map_option (\<lambda>(ec, create_fn, handle_out, w). (create_fn, set_out ec error_code, handle_out, w))
      (load_module S filename handle_out (w\<lparr>ld_error_msg := Msg_null\<rparr>))"

definition qrvmc_load ::
    "('s, 'h, 'e, 'f) dll_system \<Rightarrow> string option \<Rightarrow> qrvmc_loader_error_code option \<Rightarrow>
      ('s, 'h, 'e) loader_world \<Rightarrow>
      ('f option \<times> qrvmc_loader_error_code option \<times> ('s, 'h, 'e) loader_world) option" where
  "qrvmc_load S filename error_code w =
    map_option (\<lambda>(create_fn, error_code, _, w). (create_fn, error_code, w))
      (load_internal S filename error_code None w)"

text \<open>
  The caller's error code cell is written by \<open>load_internal\<close> and again at \<open>exit\<close>. A non-null create
  function comes with a handle.
\<close>

definition load_and_create_internal ::
    "('s, 'h, 'e, 'f) dll_system \<Rightarrow> string option \<Rightarrow> qrvmc_loader_error_code option \<Rightarrow>
      nat option option \<Rightarrow> ('s, 'h, 'e) loader_world \<Rightarrow>
      (nat option \<times> qrvmc_loader_error_code option \<times> nat option option \<times> ('s, 'h, 'e) loader_world) option"
    where
  "load_and_create_internal S filename error_code handle_out w =
    do {
      (create_fn, error_code, handle, w) \<leftarrow> load_internal S filename error_code (Some None) w;
      (case create_fn of
         None \<Rightarrow> Some (None, error_code, handle_out, w)
       | Some f \<Rightarrow>
           do {
             handle \<leftarrow> the handle;
             let file = the filename;
             let (vm, w) = call_create_fn S f w;
             (case vm of
                None \<Rightarrow>
                  Some (None, set_out QRVMC_LOADER_VM_CREATION_FAILURE error_code, handle_out,
                    DLL_CLOSE S handle
                      (set_error (''creating QRVMC VM of '' @ file @ '' has failed'') w))
              | Some p \<Rightarrow>
                  do {
                    compatible \<leftarrow> qrvmc_is_abi_compatible p (ld_vms w);
                    if \<not> compatible then
                      do {
                        (vm, _) \<leftarrow> ld_vms w p;
                        let w = set_error (''QRVMC ABI version '' @ decimal (vm_abi_version vm) @
                          '' of '' @ file @ '' mismatches the expected version '' @
                          decimal QRVMC_ABI_VERSION) w;
                        w \<leftarrow> destroy_vm p w;
                        Some (None, set_out QRVMC_LOADER_ABI_VERSION_MISMATCH error_code, handle_out,
                          DLL_CLOSE S handle w)
                      }
                    else Some (Some p, set_out QRVMC_LOADER_SUCCESS error_code,
                      set_out (Some handle) handle_out, w)
                  })
           })
    }"

definition qrvmc_load_and_create ::
    "('s, 'h, 'e, 'f) dll_system \<Rightarrow> string option \<Rightarrow> qrvmc_loader_error_code option \<Rightarrow>
      ('s, 'h, 'e) loader_world \<Rightarrow>
      (nat option \<times> qrvmc_loader_error_code option \<times> ('s, 'h, 'e) loader_world) option" where
  "qrvmc_load_and_create S filename error_code w =
    map_option (\<lambda>(vm, error_code, _, w). (vm, error_code, w))
      (load_and_create_internal S filename error_code None w)"

subsection \<open>Configuring\<close>

text \<open>
  One option of the configuration, from the name and the value: \<open>vm->set_option\<close> and the switch on
  its outcome, with the error code of the \<open>goto\<close> or \<open>QRVMC_LOADER_SUCCESS\<close>.
\<close>

definition quoted :: "string \<Rightarrow> string" where
  "quoted s = [CHR 0x27] @ s @ [CHR 0x27]"

definition set_vm_option ::
    "string \<Rightarrow> nat \<Rightarrow> string \<Rightarrow> string \<Rightarrow> ('s, 'h, 'e) loader_world \<Rightarrow>
      (qrvmc_loader_error_code \<times> ('s, 'h, 'e) loader_world) option" where
  "set_vm_option path p name option w =
    do {
      (vm, s) \<leftarrow> ld_vms w p;
      f \<leftarrow> vm_set_option vm;
      let (r, s') = f name (Some option) s;
      let w = log_event (Option_set p name option) (w\<lparr>ld_vms := (ld_vms w)(p \<mapsto> (vm, s'))\<rparr>);
      let vm_path = vm_name vm @ '' ('' @ path @ '')'';
      Some (case r of
        QRVMC_SET_OPTION_SUCCESS \<Rightarrow> (QRVMC_LOADER_SUCCESS, w)
      | QRVMC_SET_OPTION_INVALID_NAME \<Rightarrow> (QRVMC_LOADER_INVALID_OPTION_NAME,
          set_error (vm_path @ '': unknown option '' @ quoted name) w)
      | QRVMC_SET_OPTION_INVALID_VALUE \<Rightarrow> (QRVMC_LOADER_INVALID_OPTION_VALUE,
          set_error (vm_path @ '': unsupported value '' @ quoted option @ '' for option '' @
            quoted name) w)
      | QRVMC_SET_OPTION_OTHER _ \<Rightarrow> (QRVMC_LOADER_INVALID_OPTION_VALUE,
          set_error (vm_path @ '': unknown error when setting value '' @ quoted option @
            '' for option '' @ quoted name) w))
    }"

function configure_loop ::
    "nat \<Rightarrow> nat \<Rightarrow> string \<Rightarrow> nat \<Rightarrow> ('s, 'h, 'e) loader_world \<Rightarrow>
      (qrvmc_loader_error_code \<times> ('s, 'h, 'e) loader_world) option" where
  "configure_loop path p buf options w =
    (case c_string buf options of
       None \<Rightarrow> None
     | Some [] \<Rightarrow> Some (QRVMC_LOADER_SUCCESS, w)
     | Some _ \<Rightarrow>
         (case (ld_vms w p, c_string buf path) of
            (Some (vm, _), Some path_text) \<Rightarrow>
              if vm_set_option vm = None then
                Some (QRVMC_LOADER_INVALID_OPTION_NAME,
                  set_error (vm_name vm @ '' ('' @ path_text @ '') does not support any options'') w)
              else
                (case get_token buf options CHR '','' of
                   None \<Rightarrow> None
                 | Some (option, buf, options) \<Rightarrow>
                     (case get_token buf option CHR ''='' of
                        None \<Rightarrow> None
                      | Some (name, buf, option) \<Rightarrow>
                          (case (c_string buf name, c_string buf option) of
                             (Some name, Some option) \<Rightarrow>
                               (case set_vm_option path_text p name option w of
                                  None \<Rightarrow> None
                                | Some (ec, w) \<Rightarrow>
                                    if ec = QRVMC_LOADER_SUCCESS
                                    then configure_loop path p buf options w
                                    else Some (ec, w))
                           | _ \<Rightarrow> None)))
          | _ \<Rightarrow> None))"
  by pat_completeness auto

lemma length_takeWhile_set: "x \<in> set xs \<Longrightarrow> \<not> P x \<Longrightarrow> length (takeWhile P xs) < length xs"
  by (induction xs) auto

lemma c_string_length: "c_string buf p = Some s \<Longrightarrow> p + length s < length buf"
  using length_takeWhile_set [of NUL "drop p buf" "\<lambda>c. c \<noteq> NUL"]
  by (auto simp: c_string_def split: if_splits)

lemma get_token_cases:
  assumes "get_token buf str delim = Some (tok, buf', str')"
  obtains (found) q where "c_strchr buf str delim = Some (Some q)" "tok = str" "buf' = buf[q := NUL]"
      "str' = q + 1"
    | (last) s where "c_string buf str = Some s" "tok = str" "buf' = buf" "str' = str + length s"
proof (cases "c_strchr buf str delim")
  case None
  then show ?thesis using assms by (simp add: get_token_def)
next
  case (Some pos)
  then show ?thesis
  proof (cases pos)
    case None
    then obtain s where "c_string buf str = Some s" "tok = str" "buf' = buf" "str' = str + length s"
      using assms Some by (cases "c_string buf str") (simp_all add: get_token_def)
    then show ?thesis by (rule last)
  next
    case (Some q)
    then show ?thesis using assms \<open>c_strchr buf str delim = Some pos\<close>
      by (intro found) (auto simp: get_token_def)
  qed
qed

lemma get_token_bounds:
  assumes "get_token buf str delim = Some (tok, buf', str')"
  shows "length buf' = length buf" "str \<le> str'" "str' \<le> length buf"
    "c_string buf str \<noteq> Some [] \<Longrightarrow> str < str'"
  using assms
  by (cases rule: get_token_cases; auto dest: c_strchr_bounds c_string_length)+

lemma tokens_progress:
  assumes "c_string buf str = Some (x # xs)" "get_token buf str c = Some (tok, buf1, str1)"
    "get_token buf1 tok d = Some (name, buf2, val)"
  shows "length buf2 - str1 < length buf - str"
proof -
  have "str < str1" "str1 \<le> length buf" "length buf1 = length buf"
    using get_token_bounds [OF assms(2)] assms(1) by simp_all
  moreover have "length buf2 = length buf1"
    by (rule get_token_bounds(1) [OF assms(3)])
  ultimately show ?thesis by simp
qed

termination configure_loop
proof (relation "measure (\<lambda>(path, p, buf, options, w). length buf - options)", goal_cases)
  case prems: 2
  show ?case using prems by (auto intro: tokens_progress)
qed simp

declare configure_loop.simps [simp del]

definition qrvmc_load_and_configure ::
    "('s, 'h, 'e, 'f) dll_system \<Rightarrow> string option \<Rightarrow> qrvmc_loader_error_code option \<Rightarrow>
      ('s, 'h, 'e) loader_world \<Rightarrow>
      (nat option \<times> qrvmc_loader_error_code option \<times> ('s, 'h, 'e) loader_world) option" where
  "qrvmc_load_and_configure S config error_code w =
    (case config of
       None \<Rightarrow> Some (None, set_out QRVMC_LOADER_INVALID_ARGUMENT error_code,
         set_error ''invalid argument: configuration cannot be null'' w)
     | Some text \<Rightarrow>
         do {
           let config_copy_buffer = map (garbage S) [0..<PATH_MAX_LENGTH];
           (r, buf) \<leftarrow> strcpy_sx config_copy_buffer 0 PATH_MAX_LENGTH text;
           if r \<noteq> 0 then
             Some (None, set_out QRVMC_LOADER_INVALID_ARGUMENT error_code,
               set_error (''invalid argument: configuration is too long (maximum allowed length is '' @
                 decimal (int PATH_MAX_LENGTH - 1) @ '')'') w)
           else
             do {
               (path, buf, options) \<leftarrow> get_token buf 0 CHR '','';
               path_text \<leftarrow> c_string buf path;
               (vm, error_code, handle, w) \<leftarrow>
                 load_and_create_internal S (Some path_text) error_code (Some None) w;
               (case vm of
                  None \<Rightarrow> Some (None, error_code, w)
                | Some p \<Rightarrow>
                    do {
                      (ec, w) \<leftarrow> configure_loop path p buf options w;
                      if ec = QRVMC_LOADER_SUCCESS then Some (Some p, set_out ec error_code, w)
                      else
                        do {
                          w \<leftarrow> destroy_vm p w;
                          handle \<leftarrow> the handle;
                          Some (None, set_out ec error_code, DLL_CLOSE S handle w)
                        }
                    })
             }
         })"

subsection \<open>Strings and tokens as lists\<close>

lemma c_string_iff:
  "c_string buf p = Some s \<longleftrightarrow> NUL \<notin> set s \<and> (\<exists>rest. drop p buf = s @ NUL # rest)"
proof
  assume "c_string buf p = Some s"
  then have s: "NUL \<in> set (drop p buf)" "s = takeWhile (\<lambda>c. c \<noteq> NUL) (drop p buf)"
    by (auto simp: c_string_def split: if_splits)
  have "dropWhile (\<lambda>c. c \<noteq> NUL) (drop p buf) \<noteq> []"
    using s(1) by (auto simp: dropWhile_eq_Nil_conv)
  then obtain y rest where y: "dropWhile (\<lambda>c. c \<noteq> NUL) (drop p buf) = y # rest"
    by (meson neq_Nil_conv)
  then have "y = NUL"
    using hd_dropWhile [of "\<lambda>c. c \<noteq> NUL" "drop p buf"] by simp
  moreover have "NUL \<notin> set s"
    using s(2) set_takeWhileD by fastforce
  ultimately show "NUL \<notin> set s \<and> (\<exists>rest. drop p buf = s @ NUL # rest)"
    using s(2) y takeWhile_dropWhile_id [of "\<lambda>c. c \<noteq> NUL" "drop p buf"] by metis
next
  assume "NUL \<notin> set s \<and> (\<exists>rest. drop p buf = s @ NUL # rest)"
  then obtain rest where "NUL \<notin> set s" "drop p buf = s @ NUL # rest" by blast
  then show "c_string buf p = Some s"
    by (auto simp: c_string_def takeWhile_append)
qed

lemma c_string_update_before: "k < p \<Longrightarrow> c_string (buf[k := x]) p = c_string buf p"
  by (simp add: c_string_def)

lemma c_string_update_after:
  "c_string buf p = Some s \<Longrightarrow> p + length s < k \<Longrightarrow> c_string (buf[k := x]) p = Some s"
  unfolding c_string_iff
  by (auto simp: drop_update_swap list_update_append split: nat.split)

lemma c_string_cut:
  "c_string buf p = Some s \<Longrightarrow> j < length s \<Longrightarrow> c_string (buf[p + j := NUL]) p = Some (take j s)"
  unfolding c_string_iff
  by (auto simp: drop_update_swap list_update_append upd_conv_take_nth_drop dest: in_set_takeD)

lemma c_string_suffix:
  assumes "c_string buf p = Some s" "j \<le> length s"
  shows "c_string buf (p + j) = Some (drop j s)"
proof -
  have "drop (p + j) buf = drop j (drop p buf)"
    by (simp add: add.commute)
  moreover obtain rest where "NUL \<notin> set s" "drop p buf = s @ NUL # rest"
    using assms(1) by (auto simp: c_string_iff)
  ultimately show ?thesis
    using assms(2) by (auto simp: c_string_iff dest: in_set_dropD simp del: drop_drop)
qed

lemma c_string_prepend:
  assumes "c_string buf (p + n) = Some t" "take n (drop p buf) = u" "NUL \<notin> set u"
  shows "c_string buf p = Some (u @ t)"
proof -
  have "drop p buf = u @ drop (p + n) buf"
    using append_take_drop_id [of n "drop p buf"] assms(2) by (simp add: add.commute)
  then show ?thesis
    using assms(1,3) by (auto simp: c_string_iff)
qed

definition before :: "char \<Rightarrow> string \<Rightarrow> string" where
  "before c s = takeWhile (\<lambda>x. x \<noteq> c) s"

definition after :: "char \<Rightarrow> string \<Rightarrow> string" where
  "after c s = drop (Suc (length (before c s))) s"

lemma find_char_None: "find_char c s = None \<Longrightarrow> before c s = s \<and> after c s = [] \<and> c \<notin> set s"
proof -
  assume "find_char c s = None"
  then have "\<not> length (takeWhile (\<lambda>x. x \<noteq> c) s) < length s"
    by (simp add: find_char_def Let_def split: if_splits)
  then have "c \<notin> set s"
    using length_takeWhile_set [of c s "\<lambda>x. x \<noteq> c"] by blast
  then have "before c s = s"
    by (auto simp: before_def takeWhile_eq_all_conv)
  with \<open>c \<notin> set s\<close> show ?thesis by (simp add: after_def)
qed

lemma find_char_Some:
  "find_char c s = Some k \<Longrightarrow> k < length s \<and> before c s = take k s \<and> after c s = drop (Suc k) s"
proof -
  assume "find_char c s = Some k"
  then have k: "length (before c s) = k" "k < length s"
    by (auto simp: find_char_def before_def Let_def split: if_splits)
  moreover have "before c s = take (length (before c s)) s"
    unfolding before_def by (rule takeWhile_eq_take)
  ultimately show ?thesis by (simp add: after_def)
qed

lemma length_before: "length (before c s) \<le> length s"
  by (simp add: before_def length_takeWhile_le)

text \<open>
  Taking a token splits the string at the delimiter, and leaves the strings alone that end before
  it or start at its end.
\<close>

lemma get_token_splits:
  assumes "c_string buf str = Some s"
  obtains buf' str' where "get_token buf str c = Some (str, buf', str')"
    "c_string buf' str = Some (before c s)" "c_string buf' str' = Some (after c s)"
    "str + length (before c s) \<le> str'"
    "\<And>q t. c_string buf q = Some t \<Longrightarrow> q + length t < str \<or> str + length s \<le> q \<Longrightarrow>
      c_string buf' q = Some t"
proof (cases "find_char c s")
  case None
  from find_char_None [OF this] have split: "before c s = s" "after c s = []" by simp_all
  show ?thesis
    by (rule that [of buf "str + length s"])
      (use assms None split c_string_suffix [OF assms, of "length s"] in
        \<open>simp_all add: get_token_def c_strchr_def\<close>)
next
  case (Some k)
  from find_char_Some [OF this] have split: "k < length s" "before c s = take k s"
    "after c s = drop (Suc k) s" by simp_all
  show ?thesis
  proof (rule that [of "buf[str + k := NUL]" "str + k + 1"])
    show "get_token buf str c = Some (str, buf[str + k := NUL], str + k + 1)"
      using assms Some by (simp add: get_token_def c_strchr_def)
    show "c_string (buf[str + k := NUL]) str = Some (before c s)"
      using c_string_cut [OF assms split(1)] split(2) by simp
    have "c_string buf (str + k + 1) = Some (after c s)"
      using c_string_suffix [OF assms, of "Suc k"] split(1,3) by simp
    then show "c_string (buf[str + k := NUL]) (str + k + 1) = Some (after c s)"
      by (simp add: c_string_update_before)
    show "str + length (before c s) \<le> str + k + 1"
      using split by simp
    show "c_string (buf[str + k := NUL]) q = Some t"
      if "c_string buf q = Some t" "q + length t < str \<or> str + length s \<le> q" for q t
      using that split(1) c_string_update_after [OF that(1), of "str + k"]
        c_string_update_before [of "str + k" q buf]
      by (cases "q + length t < str") simp_all
  qed
qed

lemma strcpy_sx_fits:
  assumes "length src < destsz" "dest + destsz \<le> length buf" "NUL \<notin> set src"
  shows "strcpy_sx buf dest destsz src = Some (0, blit buf dest (src @ [NUL]))"
    "c_string (blit buf dest (src @ [NUL])) dest = Some src"
  using assms by (auto simp: strcpy_sx_def buf_write_def c_string_iff blit_def)

subsection \<open>What the buffers compute\<close>

text \<open>The rules for the name of the create function, on strings.\<close>

definition base_name_of :: "string \<Rightarrow> string" where
  "base_name_of filename =
    (let name = rev (before CHR ''/'' (rev filename))
     in if take 3 name = ''lib'' then drop 3 name else name)"

definition create_name_rules :: "string \<Rightarrow> string" where
  "create_name_rules filename =
    create_prefix @ map (\<lambda>c. if c = CHR ''-'' then CHR ''_'' else c) (before CHR ''.'' (base_name_of filename))"

lemma drop_name_position: "drop (name_position filename) filename = base_name_of filename"
proof (cases "find_char CHR ''/'' (rev filename)")
  case None
  then show ?thesis
    using find_char_None [OF None] by (simp add: name_position_def c_strrchr_def base_name_of_def)
next
  case (Some k)
  have k: "k < length filename" "before CHR ''/'' (rev filename) = take k (rev filename)"
    using find_char_Some [OF Some] by simp_all
  then have "rev (take k (rev filename)) = drop (Suc (length filename - 1 - k)) filename"
    by (simp add: take_rev Suc_diff_Suc)
  then show ?thesis
    using Some k by (simp add: name_position_def c_strrchr_def base_name_of_def Let_def)
qed

lemma replace_dashes_replaces:
  assumes "c_string buf p = Some s"
  shows "\<exists>buf'. replace_dashes buf p = Some buf' \<and> take p buf' = take p buf \<and>
    c_string buf' p = Some (map (\<lambda>c. if c = CHR ''-'' then CHR ''_'' else c) s)"
  using assms
proof (induction "length s" arbitrary: buf p s rule: less_induct)
  case less
  show ?case
  proof (cases "find_char CHR ''-'' s")
    case None
    then have "CHR ''-'' \<notin> set s" using find_char_None by blast
    then have "map (\<lambda>c. if c = CHR ''-'' then CHR ''_'' else c) s = s"
      by (intro map_idI) auto
    then show ?thesis
      using None less.prems by (simp add: replace_dashes.simps [of buf] c_strchr_def)
  next
    case (Some k)
    let ?buf = "buf[p + k := CHR ''_'']"
    have k: "k < length s" "before CHR ''-'' s = take k s"
      using find_char_Some [OF Some] by simp_all
    have nk: "s ! k = CHR ''-''" using find_char_less [OF Some] by simp
    have "c_string ?buf (p + k + 1) = Some (drop (Suc k) s)"
      using c_string_suffix [OF less.prems, of "Suc k"] k(1) by (simp add: c_string_update_before)
    moreover have "length (drop (Suc k) s) < length s"
      using k(1) by simp
    ultimately obtain buf' where IH:
      "replace_dashes ?buf (p + k + 1) = Some buf'" "take (p + k + 1) buf' = take (p + k + 1) ?buf"
      "c_string buf' (p + k + 1) = Some (map (\<lambda>c. if c = CHR ''-'' then CHR ''_'' else c) (drop (Suc k) s))"
      using less.hyps by blast
    obtain rest where rest: "drop p buf = s @ NUL # rest" "NUL \<notin> set s"
      using less.prems by (auto simp: c_string_iff)
    have "take (k + 1) (drop p buf') = drop p (take (p + k + 1) buf')"
      by (simp add: take_drop add.commute)
    also have "\<dots> = take (k + 1) (drop p ?buf)"
      by (simp only: IH(2)) (simp add: take_drop add.commute)
    also have "\<dots> = take k s @ ''_''"
      using k(1) rest(1) by (simp add: drop_update_swap list_update_append take_Suc_conv_app_nth)
    finally have start: "take (k + 1) (drop p buf') = take k s @ ''_''" .
    have "c_string buf' p = Some ((take k s @ ''_'') @
        map (\<lambda>c. if c = CHR ''-'' then CHR ''_'' else c) (drop (Suc k) s))"
      by (rule c_string_prepend [OF _ start])
        (use IH(3) k(1) rest(2) in \<open>auto simp: add.assoc dest: in_set_takeD\<close>)
    moreover have "map (\<lambda>c. if c = CHR ''-'' then CHR ''_'' else c) s = (take k s @ ''_'') @
        map (\<lambda>c. if c = CHR ''-'' then CHR ''_'' else c) (drop (Suc k) s)"
    proof -
      have "CHR ''-'' \<notin> set (take k s)"
        using k(2) by (metis (mono_tags, lifting) before_def set_takeWhileD)
      then have "map (\<lambda>c. if c = CHR ''-'' then CHR ''_'' else c) (take k s) = take k s"
        by (intro map_idI) auto
      moreover have "map (\<lambda>c. if c = CHR ''-'' then CHR ''_'' else c) s =
          map (\<lambda>c. if c = CHR ''-'' then CHR ''_'' else c) (take k s @ s ! k # drop (Suc k) s)"
        by (simp only: id_take_nth_drop [OF k(1), symmetric])
      ultimately show ?thesis
        using nk by simp
    qed
    moreover have "take p buf' = take p buf"
    proof -
      have "take p buf' = take p (take (p + k + 1) buf')" by simp
      also have "\<dots> = take p buf" by (simp only: IH(2)) simp
      finally show ?thesis .
    qed
    moreover have "replace_dashes buf p = Some buf'"
      using Some less.prems IH(1) by (simp add: replace_dashes.simps [of buf] c_strchr_def)
    ultimately show ?thesis by simp
  qed
qed

lemma create_fn_name_rules:
  assumes "NUL \<notin> set filename" "length filename < PATH_MAX_LENGTH"
  shows "create_fn_name uninit filename = Some (create_name_rules filename)"
proof -
  let ?name = "base_name_of filename" and ?n = "length create_prefix"
  define size where "size = ?n + 1 + PATH_MAX_LENGTH"
  define buf0 where "buf0 = map uninit [0..<size]"
  let ?buf1 = "blit buf0 0 (create_prefix @ [NUL])"
  let ?buf2 = "blit ?buf1 ?n (?name @ [NUL])"
  have name: "NUL \<notin> set ?name" "length ?name < PATH_MAX_LENGTH"
    using assms drop_name_position [of filename] by (metis in_set_dropD, metis length_drop less_imp_diff_less)
  have prefix: "NUL \<notin> set create_prefix" "CHR ''.'' \<notin> set create_prefix" "?n = 13"
    by (simp_all add: create_prefix_def)
  have copy1: "strcpy_sx buf0 0 size create_prefix = Some (0, ?buf1)"
    using prefix by (intro strcpy_sx_fits) (simp_all add: PATH_MAX_LENGTH_def size_def buf0_def)
  have len1: "length ?buf1 = ?n + 1 + PATH_MAX_LENGTH" by (simp add: size_def buf0_def)
  have copy2: "strcpy_sx ?buf1 ?n PATH_MAX_LENGTH ?name = Some (0, ?buf2)"
    "c_string ?buf2 ?n = Some ?name"
    using name len1 strcpy_sx_fits [of ?name PATH_MAX_LENGTH ?n ?buf1] by simp_all
  have "take ?n (drop 0 ?buf2) = create_prefix"
    by (simp add: blit_def)
  then have all: "c_string ?buf2 0 = Some (create_prefix @ ?name)"
    using copy2(2) prefix(1) by (intro c_string_prepend [where n = ?n]) simp_all
  define buf3 where "buf3 = (case find_char CHR ''.'' (create_prefix @ ?name) of
      Some q \<Rightarrow> ?buf2[q := NUL] | None \<Rightarrow> ?buf2)"
  have cut: "c_string buf3 0 = Some (create_prefix @ before CHR ''.'' ?name)"
  proof -
    have "before CHR ''.'' (create_prefix @ ?name) = create_prefix @ before CHR ''.'' ?name"
      using prefix(2) by (auto simp: before_def intro: takeWhile_append2)
    then show ?thesis
      using find_char_None [of "CHR ''.''" "create_prefix @ ?name"] all
        find_char_Some [of "CHR ''.''" "create_prefix @ ?name"] c_string_cut [OF all]
      by (auto simp: buf3_def split: option.split)
  qed
  from c_string_suffix [OF this, of ?n] have "c_string buf3 ?n = Some (before CHR ''.'' ?name)"
    by simp
  from replace_dashes_replaces [OF this] obtain buf4 where buf4:
    "replace_dashes buf3 ?n = Some buf4" "take ?n buf4 = take ?n buf3"
    "c_string buf4 ?n = Some (map (\<lambda>c. if c = CHR ''-'' then CHR ''_'' else c) (before CHR ''.'' ?name))"
    by blast
  have "take ?n buf3 = create_prefix"
    using cut by (auto simp: c_string_iff)
  then have "c_string buf4 0 = Some (create_name_rules filename)"
    unfolding create_name_rules_def
    using buf4 prefix(1) by (intro c_string_prepend [where n = ?n]) simp_all
  then show ?thesis
    using buf4(1) unfolding create_fn_name_def Let_def buf3_def
    unfolding size_def [symmetric] buf0_def [symmetric] drop_name_position copy1
    by (cases "find_char CHR ''.'' (create_prefix @ ?name)") (simp_all add: copy2(1) c_strchr_def all)
qed

text \<open>The options of a configuration after the path, and setting them in order.\<close>

lemma length_after: "s \<noteq> [] \<Longrightarrow> length (after c s) < length s"
  by (simp add: after_def)

function config_options :: "string \<Rightarrow> (string \<times> string) list" where
  "config_options s =
    (if s = [] then []
     else (let option = before CHR '','' s
           in (before CHR ''='' option, after CHR ''='' option) # config_options (after CHR '','' s)))"
  by pat_completeness auto
termination
  by (relation "measure length") (simp_all add: length_after)

declare config_options.simps [simp del]

fun apply_options ::
    "string \<Rightarrow> nat \<Rightarrow> (string \<times> string) list \<Rightarrow> ('s, 'h, 'e) loader_world \<Rightarrow>
      (qrvmc_loader_error_code \<times> ('s, 'h, 'e) loader_world) option" where
  "apply_options path p [] w = Some (QRVMC_LOADER_SUCCESS, w)"
| "apply_options path p ((name, option) # opts) w =
    (case ld_vms w p of
       None \<Rightarrow> None
     | Some (vm, _) \<Rightarrow>
         if vm_set_option vm = None then
           Some (QRVMC_LOADER_INVALID_OPTION_NAME,
             set_error (vm_name vm @ '' ('' @ path @ '') does not support any options'') w)
         else
           (case set_vm_option path p name option w of
              None \<Rightarrow> None
            | Some (ec, w) \<Rightarrow>
                if ec = QRVMC_LOADER_SUCCESS then apply_options path p opts w else Some (ec, w)))"

lemma configure_loop_applies:
  fixes w :: "('s, 'h, 'e) loader_world"
  assumes "c_string buf options = Some s" "c_string buf path = Some path_text"
    "path + length path_text < options"
  shows "configure_loop path p buf options w = apply_options path_text p (config_options s) w"
  using assms
proof (induction "length s" arbitrary: s buf options w rule: less_induct)
  case less
  show ?case
  proof (cases s)
    case Nil
    then show ?thesis
      using less.prems by (simp add: configure_loop.simps [of path p buf] config_options.simps)
  next
    case (Cons x xs)
    obtain buf1 options1 where tok1: "get_token buf options CHR '','' = Some (options, buf1, options1)"
      "c_string buf1 options = Some (before CHR '','' s)" "c_string buf1 options1 = Some (after CHR '','' s)"
      "options + length (before CHR '','' s) \<le> options1" "c_string buf1 path = Some path_text"
      using get_token_splits [OF less.prems(1), of "CHR '',''"] less.prems(2,3) by metis
    obtain buf2 val where tok2: "get_token buf1 options CHR ''='' = Some (options, buf2, val)"
      "c_string buf2 options = Some (before CHR ''='' (before CHR '','' s))"
      "c_string buf2 val = Some (after CHR ''='' (before CHR '','' s))"
      "c_string buf2 options1 = Some (after CHR '','' s)" "c_string buf2 path = Some path_text"
      using get_token_splits [OF tok1(2), of "CHR ''=''"] tok1(3-5) less.prems(3) by metis
    have step: "configure_loop path p buf2 options1 w' =
        apply_options path_text p (config_options (after CHR '','' s)) w'"
      for w' :: "('s, 'h, 'e) loader_world"
      using less.hyps [OF _ tok2(4,5)] tok1(4) less.prems(3) Cons length_after [of s "CHR '',''"]
      by simp
    have "configure_loop path p buf options w =
        (case ld_vms w p of
           None \<Rightarrow> None
         | Some (vm, _) \<Rightarrow>
             if vm_set_option vm = None then
               Some (QRVMC_LOADER_INVALID_OPTION_NAME,
                 set_error (vm_name vm @ '' ('' @ path_text @ '') does not support any options'') w)
             else
               (case set_vm_option path_text p (before CHR ''='' (before CHR '','' s))
                   (after CHR ''='' (before CHR '','' s)) w of
                  None \<Rightarrow> None
                | Some (ec, w) \<Rightarrow>
                    if ec = QRVMC_LOADER_SUCCESS then configure_loop path p buf2 options1 w
                    else Some (ec, w)))"
      unfolding configure_loop.simps [of path p buf options w]
      by (simp add: less.prems(1,2) Cons tok1(1) tok2(1,2,3) split: option.split prod.split)
    also have "\<dots> = apply_options path_text p (config_options s) w"
      unfolding config_options.simps [of s]
      by (simp add: Cons step Let_def cong: option.case_cong if_cong)
    finally show ?thesis .
  qed
qed

subsection \<open>Modules and instances\<close>

text \<open>The protocol of one load: what is open, and the steps that are right then.\<close>

datatype loader_phase = No_module | Module nat | Running nat nat

fun loader_protocol :: "loader_phase \<Rightarrow> loader_event list \<Rightarrow> loader_phase option" where
  "loader_protocol phase [] = Some phase"
| "loader_protocol No_module (Opened h # evs) = loader_protocol (Module h) evs"
| "loader_protocol (Module h) (Closed h' # evs) =
    (if h' = h then loader_protocol No_module evs else None)"
| "loader_protocol (Module h) (Created p # evs) = loader_protocol (Running h p) evs"
| "loader_protocol (Running h p) (Option_set p' name option # evs) =
    (if p' = p then loader_protocol (Running h p) evs else None)"
| "loader_protocol (Running h p) (Destroyed p' # evs) =
    (if p' = p then loader_protocol (Module h) evs else None)"
| "loader_protocol phase (ev # evs) = None"

lemma loader_protocol_append:
  "loader_protocol phase (evs @ evs') =
    (case loader_protocol phase evs of None \<Rightarrow> None | Some phase' \<Rightarrow> loader_protocol phase' evs')"
  by (induction phase evs rule: loader_protocol.induct) simp_all

text \<open>A create function returns null or an instance, as its documentation says.\<close>

definition create_returns_instance :: "('s, 'h, 'e, 'f) dll_system \<Rightarrow> bool" where
  "create_returns_instance S \<longleftrightarrow>
    (\<forall>f vms e p vms' e'. sys_create S f vms e = (Some p, vms', e') \<longrightarrow> vms' p \<noteq> None)"

definition c_text :: "string option \<Rightarrow> bool" where
  "c_text s \<longleftrightarrow> (\<forall>text. s = Some text \<longrightarrow> NUL \<notin> set text)"

lemma set_out_set_out [simp]: "set_out v (set_out u cell) = set_out v cell"
  by (cases cell) (simp_all add: set_out_def)

lemma set_error_fields [simp]:
  "ld_events (set_error text w) = ld_events w" "ld_vms (set_error text w) = ld_vms w"
  "ld_system (set_error text w) = ld_system w"
  by (simp_all add: set_error_def)

lemma DLL_CLOSE_fields [simp]:
  "ld_events (DLL_CLOSE S h w) = ld_events w @ [Closed h]" "ld_vms (DLL_CLOSE S h w) = ld_vms w"
  "ld_error_msg (DLL_CLOSE S h w) = ld_error_msg w"
  by (simp_all add: DLL_CLOSE_def log_event_def)

lemma DLL_GET_CREATE_FN_fields:
  "DLL_GET_CREATE_FN S h name w = (f, w') \<Longrightarrow>
    ld_events w' = ld_events w \<and> ld_vms w' = ld_vms w \<and> ld_error_msg w' = ld_error_msg w"
  by (auto simp: DLL_GET_CREATE_FN_def split: prod.splits)

definition load_outcome ::
    "nat option option \<Rightarrow> ('s, 'h, 'e) loader_world \<Rightarrow> qrvmc_loader_error_code \<Rightarrow> 'f option \<Rightarrow>
      nat option option \<Rightarrow> ('s, 'h, 'e) loader_world \<Rightarrow> bool" where
  "load_outcome ho w ec create_fn ho' w' \<longleftrightarrow>
    ld_vms w' = ld_vms w \<and>
    (if create_fn = None then ec \<noteq> QRVMC_LOADER_SUCCESS \<and>
       (ld_events w' = ld_events w \<or> (\<exists>h. ld_events w' = ld_events w @ [Opened h, Closed h]))
     else ec = QRVMC_LOADER_SUCCESS \<and> ld_error_msg w' = ld_error_msg w \<and>
       (\<exists>h. ho' = set_out (Some h) ho \<and> ld_events w' = ld_events w @ [Opened h]))"

lemma load_module_outcome:
  assumes "c_text filename"
  shows "\<exists>ec create_fn ho' w'. load_module S filename ho w = Some (ec, create_fn, ho', w') \<and>
    load_outcome ho w ec create_fn ho' w'"
proof (cases filename)
  case None
  then show ?thesis by (simp add: load_module_def load_outcome_def)
next
  case (Some fname)
  show ?thesis
  proof (cases "fname = [] \<or> PATH_MAX_LENGTH \<le> length fname")
    case True
    then show ?thesis by (auto simp: load_module_def load_outcome_def Some)
  next
    case False
    then have name: "create_fn_name (garbage S) fname = Some (create_name_rules fname)"
      using assms by (intro create_fn_name_rules) (simp_all add: c_text_def Some)
    obtain r e where op: "sys_open S fname (ld_system w) = (r, e)" by fastforce
    show ?thesis
    proof (cases r)
      case None
      obtain m e' where "sys_error_msg S e = (m, e')" by fastforce
      then show ?thesis
        using False op None
        by (cases m) (simp_all add: load_module_def Some DLL_OPEN_def DLL_GET_ERROR_MSG_def load_outcome_def)
    next
      case (Some h)
      let ?w1 = "log_event (Opened h) (w\<lparr>ld_system := e\<rparr>)"
      obtain f1 w2 where g1: "DLL_GET_CREATE_FN S h (create_name_rules fname) ?w1 = (f1, w2)" by fastforce
      obtain f2 w3 where g2: "(if f1 = None then DLL_GET_CREATE_FN S h ''qrvmc_create'' w2 else (f1, w2)) = (f2, w3)"
        by fastforce
      have w3: "ld_events w3 = ld_events w @ [Opened h]" "ld_vms w3 = ld_vms w" "ld_error_msg w3 = ld_error_msg w"
        using DLL_GET_CREATE_FN_fields [OF g1] DLL_GET_CREATE_FN_fields [of S h "''qrvmc_create''" w2 f2 w3] g2
        by (auto simp: log_event_def split: if_splits)
      have "load_module S filename ho w =
          (if f2 = None then Some (QRVMC_LOADER_SYMBOL_NOT_FOUND, f2, ho,
             set_error (''QRVMC create function not found in '' @ fname) (DLL_CLOSE S h w3))
           else Some (QRVMC_LOADER_SUCCESS, f2, set_out (Some h) ho, w3))"
        using False op Some \<open>filename = Some fname\<close>
        by (simp add: load_module_def DLL_OPEN_def name g1 g2)
      then show ?thesis
        using w3 by (cases f2) (auto simp: load_outcome_def)
    qed
  qed
qed

text \<open>No module is left open and no instance alive, or one of each.\<close>

definition create_outcome ::
    "nat option option \<Rightarrow> ('s, 'h, 'e) loader_world \<Rightarrow> qrvmc_loader_error_code \<Rightarrow> nat option \<Rightarrow>
      nat option option \<Rightarrow> ('s, 'h, 'e) loader_world \<Rightarrow> bool" where
  "create_outcome ho w ec vm ho' w' \<longleftrightarrow>
    (case vm of
       None \<Rightarrow> ec \<noteq> QRVMC_LOADER_SUCCESS \<and>
         (\<exists>evs. ld_events w' = ld_events w @ evs \<and> loader_protocol No_module evs = Some No_module)
     | Some p \<Rightarrow> ec = QRVMC_LOADER_SUCCESS \<and> ld_vms w' p \<noteq> None \<and> ld_error_msg w' = Msg_null \<and>
         (\<exists>h. ho' = set_out (Some h) ho \<and> ld_events w' = ld_events w @ [Opened h, Created p]))"

lemma destroy_vm_returns:
  assumes "ld_vms w p \<noteq> None"
  shows "\<exists>w'. destroy_vm p w = Some w' \<and> ld_events w' = ld_events w @ [Destroyed p] \<and>
    ld_error_msg w' = ld_error_msg w"
  using assms by (auto simp: destroy_vm_def qrvmc_destroy_def log_event_def)

lemma load_and_create_outcome:
  assumes "c_text filename" "create_returns_instance S"
  shows "\<exists>ec vm ho' w'. load_and_create_internal S filename cell ho w = Some (vm, set_out ec cell, ho', w') \<and>
    create_outcome ho w ec vm ho' w'"
proof -
  obtain ec f ho1 w1 where load: "load_module S filename (Some None) (w\<lparr>ld_error_msg := Msg_null\<rparr>) =
      Some (ec, f, ho1, w1)" "load_outcome (Some None) (w\<lparr>ld_error_msg := Msg_null\<rparr>) ec f ho1 w1"
    using load_module_outcome [OF assms(1)] by blast
  then have internal: "load_internal S filename cell (Some None) w = Some (f, set_out ec cell, ho1, w1)"
    by (simp add: load_internal_def)
  show ?thesis
  proof (cases f)
    case None
    then have "create_outcome ho w ec None ho w1"
      using load(2) by (auto simp: load_outcome_def create_outcome_def intro: exI [of _ "[]"])
    then show ?thesis
      using None by (auto simp: load_and_create_internal_def internal)
  next
    case (Some g)
    then obtain h where h: "ho1 = Some (Some h)" "ld_events w1 = ld_events w @ [Opened h]"
      "ld_error_msg w1 = Msg_null" "ec = QRVMC_LOADER_SUCCESS"
      using load(2) by (auto simp: load_outcome_def set_out_def)
    obtain vm vms e where create: "sys_create S g (ld_vms w1) (ld_system w1) = (vm, vms, e)"
      using prod_cases3 by blast
    show ?thesis
    proof (cases vm)
      case None
      then have "load_and_create_internal S filename cell ho w =
          Some (None, set_out QRVMC_LOADER_VM_CREATION_FAILURE cell, ho, DLL_CLOSE S h
            (set_error (''creating QRVMC VM of '' @ the filename @ '' has failed'')
              (w1\<lparr>ld_vms := vms, ld_system := e\<rparr>)))"
        using Some h create
        by (simp add: load_and_create_internal_def internal call_create_fn_def)
      then show ?thesis
        using h by (auto simp: create_outcome_def)
    next
      case (Some p)
      then obtain m s where p: "vms p = Some (m, s)"
        using assms(2) create unfolding create_returns_instance_def
        by (metis not_None_eq surj_pair)
      let ?w2 = "log_event (Created p) (w1\<lparr>ld_vms := vms, ld_system := e\<rparr>)"
      let ?text = "''QRVMC ABI version '' @ decimal (vm_abi_version m) @ '' of '' @ the filename @
        '' mismatches the expected version '' @ decimal QRVMC_ABI_VERSION"
      have w2: "ld_vms ?w2 p \<noteq> None" "ld_events ?w2 = ld_events w @ [Opened h, Created p]"
        "ld_error_msg ?w2 = Msg_null"
        using p h by (simp_all add: log_event_def)
      obtain w3 where w3: "destroy_vm p (set_error ?text ?w2) = Some w3"
        "ld_events w3 = ld_events ?w2 @ [Destroyed p]"
        using destroy_vm_returns [of "set_error ?text ?w2" p] w2(1) by auto
      have "load_and_create_internal S filename cell ho w =
          (if vm_abi_version m = QRVMC_ABI_VERSION
           then Some (Some p, set_out QRVMC_LOADER_SUCCESS cell, set_out (Some h) ho, ?w2)
           else Some (None, set_out QRVMC_LOADER_ABI_VERSION_MISMATCH cell, ho, DLL_CLOSE S h w3))"
        using \<open>f = Some g\<close> Some h p w3(1) create
        by (simp add: load_and_create_internal_def internal call_create_fn_def
            qrvmc_is_abi_compatible_def log_event_def)
      then show ?thesis
        using w2 w3(2) by (auto simp: create_outcome_def)
    qed
  qed
qed

lemma set_vm_option_events:
  assumes "ld_vms w p = Some (vm, s)" "vm_set_option vm \<noteq> None"
  shows "\<exists>ec w'. set_vm_option path p name option w = Some (ec, w') \<and> ld_vms w' p \<noteq> None \<and>
    ld_events w' = ld_events w @ [Option_set p name option] \<and>
    (ec = QRVMC_LOADER_SUCCESS \<longrightarrow> ld_error_msg w' = ld_error_msg w)"
proof -
  obtain f where f: "vm_set_option vm = Some f" using assms(2) by auto
  obtain r s' where "f name (Some option) s = (r, s')" by fastforce
  then show ?thesis
    using assms(1) f by (cases r) (simp_all add: set_vm_option_def log_event_def)
qed

lemma apply_options_events:
  assumes "ld_vms w p \<noteq> None"
  shows "\<exists>ec w' evs. apply_options path p opts w = Some (ec, w') \<and> ld_vms w' p \<noteq> None \<and>
    ld_events w' = ld_events w @ evs \<and> loader_protocol (Running h p) evs = Some (Running h p) \<and>
    (ec = QRVMC_LOADER_SUCCESS \<longrightarrow> ld_error_msg w' = ld_error_msg w)"
  using assms
proof (induction opts arbitrary: w)
  case Nil
  then show ?case by simp
next
  case (Cons no opts)
  obtain name option where no: "no = (name, option)" by fastforce
  obtain vm s where vm: "ld_vms w p = Some (vm, s)" using Cons.prems by auto
  show ?case
  proof (cases "vm_set_option vm")
    case None
    then show ?thesis using vm by (simp add: no)
  next
    case (Some f)
    then obtain ec1 w1 where step: "set_vm_option path p name option w = Some (ec1, w1)"
      "ld_vms w1 p \<noteq> None" "ld_events w1 = ld_events w @ [Option_set p name option]"
      "ec1 = QRVMC_LOADER_SUCCESS \<longrightarrow> ld_error_msg w1 = ld_error_msg w"
      using set_vm_option_events [OF vm, of path name option] by auto
    show ?thesis
    proof (cases "ec1 = QRVMC_LOADER_SUCCESS")
      case True
      from Cons.IH [OF step(2)] obtain ec w' evs where "apply_options path p opts w1 = Some (ec, w')"
        "ld_vms w' p \<noteq> None" "ld_events w' = ld_events w1 @ evs"
        "loader_protocol (Running h p) evs = Some (Running h p)"
        "ec = QRVMC_LOADER_SUCCESS \<longrightarrow> ld_error_msg w' = ld_error_msg w1" by blast
      then show ?thesis
        using vm Some step True
        by (intro exI [of _ ec] exI [of _ w'] exI [of _ "Option_set p name option # evs"]) (simp add: no)
    next
      case False
      then show ?thesis
        using vm Some step
        by (intro exI [of _ ec1] exI [of _ w1] exI [of _ "[Option_set p name option]"]) (simp add: no)
    qed
  qed
qed

text \<open>Loading and configuring on strings, without buffers.\<close>

definition load_and_configure_rules ::
    "('s, 'h, 'e, 'f) dll_system \<Rightarrow> string \<Rightarrow> qrvmc_loader_error_code option \<Rightarrow>
      ('s, 'h, 'e) loader_world \<Rightarrow>
      (nat option \<times> qrvmc_loader_error_code option \<times> ('s, 'h, 'e) loader_world) option" where
  "load_and_configure_rules S text cell w =
    (case load_and_create_internal S (Some (before CHR '','' text)) cell (Some None) w of
       None \<Rightarrow> None
     | Some (None, cell, handle, w) \<Rightarrow> Some (None, cell, w)
     | Some (Some p, cell, handle, w) \<Rightarrow>
         (case apply_options (before CHR '','' text) p (config_options (after CHR '','' text)) w of
            None \<Rightarrow> None
          | Some (ec, w) \<Rightarrow>
              if ec = QRVMC_LOADER_SUCCESS then Some (Some p, set_out ec cell, w)
              else do { w \<leftarrow> destroy_vm p w; h \<leftarrow> the handle; Some (None, set_out ec cell, DLL_CLOSE S h w) }))"

lemma load_and_configure_text:
  assumes "NUL \<notin> set text" "length text < PATH_MAX_LENGTH" "create_returns_instance S"
  shows "qrvmc_load_and_configure S (Some text) cell w = load_and_configure_rules S text cell w"
proof -
  let ?buf = "blit (map (garbage S) [0..<PATH_MAX_LENGTH]) 0 (text @ [NUL])"
  have copy: "strcpy_sx (map (garbage S) [0..<PATH_MAX_LENGTH]) 0 PATH_MAX_LENGTH text = Some (0, ?buf)"
    "c_string ?buf 0 = Some text"
    using strcpy_sx_fits [of "text" PATH_MAX_LENGTH 0 "map (garbage S) [0..<PATH_MAX_LENGTH]"] assms by simp_all
  obtain buf options where tok: "get_token ?buf 0 CHR '','' = Some (0, buf, options)"
    "c_string buf 0 = Some (before CHR '','' text)" "c_string buf options = Some (after CHR '','' text)"
    "0 + length (before CHR '','' text) \<le> options"
    by (rule get_token_splits [OF copy(2), of "CHR '',''"])
  have path: "c_text (Some (before CHR '','' text))"
    using assms(1) by (auto simp: c_text_def before_def dest: set_takeWhileD)
  obtain ec vm ho' w1 where load: "load_and_create_internal S (Some (before CHR '','' text)) cell (Some None) w =
      Some (vm, set_out ec cell, ho', w1)"
    using load_and_create_outcome [OF path assms(3)] by blast
  have loop: "configure_loop 0 p buf options w1 =
      apply_options (before CHR '','' text) p (config_options (after CHR '','' text)) w1" for p
  proof (cases "options = 0")
    case True
    then have "after CHR '','' text = before CHR '','' text" "before CHR '','' text = []"
      using tok(2-4) by simp_all
    then show ?thesis
      using tok(3) by (simp add: configure_loop.simps [of 0 p buf] config_options.simps [of "[]"])
  next
    case False
    show ?thesis
    proof (cases "length (before CHR '','' text) < options")
      case True
      then show ?thesis
        using configure_loop_applies [OF tok(3,2)] by simp
    next
      case at_end: False
      then have "options = length (before CHR '','' text)"
        using tok(4) by simp
      then have "after CHR '','' text = []"
        using c_string_suffix [OF tok(2), of options] tok(3) by simp
      then show ?thesis
        using tok(3) by (simp add: configure_loop.simps [of 0 p buf] config_options.simps [of "[]"])
    qed
  qed
  show ?thesis
    unfolding qrvmc_load_and_configure_def load_and_configure_rules_def option.case Let_def copy(1)
    by (cases vm) (simp_all add: tok(1,2) load loop split: option.split prod.split)
qed

text \<open>A system with one module, whose instances accept the option \<open>trace\<close>.\<close>

definition one_module :: "(nat, unit, unit, unit) dll_system" where
  "one_module =
    \<lparr>sys_open = \<lambda>f e. (if f = ''./vm.so'' then Some 7 else None, e), sys_close = \<lambda>_ e. e,
     sys_get_create_fn = \<lambda>_ f e. (if f = ''qrvmc_create_vm'' then Some () else None, e),
     sys_error_msg = \<lambda>e. (None, e),
     sys_create = \<lambda>_ vms e. (Some 1, vms(1 \<mapsto>
       (\<lparr>vm_abi_version = QRVMC_ABI_VERSION, vm_name = ''one'', vm_version = ''1'', vm_destroy = \<lambda>_. None,
         vm_execute = \<lambda>_ _ _ _ _ _ _. None, vm_get_capabilities = \<lambda>_. 1,
         vm_set_option = Some (\<lambda>name _ s. if name = ''trace'' then (QRVMC_SET_OPTION_SUCCESS, Suc s)
           else (QRVMC_SET_OPTION_INVALID_NAME, s))\<rparr>, 0)), e),
     garbage = \<lambda>_. CHR ''?''\<rparr>"

definition empty_world :: "(nat, unit, unit) loader_world" where
  "empty_world = \<lparr>ld_vms = \<lambda>_. None, ld_system = (), ld_events = [], ld_error_msg = Msg_null,
    ld_error_buffer = []\<rparr>"

lemma one_module_creates: "create_returns_instance one_module"
  by (auto simp: create_returns_instance_def one_module_def)

subsection \<open>All or nothing\<close>

lemma load_and_configure_balanced:
  assumes "c_text config" "create_returns_instance S"
  shows "\<exists>ec vm w' evs. qrvmc_load_and_configure S config cell w = Some (vm, set_out ec cell, w') \<and>
    ld_events w' = ld_events w @ evs \<and>
    (case vm of
       None \<Rightarrow> ec \<noteq> QRVMC_LOADER_SUCCESS \<and> loader_protocol No_module evs = Some No_module
     | Some p \<Rightarrow> ec = QRVMC_LOADER_SUCCESS \<and> ld_vms w' p \<noteq> None \<and> fst (qrvmc_last_error_msg w') = None \<and>
         (\<exists>h. loader_protocol No_module evs = Some (Running h p)))"
proof (cases "\<exists>text. config = Some text \<and> length text < PATH_MAX_LENGTH")
  case False
  then show ?thesis
    by (cases config)
      (auto simp: qrvmc_load_and_configure_def strcpy_sx_def buf_write_def PATH_MAX_LENGTH_def Let_def)
next
  case True
  then obtain str where cfg: "config = Some str" "length str < PATH_MAX_LENGTH" by blast
  have nul: "NUL \<notin> set str" using assms(1) cfg(1) by (simp add: c_text_def)
  then have path: "c_text (Some (before CHR '','' str))"
    by (auto simp: c_text_def before_def dest: set_takeWhileD)
  obtain ec1 vm1 ho' w1 where load: "load_and_create_internal S (Some (before CHR '','' str)) cell (Some None) w =
      Some (vm1, set_out ec1 cell, ho', w1)" "create_outcome (Some None) w ec1 vm1 ho' w1"
    using load_and_create_outcome [OF path assms(2)] by blast
  show ?thesis
  proof (cases vm1)
    case None
    then show ?thesis
      using load by (auto simp: cfg(1) load_and_configure_text [OF nul cfg(2) assms(2)]
          load_and_configure_rules_def create_outcome_def)
  next
    case (Some p)
    then obtain h where h: "ld_vms w1 p \<noteq> None" "ho' = Some (Some h)" "ld_error_msg w1 = Msg_null"
      "ld_events w1 = ld_events w @ [Opened h, Created p]"
      using load(2) by (auto simp: create_outcome_def set_out_def)
    obtain ec w2 evs where opts: "apply_options (before CHR '','' str) p
        (config_options (after CHR '','' str)) w1 = Some (ec, w2)" "ld_vms w2 p \<noteq> None"
      "ld_events w2 = ld_events w1 @ evs" "loader_protocol (Running h p) evs = Some (Running h p)"
      "ec = QRVMC_LOADER_SUCCESS \<longrightarrow> ld_error_msg w2 = ld_error_msg w1"
      using apply_options_events [OF h(1)] by blast
    obtain w3 where w3: "destroy_vm p w2 = Some w3" "ld_events w3 = ld_events w2 @ [Destroyed p]"
      using destroy_vm_returns [OF opts(2)] by blast
    have "qrvmc_load_and_configure S config cell w =
        (if ec = QRVMC_LOADER_SUCCESS then Some (Some p, set_out ec cell, w2)
         else Some (None, set_out ec cell, DLL_CLOSE S h w3))"
      using load(1) Some h(2) opts(1) w3(1)
      by (simp add: cfg(1) load_and_configure_text [OF nul cfg(2) assms(2)] load_and_configure_rules_def)
    then show ?thesis
      using h opts w3(2) by (auto simp: loader_protocol_append qrvmc_last_error_msg_def)
  qed
qed

subsection \<open>Properties\<close>

text \<open>C14: The in-place string code finds the create function by the documented rules: the name after
the last slash, without a leading \<open>lib\<close>, up to the first dot, with underscores for dashes, behind the
prefix \<open>qrvmc_create_\<close>. For every file name that the loader accepts no access is outside the
buffers, whatever they hold before.\<close>

theorem create_function_name:
  assumes "NUL \<notin> set filename" "length filename < PATH_MAX_LENGTH"
  shows "create_fn_name uninit filename = Some (create_name_rules filename)"
  using assms by (rule create_fn_name_rules)

theorem create_function_name_witness:
  "create_fn_name (\<lambda>_. CHR ''x'') ''/qrl/libexample-interpreter.so.1.0'' =
    Some ''qrvmc_create_example_interpreter''"
  using create_function_name [of "''/qrl/libexample-interpreter.so.1.0''" "\<lambda>_. CHR ''x''"]
  by (simp add: PATH_MAX_LENGTH_def create_name_rules_def base_name_of_def create_prefix_def before_def)

text \<open>C16: Cutting the configuration into tokens inside its copy on the stack computes what the syntax
\<open>path,name=value,name=value\<close> says: the module at the path before the first comma is loaded and the
options are set in order, each with the text after its first equals sign, empty when there is
none, until one fails. A missing configuration and one of 4096 characters or more are refused
before anything is loaded.\<close>

theorem configuration_syntax:
  assumes "NUL \<notin> set text" "create_returns_instance S"
  shows "qrvmc_load_and_configure S (Some text) cell w =
      (if length text < 4096 then load_and_configure_rules S text cell w
       else Some (None, set_out QRVMC_LOADER_INVALID_ARGUMENT cell, set_error
         (''invalid argument: configuration is too long (maximum allowed length is '' @
          decimal 4095 @ '')'') w)) \<and>
    qrvmc_load_and_configure S None cell w =
      Some (None, set_out QRVMC_LOADER_INVALID_ARGUMENT cell,
        set_error ''invalid argument: configuration cannot be null'' w)"
proof (cases "length text < 4096")
  case True
  then show ?thesis
    using load_and_configure_text [OF assms(1) _ assms(2), of cell w]
    by (simp add: PATH_MAX_LENGTH_def qrvmc_load_and_configure_def)
next
  case False
  then show ?thesis
    by (simp add: qrvmc_load_and_configure_def strcpy_sx_def buf_write_def PATH_MAX_LENGTH_def Let_def)
qed

theorem configuration_syntax_witness:
  "qrvmc_load_and_configure one_module (Some ''./vm.so,trace,trace=a=b'') None empty_world =
    load_and_configure_rules one_module ''./vm.so,trace,trace=a=b'' None empty_world \<and>
   config_options ''trace,trace=a=b'' = [(''trace'', []), (''trace'', ''a=b'')]"
  using configuration_syntax [OF _ one_module_creates, of "''./vm.so,trace,trace=a=b''" None empty_world]
  by (simp add: config_options.simps before_def after_def Let_def)



end
