(* ===== verification/VMRuns.thy ===== *)
theory VMRuns
  imports VMSemantics
begin

text \<open>
  Running the example VM on a given code, one instruction at a time: the state is described by the
  gas, the program counter and the items on the stack, so that a run is a chain of rules.
\<close>

definition at :: "int \<Rightarrow> nat \<Rightarrow> qrvmc_uint512be list \<Rightarrow> Memory \<Rightarrow> 'h \<Rightarrow> heap \<Rightarrow> 'h exec_state \<Rightarrow> bool" where
  "at g pc xs m h hp st \<longleftrightarrow>
    ex_gas_left st = g \<and> ex_pc st = pc \<and> stack_ok (ex_stack st) \<and> stack_content (ex_stack st) = xs \<and>
    ex_memory st = m \<and> ex_host st = h \<and> ex_heap st = hp"

lemma at_start: "at (msg_gas msg) 0 [] Memory_new h hp (execute_start msg h hp)"
  using vm_stack.new_invar vm_stack.new_content by (simp add: at_def execute_start_def)

lemma pop_at:
  assumes "at g pc (x # xs) m h hp st"
  shows "\<exists>st'. (\<forall>k. pop_then st k = k x st') \<and> at g pc xs m h hp st'"
proof -
  from assms have "stack_ok (ex_stack st)" "stack_content (ex_stack st) = x # xs"
    by (simp_all add: at_def)
  then obtain s where "Stack_pop (ex_stack st) = Some (x, s)" "stack_content s = xs" "stack_ok s"
    by (rule vm_stack.pop_Cons)
  then show ?thesis
    using assms by (intro exI [of _ "st\<lparr>ex_stack := s\<rparr>"]) (simp add: pop_then_def at_def)
qed

lemma push_at:
  assumes "at g pc xs m h hp st" "length xs < 1024"
  shows "\<exists>st'. (\<forall>k. push_then v st k = k st') \<and> at g pc (v # xs) m h hp st'"
proof -
  from assms have "stack_ok (ex_stack st)" "length (stack_content (ex_stack st)) < stack_limit"
    by (simp_all add: at_def stack_limit_def)
  then obtain s where "Stack_push v (ex_stack st) = Some s" "stack_content s = v # stack_content (ex_stack st)"
    "stack_ok s"
    by (rule vm_stack.push_room)
  then show ?thesis
    using assms by (intro exI [of _ "st\<lparr>ex_stack := s\<rparr>"]) (simp add: push_then_def at_def)
qed

text \<open>\<open>reach\<close>: the loop goes on from the first state as from the second, which is described.\<close>

definition reach ::
    "'h host_methods \<Rightarrow> release_table \<Rightarrow> view qrvmc_message \<Rightarrow> u8 list \<Rightarrow> 'h exec_state \<Rightarrow>
      int \<Rightarrow> nat \<Rightarrow> qrvmc_uint512be list \<Rightarrow> Memory \<Rightarrow> 'h \<Rightarrow> heap \<Rightarrow> bool" where
  "reach host other msg code st0 g pc xs m h hp \<longleftrightarrow>
    (\<exists>st. execute_loop host other msg code st0 = execute_loop host other msg code st \<and> at g pc xs m h hp st)"

lemma reach_start:
  "reach host other msg code (execute_start msg h hp) (msg_gas msg) 0 [] Memory_new h hp"
  unfolding reach_def by (rule exI [of _ "execute_start msg h hp"]) (simp add: at_start)

lemma reach_step:
  assumes "reach host other msg code st0 g pc xs m h hp" "0 < g" "pc < length code"
    and "\<And>st. at (g - 1) pc xs m h hp st \<Longrightarrow>
      \<exists>st'. execute_instruction host other msg code st = Next st' \<and> at g' pc' xs' m' h' hp' st'"
  shows "reach host other msg code st0 g' (pc' + 1) xs' m' h' hp'"
proof -
  obtain st where st: "execute_loop host other msg code st0 = execute_loop host other msg code st"
    "at g pc xs m h hp st"
    using assms(1) by (auto simp: reach_def)
  then have "at (g - 1) pc xs m h hp (st\<lparr>ex_gas_left := ex_gas_left st - 1\<rparr>)"
    by (simp add: at_def)
  from assms(4) [OF this] obtain st' where st':
    "execute_instruction host other msg code (st\<lparr>ex_gas_left := ex_gas_left st - 1\<rparr>) = Next st'"
    "at g' pc' xs' m' h' hp' st'" by blast
  have "execute_loop host other msg code st = execute_loop host other msg code (st'\<lparr>ex_pc := ex_pc st' + 1\<rparr>)"
    using st(2) st'(1) assms(2,3)
    by (simp add: execute_loop.simps [of host other msg code st] Let_def at_def)
  moreover have "at g' (pc' + 1) xs' m' h' hp' (st'\<lparr>ex_pc := ex_pc st' + 1\<rparr>)"
    using st'(2) by (simp add: at_def)
  ultimately show ?thesis
    using st(1) by (auto simp: reach_def)
qed

lemmas opcode_defs = OP_STOP_def OP_ADD_def OP_ADDRESS_def OP_CALLDATALOAD_def
  OP_NUMBER_def OP_MSTORE_def OP_SLOAD_def OP_SSTORE_def OP_MSIZE_def OP_PUSH1_def OP_PUSH64_def
  OP_DUP1_def OP_CALL_def OP_RETURN_def OP_REVERT_def

lemma instruction_cases:
  "code ! ex_pc st = 0x30 \<Longrightarrow> execute_instruction host other msg code st = op_address msg st"
  "code ! ex_pc st = 0x43 \<Longrightarrow> execute_instruction host other msg code st = op_number host st"
  "code ! ex_pc st = 0x52 \<Longrightarrow> execute_instruction host other msg code st = op_mstore st"
  "code ! ex_pc st = 0x54 \<Longrightarrow> execute_instruction host other msg code st = op_sload host msg st"
  "code ! ex_pc st = 0x55 \<Longrightarrow> execute_instruction host other msg code st = op_sstore host msg st"
  "code ! ex_pc st = 0x59 \<Longrightarrow> execute_instruction host other msg code st = op_msize st"
  "code ! ex_pc st = 0x60 \<Longrightarrow> execute_instruction host other msg code st = op_push code st"
  "code ! ex_pc st = 0xf3 \<Longrightarrow> execute_instruction host other msg code st = op_return QRVMC_SUCCESS st"
  by (simp_all add: execute_instruction_def opcode_defs)

lemma reach_number:
  assumes "reach host other msg code st0 g pc xs m h hp" "0 < g" "pc < length code"
    "code ! pc = 0x43" "length xs < 1024" "hi_get_tx_context host h = Some (tx, h')"
  shows "reach host other msg code st0 (g - 1) (pc + 1)
    (to_uint512 (word_of_int (block_number tx)) # xs) m h' hp"
proof (rule reach_step [OF assms(1-3)])
  fix st :: "'a exec_state"
  assume st: "at (g - 1) pc xs m h hp st"
  then have "at (g - 1) pc xs m h' hp (st\<lparr>ex_host := h'\<rparr>)"
    by (simp add: at_def)
  from push_at [OF this assms(5)] obtain st' where "\<forall>k. push_then (to_uint512 (word_of_int (block_number tx))) (st\<lparr>ex_host := h'\<rparr>) k = k st'"
    "at (g - 1) pc (to_uint512 (word_of_int (block_number tx)) # xs) m h' hp st'"
    by blast
  then show "\<exists>st'. execute_instruction host other msg code st = Next st' \<and>
      at (g - 1) pc (to_uint512 (word_of_int (block_number tx)) # xs) m h' hp st'"
    using st assms(4,6) by (simp add: at_def instruction_cases op_number_def)
qed

lemma reach_push1:
  assumes "reach host other msg code st0 g pc xs m h hp" "0 < g" "pc < length code"
    "code ! pc = 0x60" "length xs < 1024"
  shows "reach host other msg code st0 (g - 1) (pc + 1 + 1) (push_value code pc 1 # xs) m h hp"
proof (rule reach_step [OF assms(1-3)])
  fix st :: "'a exec_state"
  assume st: "at (g - 1) pc xs m h hp st"
  then have "at (g - 1) (pc + 1) xs m h hp (st\<lparr>ex_pc := pc + 1\<rparr>)"
    by (simp add: at_def)
  from push_at [OF this assms(5)] obtain st' where "\<forall>k. push_then (push_value code pc 1) (st\<lparr>ex_pc := pc + 1\<rparr>) k = k st'"
    "at (g - 1) (pc + 1) (push_value code pc 1 # xs) m h hp st'"
    by blast
  then show "\<exists>st'. execute_instruction host other msg code st = Next st' \<and>
      at (g - 1) (pc + 1) (push_value code pc 1 # xs) m h hp st'"
    using st assms(4) by (simp add: at_def instruction_cases op_push_def opcode_defs Let_def)
qed

lemma reach_sstore:
  assumes "reach host other msg code st0 g pc (k # v # xs) m h hp" "0 < g" "pc < length code"
    "code ! pc = 0x55" "\<not> is_static msg" "hi_set_storage host (msg_recipient msg) k v h = Some (s, h')"
  shows "reach host other msg code st0 (g - 1) (pc + 1) xs m h' hp"
proof (rule reach_step [OF assms(1-3)])
  fix st :: "'a exec_state"
  assume st: "at (g - 1) pc (k # v # xs) m h hp st"
  obtain st1 where st1: "\<forall>f. pop_then st f = f k st1" "at (g - 1) pc (v # xs) m h hp st1"
    using pop_at [OF st] by blast
  obtain st2 where st2: "\<forall>f. pop_then st1 f = f v st2" "at (g - 1) pc xs m h hp st2"
    using pop_at [OF st1(2)] by blast
  then show "\<exists>st'. execute_instruction host other msg code st = Next st' \<and> at (g - 1) pc xs m h' hp st'"
    using st assms(4-6) st1(1)
    by (intro exI [of _ "st2\<lparr>ex_host := h'\<rparr>"]) (simp add: at_def instruction_cases op_sstore_def)
qed

lemma reach_sload:
  assumes "reach host other msg code st0 g pc (k # xs) m h hp" "0 < g" "pc < length code"
    "code ! pc = 0x54" "length xs < 1024" "hi_get_storage host (msg_recipient msg) k h = Some (v, h')"
  shows "reach host other msg code st0 (g - 1) (pc + 1) (v # xs) m h' hp"
proof (rule reach_step [OF assms(1-3)])
  fix st :: "'a exec_state"
  assume st: "at (g - 1) pc (k # xs) m h hp st"
  obtain st1 where st1: "\<forall>f. pop_then st f = f k st1" "at (g - 1) pc xs m h hp st1"
    using pop_at [OF st] by blast
  then have "at (g - 1) pc xs m h' hp (st1\<lparr>ex_host := h'\<rparr>)"
    by (simp add: at_def)
  from push_at [OF this assms(5)] obtain st2 where "\<forall>f. push_then v (st1\<lparr>ex_host := h'\<rparr>) f = f st2" "at (g - 1) pc (v # xs) m h' hp st2"
    by blast
  then show "\<exists>st'. execute_instruction host other msg code st = Next st' \<and> at (g - 1) pc (v # xs) m h' hp st'"
    using st assms(4,6) st1 by (simp add: at_def instruction_cases op_sload_def)
qed

lemma reach_mstore:
  assumes "reach host other msg code st0 g pc (i # v # xs) m h hp" "0 < g" "pc < length code"
    "code ! pc = 0x52" "Memory_store (to_uint32 i) (Some (bytes64_bytes v)) 64 m = Some (True, m')"
  shows "reach host other msg code st0 (g - 1) (pc + 1) xs m' h hp"
proof (rule reach_step [OF assms(1-3)])
  fix st :: "'a exec_state"
  assume st: "at (g - 1) pc (i # v # xs) m h hp st"
  obtain st1 where st1: "\<forall>f. pop_then st f = f i st1" "at (g - 1) pc (v # xs) m h hp st1"
    using pop_at [OF st] by blast
  obtain st2 where st2: "\<forall>f. pop_then st1 f = f v st2" "at (g - 1) pc xs m h hp st2"
    using pop_at [OF st1(2)] by blast
  then show "\<exists>st'. execute_instruction host other msg code st = Next st' \<and> at (g - 1) pc xs m' h hp st'"
    using st assms(4,5) st1(1)
    by (intro exI [of _ "st2\<lparr>ex_memory := m'\<rparr>"]) (simp add: at_def instruction_cases op_mstore_def)
qed

lemma reach_msize:
  assumes "reach host other msg code st0 g pc xs m h hp" "0 < g" "pc < length code"
    "code ! pc = 0x59" "length xs < 1024"
  shows "reach host other msg code st0 (g - 1) (pc + 1) (to_uint512 (mem_size m) # xs) m h hp"
proof (rule reach_step [OF assms(1-3)])
  fix st :: "'a exec_state"
  assume st: "at (g - 1) pc xs m h hp st"
  from push_at [OF this assms(5)] obtain st' where "\<forall>f. push_then (to_uint512 (mem_size m)) st f = f st'"
    "at (g - 1) pc (to_uint512 (mem_size m) # xs) m h hp st'"
    by blast
  then show "\<exists>st'. execute_instruction host other msg code st = Next st' \<and>
      at (g - 1) pc (to_uint512 (mem_size m) # xs) m h hp st'"
    using st assms(4) by (simp add: at_def instruction_cases op_msize_def)
qed

lemma reach_address:
  assumes "reach host other msg code st0 g pc xs m h hp" "0 < g" "pc < length code"
    "code ! pc = 0x30" "length xs < 1024"
  shows "reach host other msg code st0 (g - 1) (pc + 1) (to_uint512_address (msg_recipient msg) # xs) m h hp"
proof (rule reach_step [OF assms(1-3)])
  fix st :: "'a exec_state"
  assume st: "at (g - 1) pc xs m h hp st"
  from push_at [OF this assms(5)] obtain st' where "\<forall>f. push_then (to_uint512_address (msg_recipient msg)) st f = f st'"
    "at (g - 1) pc (to_uint512_address (msg_recipient msg) # xs) m h hp st'"
    by blast
  then show "\<exists>st'. execute_instruction host other msg code st = Next st' \<and>
      at (g - 1) pc (to_uint512_address (msg_recipient msg) # xs) m h hp st'"
    using st assms(4) by (simp add: at_def instruction_cases op_address_def)
qed

lemma reach_return:
  assumes "reach host other msg code st0 g pc (off # n # xs) m h hp" "0 < g" "pc < length code"
    "code ! pc = 0xf3" "Memory_expand (to_uint32 off) (to_uint32 n) m = Some (p, m')"
    "qrvmc_make_result QRVMC_SUCCESS (g - 1) 0 (Some (drop p (mem_data m'))) (unat (to_uint32 n)) hp = Some (r, hp')"
  shows "execute_loop host other msg code st0 = Done r h hp'"
proof -
  obtain st where st: "execute_loop host other msg code st0 = execute_loop host other msg code st"
    "at g pc (off # n # xs) m h hp st"
    using assms(1) by (auto simp: reach_def)
  let ?st = "st\<lparr>ex_gas_left := ex_gas_left st - 1\<rparr>"
  have at: "at (g - 1) pc (off # n # xs) m h hp ?st"
    using st(2) by (simp add: at_def)
  obtain st1 where st1: "\<forall>f. pop_then ?st f = f off st1" "at (g - 1) pc (n # xs) m h hp st1"
    using pop_at [OF at] by blast
  obtain st2 where st2: "\<forall>f. pop_then st1 f = f n st2" "at (g - 1) pc xs m h hp st2"
    using pop_at [OF st1(2)] by blast
  have "execute_instruction host other msg code ?st = Done r h hp'"
    using assms(4-6) at st1(1) st2
    by (simp add: instruction_cases op_return_def finish_def at_def)
  then show ?thesis
    using st assms(2,3)
    by (simp add: execute_loop.simps [of host other msg code st] Let_def at_def)
qed

text \<open>A program that does not run out of gas goes on from its start.\<close>

lemma execute_from_start:
  "0 \<le> msg_gas msg \<Longrightarrow>
    execute host other msg code h hp = execute_loop host other msg code (execute_start msg h hp)"
  by (simp add: execute_def execute_start_def Let_def)

lemma push_value_zero: "pc + 1 < length code \<Longrightarrow> code ! (pc + 1) = 0 \<Longrightarrow> push_value code pc 1 = bytes64_zero"
proof -
  assume code: "pc + 1 < length code" "code ! (pc + 1) = 0"
  then have "take 1 (drop (pc + 1) code) = [0]"
    by (simp add: take_Suc_conv_app_nth)
  moreover have "blit (replicate 64 (0 :: u8)) 63 [0] = replicate 64 0"
    by (simp add: list_eq_iff_nth_eq nth_blit)
  ultimately show ?thesis
    using code by (simp add: push_value_def bytes64_zero.rep_eq min_def flip: bytes64_bytes_inject)
qed

lemma to_uint32_zero: "to_uint32 bytes64_zero = 0"
  by (simp add: to_uint32_def bytes64_zero.rep_eq)

lemma to_uint32_to_uint512: "to_uint32 (to_uint512 x) = x"
proof -
  have "unat (to_uint32 (to_uint512 x)) = unat x"
  proof -
    have "unat x < 2 ^ 32"
      using unsigned_less [of x] by simp
    then show ?thesis by (simp add: unat_to_uint32 be_val_to_uint512)
  qed
  then show ?thesis by (simp add: word_unat_eq_iff)
qed

end
