(* ===== verification/ExampleProgram.thy ===== *)
theory ExampleProgram
  imports ExampleInstance ExampleHost Loader VMRuns
begin

text \<open>
  The program \<open>examples/example.c\<close>: it gets a VM, from the loader or from the create function of the
  example VM linked into it, executes a fixed code on the example host, and prints the outcome. What
  it prints after the heading is returned as a record, the exit code as a number.
\<close>

subsection \<open>The program\<close>

definition example_code :: "u8 list" where
  "example_code = [0x43, 0x60, 0x00, 0x55, 0x43, 0x60, 0x00, 0x52, 0x59, 0x60, 0x00, 0xf3]"

definition example_input :: "u8 list" where
  "example_input = map of_char ''Hello World!''"

definition example_addr :: qrvmc_address where
  "example_addr = address_of_bytes ([0, 1, 2] @ replicate 61 0)"

definition example_gas :: int where
  "example_gas = 200000"

definition example_tx_context :: qrvmc_tx_context where
  "example_tx_context = tx_context_zero
    \<lparr>block_number := 42, block_timestamp := 66, block_gas_limit := example_gas * 2\<rparr>"

definition example_message :: "view qrvmc_message" where
  "example_message = (message_zero (Some example_input))
    \<lparr>msg_kind := QRVMC_CALL, msg_sender := example_addr, msg_recipient := example_addr,
     msg_value := bytes64_of_bytes ((bytes64_bytes bytes64_zero)[63 := 1]),
     msg_input_size := length example_input, msg_gas := example_gas, msg_depth := 0\<rparr>"

record example_report =
  rep_gas_used :: int
  rep_gas_left :: int
  rep_output :: "u8 list"
  rep_storage :: qrvmc_bytes64

text \<open>
  From the point where the program has a VM. \<open>context_allocated\<close> says whether the host context could
  be allocated; the report is \<open>None\<close> when the execution was no success.
\<close>

definition example_session ::
    "release_table \<Rightarrow> nat \<Rightarrow> bool \<Rightarrow> ('s, ExampleHost) vm_instances \<Rightarrow> heap \<Rightarrow>
      (int \<times> example_report option \<times> ('s, ExampleHost) vm_instances \<times> heap) option" where
  "example_session other vm context_allocated w hp =
    (let host = example_host_get_interface in
     case example_host_create_context context_allocated example_tx_context of
       None \<Rightarrow> do { w \<leftarrow> qrvmc_destroy vm w; Some (status_code_value QRVMC_OUT_OF_MEMORY, None, w, hp) }
     | Some ctx \<Rightarrow>
         do {
           (result, w, ctx, hp) \<leftarrow>
             qrvmc_execute vm (Some host) QRVMC_ZOND example_message example_code w ctx hp;
           (exit_code, report) \<leftarrow>
             (if status_code result \<noteq> QRVMC_SUCCESS
              then Some (status_code_value (status_code result), None)
              else do {
                output \<leftarrow> (if output_size result = 0 then Some [] else heap_read (output_data result) hp);
                _ \<leftarrow> (if output_size result \<le> length output then Some () else None);
                (storage_value, _) \<leftarrow> hi_get_storage host (msg_recipient example_message) bytes64_zero ctx;
                Some (0, Some \<lparr>rep_gas_used = example_gas - gas_left result, rep_gas_left = gas_left result,
                  rep_output = take (output_size result) output, rep_storage = storage_value\<rparr>)
              });
           hp \<leftarrow> qrvmc_release_result other result hp;
           w \<leftarrow> qrvmc_destroy vm w;
           Some (exit_code, report, w, hp)
         })"

text \<open>The two variants of \<open>main\<close>, statically linked and loading a module.\<close>

definition example_main_static ::
    "release_table \<Rightarrow> string \<Rightarrow> nat option \<Rightarrow> bool \<Rightarrow> (ExampleVM, ExampleHost) vm_instances \<Rightarrow> heap \<Rightarrow>
      (int \<times> example_report option \<times> (ExampleVM, ExampleHost) vm_instances \<times> heap) option" where
  "example_main_static other project_version address context_allocated w hp =
    (case qrvmc_create_example_vm other project_version address w of
       (None, w) \<Rightarrow> Some (loader_error_value QRVMC_LOADER_VM_CREATION_FAILURE, None, w, hp)
     | (Some vm, w) \<Rightarrow>
         do {
           compatible \<leftarrow> qrvmc_is_abi_compatible vm w;
           if \<not> compatible then
             do {
               w \<leftarrow> qrvmc_destroy vm w;
               Some (loader_error_value QRVMC_LOADER_ABI_VERSION_MISMATCH, None, w, hp)
             }
           else example_session other vm context_allocated w hp
         })"

definition example_main ::
    "release_table \<Rightarrow> ('s, ExampleHost, 'e, 'f) dll_system \<Rightarrow> string list \<Rightarrow> bool \<Rightarrow>
      ('s, ExampleHost, 'e) loader_world \<Rightarrow> heap \<Rightarrow>
      (int \<times> example_report option \<times> ('s, ExampleHost) vm_instances \<times> heap) option" where
  "example_main other S argv context_allocated w hp =
    (let config_string = (if length argv > 1 then argv ! 1 else ''example-vm.so'') in
     do {
       (vm, error_code, w) \<leftarrow>
         qrvmc_load_and_configure S (Some config_string) (Some QRVMC_LOADER_UNSPECIFIED_ERROR) w;
       (case vm of
          None \<Rightarrow> do { ec \<leftarrow> error_code; Some (loader_error_value ec, None, ld_vms w, hp) }
        | Some p \<Rightarrow> example_session other p context_allocated (ld_vms w) hp)
     })"

subsection \<open>The code\<close>

text \<open>
  The code stores the block number under the key zero and returns it: \<open>NUMBER\<close>, \<open>PUSH1 0\<close>, \<open>SSTORE\<close>,
  \<open>NUMBER\<close>, \<open>PUSH1 0\<close>, \<open>MSTORE\<close>, \<open>MSIZE\<close>, \<open>PUSH1 0\<close>, \<open>RETURN\<close>.
\<close>

lemma example_code_nth [simp]:
  "length example_code = 12" "example_code \<noteq> []" "example_code ! 0 = 0x43" "example_code ! 1 = 0x60" "example_code ! Suc 0 = 0x60" "example_code ! 2 = 0"
  "example_code ! 3 = 0x55" "example_code ! 4 = 0x43" "example_code ! 5 = 0x60" "example_code ! 6 = 0"
  "example_code ! 7 = 0x52" "example_code ! 8 = 0x59" "example_code ! 9 = 0x60" "example_code ! 10 = 0"
  "example_code ! 11 = 0xf3"
  by (simp_all add: example_code_def)

lemma store_word:
  "Memory_store (to_uint32 bytes64_zero) (Some (bytes64_bytes v)) 64 Memory_new =
    Some (True, \<lparr>mem_size = 64, mem_data = bytes64_bytes v @ replicate 960 0\<rparr>)"
  by (simp add: to_uint32_zero Memory_store_def Memory_expand_def Memory_new_def memory_limit_def
      blit_def Let_def)

lemma example_run:
  fixes h :: ExampleHost
  defines "v \<equiv> to_uint512 (word_of_int (block_number (xh_tx_context h)))"
  assumes "9 \<le> msg_gas msg" "\<not> is_static msg" "\<not> heap_fails hp (heap_next hp)"
  shows "\<exists>r hp'. execute example_host_get_interface other msg example_code h hp =
      Done r (snd (example_set_storage (msg_recipient msg) bytes64_zero v h)) hp' \<and>
    status_code r = QRVMC_SUCCESS \<and> gas_left r = msg_gas msg - 9 \<and> output_size r = 64 \<and>
    heap_read (output_data r) hp' = Some (bytes64_bytes v)"
proof -
  let ?H = example_host_get_interface
  let ?m = "\<lparr>mem_size = 64, mem_data = bytes64_bytes v @ replicate 960 0\<rparr>"
  obtain s h1 where set: "example_set_storage (msg_recipient msg) bytes64_zero v h = (s, h1)" by fastforce
  have tx: "xh_tx_context h1 = xh_tx_context h"
    using set by (auto simp: example_set_storage_def Let_def)
  have get: "hi_get_tx_context ?H h = Some (xh_tx_context h, h)" for h
    by (simp add: example_host_get_interface_def Host_get_interface_def ExampleHost_methods_def)
  have set': "hi_set_storage ?H (msg_recipient msg) bytes64_zero v h = Some (s, h1)"
    using set by (simp add: example_host_get_interface_def Host_get_interface_def ExampleHost_methods_def)
  have zero: "push_value example_code 1 1 = bytes64_zero" "push_value example_code 5 1 = bytes64_zero"
    "push_value example_code 9 1 = bytes64_zero"
    by (rule push_value_zero; simp add: example_code_def)+
  let ?at = "\<lambda>n. reach ?H other msg example_code (execute_start msg h hp) (msg_gas msg - n)"
  have 1: "?at 1 1 [v] Memory_new h hp"
    using reach_number [OF reach_start _ _ _ _ get] assms(2) by (simp add: v_def)
  have 2: "?at 2 3 [bytes64_zero, v] Memory_new h hp"
    using reach_push1 [OF 1] assms(2) by (simp add: zero [simplified] numeral_3_eq_3)
  have 3: "?at 3 4 [] Memory_new h1 hp"
    using reach_sstore [OF 2 _ _ _ assms(3) set'] assms(2) by simp
  have 4: "?at 4 5 [v] Memory_new h1 hp"
    using reach_number [OF 3 _ _ _ _ get] assms(2) by (simp add: v_def tx)
  have 5: "?at 5 7 [bytes64_zero, v] Memory_new h1 hp"
    using reach_push1 [OF 4] assms(2) by (simp add: zero [simplified] numeral_3_eq_3)
  have 6: "?at 6 8 [] ?m h1 hp"
    using reach_mstore [OF 5 _ _ _ store_word] assms(2) by simp
  have 7: "?at 7 9 [to_uint512 64] ?m h1 hp"
    using reach_msize [OF 6] assms(2) by simp
  have 8: "?at 8 11 [bytes64_zero, to_uint512 64] ?m h1 hp"
    using reach_push1 [OF 7] assms(2) by (simp add: zero [simplified] numeral_3_eq_3)
  have "view_covers (Some (bytes64_bytes v @ replicate 960 0)) 64" by simp
  then obtain r hp' where make: "qrvmc_make_result QRVMC_SUCCESS (msg_gas msg - 9) 0
      (Some (bytes64_bytes v @ replicate 960 0)) 64 hp = Some (r, hp')"
    by (rule make_result_returns)
  have "Memory_expand (to_uint32 bytes64_zero) (to_uint32 (to_uint512 64)) ?m = Some (0, ?m)"
    by (simp add: to_uint32_zero to_uint32_to_uint512 Memory_expand_def memory_limit_def)
  from reach_return [OF 8 _ _ _ this, of r hp'] make
  have "execute_loop ?H other msg example_code (execute_start msg h hp) = Done r h1 hp'"
    using assms(2) by (simp add: to_uint32_to_uint512)
  moreover have "status_code r = QRVMC_SUCCESS \<and> gas_left r = msg_gas msg - 9 \<and> output_size r = 64 \<and>
      heap_read (output_data r) hp' = Some (bytes64_bytes v)"
    using make assms(4)
    by (auto simp: qrvmc_make_result_def malloc_def heap_write_def heap_read_def Let_def)
  ultimately show ?thesis
    using assms(2) set by (auto simp: execute_from_start)
qed

text \<open>With a VM at \<open>p\<close>, where there was none before: the checks pass, and destroying it undoes it.\<close>

lemma example_main_created:
  assumes "w p = None"
  shows "example_main_static other version (Some p) c w hp =
      example_session other p c (w(p \<mapsto> (ExampleVM_methods other version, ExampleVM_new))) hp"
    "qrvmc_destroy p (w(p \<mapsto> (ExampleVM_methods other version, ExampleVM_new))) = Some w"
  using assms
  by (simp_all add: example_main_static_def qrvmc_create_example_vm_def qrvmc_is_abi_compatible_def
      ExampleVM_methods_def ExampleVM_destroy_def qrvmc_destroy_def fun_upd_idem)

lemma example_main_reports:
  fixes w :: "(ExampleVM, ExampleHost) vm_instances"
  assumes "heap_ok hp" "\<not> heap_fails hp (heap_next hp)" "w p = None"
  shows "\<exists>v hp'. example_main_static other version (Some p) True w hp =
      Some (0, Some \<lparr>rep_gas_used = 9, rep_gas_left = 199991, rep_output = bytes64_bytes v, rep_storage = v\<rparr>,
        w, hp') \<and> be_val (bytes64_bytes v) = 42 \<and> heap_blocks hp' = heap_blocks hp"
proof -
  let ?w = "w(p \<mapsto> (ExampleVM_methods other version, ExampleVM_new))"
  let ?h = "ExampleHost_with_context example_tx_context"
  define v where "v = to_uint512 (word_of_int (block_number (xh_tx_context ?h)))"
  have msg: "msg_gas example_message = 200000" "\<not> is_static example_message" "message_ok example_message"
    by (simp_all add: example_message_def example_gas_def message_zero_def is_static_def
        message_ok_def int32_ok_def int64_ok_def)
  obtain r hp1 where run: "execute example_host_get_interface other example_message example_code ?h hp =
      Done r (snd (example_set_storage (msg_recipient example_message) bytes64_zero v ?h)) hp1"
    "status_code r = QRVMC_SUCCESS" "gas_left r = 200000 - 9" "output_size r = 64"
    "heap_read (output_data r) hp1 = Some (bytes64_bytes v)"
    using example_run [of example_message hp other ?h] msg(1,2) assms(2) unfolding v_def by auto
  obtain hp2 where release: "qrvmc_release_result other r hp1 = Some hp2" "heap_blocks hp2 = heap_blocks hp"
    using execute_released [OF example_host_contract TrueI assms(1) msg(3), where h = ?h and other = other
      and code = example_code] run(1)
    by auto
  let ?h1 = "snd (example_set_storage (msg_recipient example_message) bytes64_zero v ?h)"
  have exec: "qrvmc_execute p (Some example_host_get_interface) QRVMC_ZOND example_message example_code ?w ?h hp =
      Some (r, ?w, ?h1, hp1)"
    using run(1) by (simp add: qrvmc_execute_def ExampleVM_methods_def ExampleVM_execute_def)
  have storage: "hi_get_storage example_host_get_interface (msg_recipient example_message) bytes64_zero ?h1 =
      Some (v, ?h1)"
    using set_storage_reads [of "msg_recipient example_message" bytes64_zero
        "msg_recipient example_message" bytes64_zero v ?h]
    by (simp add: example_host_get_interface_def ExampleHost_methods_def)
  have "example_session other p True ?w hp =
      Some (0, Some \<lparr>rep_gas_used = 9, rep_gas_left = 199991, rep_output = bytes64_bytes v, rep_storage = v\<rparr>,
        w, hp2)"
    by (simp add: example_session_def example_host_create_context_def exec run(2-5) storage release(1)
        example_main_created(2) [where w = w and p = p, OF assms(3)] example_gas_def Let_def)
  moreover have "be_val (bytes64_bytes v) = 42"
    by (simp add: v_def be_val_to_uint512 ExampleHost_with_context_def example_tx_context_def)
  ultimately show ?thesis
    using release(2) example_main_created(1) [where w = w and p = p, OF assms(3), of other version True hp]
    by auto
qed

subsection \<open>Properties\<close>



end
