(* ===== verification/Run.thy ===== *)
theory Run
  imports ExampleInstance Precompiles VMRuns
begin

text \<open>
  The tool that executes code on the mocked host, \<open>lib/tooling/run.cpp\<close>: the function \<open>run\<close> with its
  benchmark, what it writes to the output stream included.

  The clock is a parameter: the number of iterations that fit the target time, and the text of the
  average. What the function needs of the VM is stated by the locale \<open>runnable_vm\<close>, for which both
  VMs of the repository are interpretations.
\<close>

subsection \<open>Results\<close>

definition create_address :: "qrvmc_address option" where
  "create_address = address_literal
    ''Q00000000000000000000000000000000000000000000000000000000c9ea7ed000000000000000000000000000000001''"

definition create_gas :: int where
  "create_gas = 10000000"

text \<open>The bytes of the output; reading bytes that are not there is undefined, \<open>None\<close>.\<close>

definition output_view :: "heap_ptr qrvmc_result \<Rightarrow> heap \<Rightarrow> u8 list option" where
  "output_view result hp =
    (if output_size result = 0 then Some []
     else case heap_read (output_data result) hp of
       None \<Rightarrow> None
     | Some bs \<Rightarrow> if output_size result \<le> length bs then Some (take (output_size result) bs) else None)"

definition newline :: string where
  "newline = [CHR 0x0A]"

text \<open>The VM instances, the host and the heap, which executions change.\<close>

type_synonym 's run_state = "('s, mocked_host) vm_instances \<times> mocked_host \<times> heap"

definition run_execute ::
    "nat option \<Rightarrow> qrvmc_revision \<Rightarrow> view qrvmc_message \<Rightarrow> u8 list \<Rightarrow> 's run_state \<Rightarrow>
      (heap_ptr qrvmc_result \<times> 's run_state) option" where
  "run_execute vm revision msg code st =
    (case st of (w, h, hp) \<Rightarrow>
       map_option (\<lambda>(r, w, h, hp). (r, (w, h, hp)))
         (VM_execute_Host vm mocked_methods revision msg code w h hp))"

text \<open>The end of the scope of a result.\<close>

definition end_result :: "release_table \<Rightarrow> heap_ptr qrvmc_result \<Rightarrow> 's run_state \<Rightarrow> 's run_state option" where
  "end_result other r st =
    (case st of (w, h, hp) \<Rightarrow>
       map_option (\<lambda>(_, hp). (w, h, hp)) (Result_release_resources other r hp))"

subsection \<open>The benchmark\<close>

record timing =
  num_iterations :: nat
  bench_time :: string

primrec bench_loop ::
    "release_table \<Rightarrow> nat option \<Rightarrow> qrvmc_revision \<Rightarrow> view qrvmc_message \<Rightarrow> u8 list \<Rightarrow> nat \<Rightarrow>
      's run_state \<Rightarrow> 's run_state option" where
  "bench_loop other vm revision msg code 0 st = Some st"
| "bench_loop other vm revision msg code (Suc n) st =
    (case run_execute vm revision msg code st of
       None \<Rightarrow> None
     | Some (r, st) \<Rightarrow>
         (case end_result other r st of
            None \<Rightarrow> None
          | Some st \<Rightarrow> bench_loop other vm revision msg code n st))"

definition bench_warning :: string where
  "bench_warning = ''WARNING! Inconsistent execution result likely due to the use of storage ''"

definition bench ::
    "release_table \<Rightarrow> timing \<Rightarrow> nat option \<Rightarrow> qrvmc_revision \<Rightarrow> view qrvmc_message \<Rightarrow> u8 list \<Rightarrow>
      heap_ptr qrvmc_result \<Rightarrow> 's run_state \<Rightarrow> (string \<times> 's run_state) option" where
  "bench other clock vm revision msg code expected_result st =
    (case run_execute vm revision msg code st of
       None \<Rightarrow> None
     | Some (result, st) \<Rightarrow>
         (case (output_view result (snd (snd st)), output_view expected_result (snd (snd st))) of
            (Some result_output, Some expected_output) \<Rightarrow>
              (let gas_text = (if gas_left result \<noteq> gas_left expected_result
                   then bench_warning @ ''(gas used: '' @ decimal (msg_gas msg - gas_left result) @ '')'' @ newline
                   else []);
                 output_text = (if result_output \<noteq> expected_output
                   then bench_warning @ ''(output: '' @ hex result_output @ '')'' @ newline else []);
                 iterations = max (num_iterations clock) 1
               in case bench_loop other vm revision msg code iterations st of
                    None \<Rightarrow> None
                  | Some st \<Rightarrow>
                      (case end_result other result st of
                         None \<Rightarrow> None
                       | Some st \<Rightarrow>
                           Some (gas_text @ output_text @ ''Time:     '' @ bench_time clock @ '' ns (avg of '' @
                             decimal (int iterations) @ '' iterations)'' @ newline, st)))
          | _ \<Rightarrow> None))"

subsection \<open>Running\<close>

text \<open>From the execution of the code with the message to the end: exit code and text.\<close>

definition run_code ::
    "release_table \<Rightarrow> timing \<Rightarrow> bool \<Rightarrow> nat option \<Rightarrow> qrvmc_revision \<Rightarrow> view qrvmc_message \<Rightarrow> u8 list \<Rightarrow>
      's run_state \<Rightarrow> (int \<times> string \<times> 's run_state) option" where
  "run_code other clock bench_flag vm revision msg exec_code st =
    (case run_execute vm revision msg exec_code st of
       None \<Rightarrow> None
     | Some (result, st) \<Rightarrow>
         (case (if bench_flag then bench other clock vm revision msg exec_code result st else Some ([], st)) of
            None \<Rightarrow> None
          | Some (bench_text, st) \<Rightarrow>
              (let gas_used = msg_gas msg - gas_left result;
                   out = newline @ bench_text @ ''Result:   '' @
                     qrvmc_status_code_to_string (status_code result) @ newline @ ''Gas used: '' @
                     decimal gas_used @ newline
               in case (if status_code result = QRVMC_SUCCESS \<or> status_code result = QRVMC_REVERT
                        then map_option (\<lambda>bs. ''Output:   '' @ hex bs @ newline)
                          (output_view result (snd (snd st)))
                        else Some []) of
                    None \<Rightarrow> None
                  | Some output_text \<Rightarrow>
                      map_option (\<lambda>st. (0, out @ output_text, st)) (end_result other result st))))"

definition run_message :: "int \<Rightarrow> u8 list \<Rightarrow> view qrvmc_message" where
  "run_message gas input =
    (message_zero (Some input))\<lparr>msg_gas := gas, msg_input_size := length input\<rparr>"

definition create_message :: "qrvmc_address \<Rightarrow> view qrvmc_message" where
  "create_message addr =
    (message_zero None)\<lparr>msg_kind := QRVMC_CREATE, msg_recipient := addr, msg_gas := create_gas\<rparr>"

definition run_heading :: "bool \<Rightarrow> qrvmc_revision \<Rightarrow> int \<Rightarrow> string" where
  "run_heading create revision gas =
    (if create then ''Creating and executing on '' else ''Executing on '') @
      qrvmc_revision_to_string revision @ '' with '' @ decimal gas @ '' gas limit'' @ newline"

definition with_code :: "qrvmc_address \<Rightarrow> u8 list \<Rightarrow> mocked_host \<Rightarrow> mocked_host" where
  "with_code addr code h =
    h\<lparr>mh_accounts := (mh_accounts h)(addr \<mapsto> (account_or_new addr h)\<lparr>acc_code := code\<rparr>)\<rparr>"

definition run ::
    "release_table \<Rightarrow> timing \<Rightarrow> nat \<Rightarrow> nat option \<Rightarrow> qrvmc_revision \<Rightarrow> int \<Rightarrow> u8 list \<Rightarrow> u8 list \<Rightarrow> bool \<Rightarrow>
      bool \<Rightarrow> ('s, mocked_host) vm_instances \<Rightarrow> heap \<Rightarrow> (int \<times> string \<times> 's run_state) option" where
  "run other clock host_id vm revision gas code input create bench_flag w hp =
    (let heading = run_heading create revision gas;
         st = (w, mocked_host_new host_id, hp);
         msg = run_message gas input
     in if create then
          (case create_address of
             None \<Rightarrow> None
           | Some addr \<Rightarrow>
               (case run_execute vm revision (create_message addr) code st of
                  None \<Rightarrow> None
                | Some (create_result, st) \<Rightarrow>
                    if status_code create_result \<noteq> QRVMC_SUCCESS then
                      map_option (\<lambda>st. (status_code_value (status_code create_result),
                          heading @ ''Contract creation failed: '' @
                          qrvmc_status_code_to_string (status_code create_result) @ newline, st))
                        (end_result other create_result st)
                    else
                      (case (st, output_view create_result (snd (snd st))) of
                         ((w, h, hp), Some created_code) \<Rightarrow>
                           (case end_result other create_result (w, with_code addr created_code h, hp) of
                              None \<Rightarrow> None
                            | Some st \<Rightarrow>
                                map_option (\<lambda>(exit_code, out, st). (exit_code, heading @ out, st))
                                  (run_code other clock bench_flag vm revision (msg\<lparr>msg_recipient := addr\<rparr>)
                                    created_code st))
                       | _ \<Rightarrow> None)))
        else map_option (\<lambda>(exit_code, out, st). (exit_code, heading @ out, st))
          (run_code other clock bench_flag vm revision msg code st))"

lemma create_address_exists: "\<exists>addr. create_address = Some addr"
  by (simp add: create_address_def address_literal_def from_prefixed_hex_T_def rejects_0x_def
      decode_into_eq from_hex_digit_chars)

subsection \<open>What the tool needs of a VM\<close>

text \<open>
  An instance \<open>p\<close> of a VM that returns for every message with a readable input, with a result that
  owns its output and nothing else, whatever its own state is.
\<close>

locale runnable_vm =
  fixes vm :: "('s, mocked_host) qrvmc_vm"
    and other :: release_table
  assumes executes: "canned_ok h \<Longrightarrow> heap_ok hp \<Longrightarrow> message_ok msg \<Longrightarrow>
    \<exists>r s' h' hp'. vm_execute vm (Some (Host_get_interface mocked_methods)) revision msg code s h hp =
      Some (r, s', h', hp') \<and> canned_ok h' \<and> owned_result (heap_blocks hp) r hp'"
begin

definition ready :: "('s, mocked_host) vm_instances \<Rightarrow> nat \<Rightarrow> (nat \<Rightarrow> u8 list option) \<Rightarrow> 's run_state \<Rightarrow> bool" where
  "ready base p blocks st \<longleftrightarrow>
    (case st of (w, h, hp) \<Rightarrow>
       (\<exists>s. w = base(p \<mapsto> (vm, s))) \<and> canned_ok h \<and> heap_ok hp \<and> heap_blocks hp = blocks)"

lemma execute_ready:
  assumes "ready base p blocks st" "message_ok msg"
  shows "\<exists>r st'. run_execute (Some p) revision msg code st = Some (r, st') \<and>
    ready base p (heap_blocks (snd (snd st'))) st' \<and> owned_result blocks r (snd (snd st'))"
proof -
  obtain w h hp s where st: "st = (w, h, hp)" "w = base(p \<mapsto> (vm, s))" "canned_ok h" "heap_ok hp"
    "heap_blocks hp = blocks"
    using assms(1) by (cases st) (auto simp: ready_def)
  obtain r s' h' hp' where "vm_execute vm (Some (Host_get_interface mocked_methods)) revision msg code s h hp =
      Some (r, s', h', hp')" "canned_ok h'" "owned_result (heap_blocks hp) r hp'"
    using executes [OF st(3,4) assms(2)] by blast
  then show ?thesis
    using st by (auto simp: run_execute_def VM_execute_Host_def VM_execute_def qrvmc_execute_def ready_def
        owned_result_def)
qed

lemma end_ready:
  assumes "ready base p (heap_blocks hp) (w, h, hp)" "owned_result blocks r hp"
  shows "\<exists>st'. end_result other r (w, h, hp) = Some st' \<and> ready base p blocks st'"
proof -
  obtain hp' where "qrvmc_release_result other r hp = Some hp'" "heap_ok hp'" "heap_blocks hp' = blocks"
    using owned_result_released [OF assms(2)] by blast
  then show ?thesis
    using assms(1)
    by (auto simp: end_result_def Result_release_resources_def qrvmc_release_result_def ready_def
        split: option.splits)
qed

lemma end_ready':
  "ready base p (heap_blocks (snd (snd st))) st \<Longrightarrow> owned_result blocks r (snd (snd st)) \<Longrightarrow>
    \<exists>st'. end_result other r st = Some st' \<and> ready base p blocks st'"
  using end_ready [of base p "snd (snd st)" "fst st" "fst (snd st)" blocks r] by simp

text \<open>A result stays the owner of its output while others are made and released.\<close>

lemma owned_same_blocks:
  "owned_result blocks r hp \<Longrightarrow> heap_ok hp' \<Longrightarrow> heap_blocks hp' = heap_blocks hp \<Longrightarrow> owned_result blocks r hp'"
  by (auto simp: owned_result_def)

lemma bench_loop_ready:
  assumes "ready base p blocks st" "message_ok msg"
  shows "\<exists>st'. bench_loop other (Some p) revision msg code n st = Some st' \<and> ready base p blocks st'"
  using assms(1)
proof (induction n arbitrary: st)
  case (Suc n)
  obtain r st1 where st1: "run_execute (Some p) revision msg code st = Some (r, st1)"
    "ready base p (heap_blocks (snd (snd st1))) st1" "owned_result blocks r (snd (snd st1))"
    using execute_ready [OF Suc.prems assms(2)] by blast
  obtain st2 where "end_result other r st1 = Some st2" "ready base p blocks st2"
    using end_ready' [OF st1(2,3)] by blast
  then show ?case using Suc.IH [of st2] st1(1) by simp
qed simp

lemma output_view_owned: "owned_result blocks r hp \<Longrightarrow> output_view r hp \<noteq> None"
  by (auto simp: owned_result_def output_view_def heap_read_def)

lemma output_view_kept:
  assumes "owned_result blocks r hp" "owned_result (heap_blocks hp) r' hp'"
  shows "output_view r hp' = output_view r hp"
  using assms by (auto simp: owned_result_def output_view_def heap_read_def)

lemma bench_ready:
  assumes "ready base p (heap_blocks (snd (snd st))) st" "message_ok msg"
    "owned_result blocks expected (snd (snd st))"
  shows "\<exists>out st'. bench other clock (Some p) revision msg code expected st = Some (out, st') \<and>
    ready base p (heap_blocks (snd (snd st))) st'"
proof -
  let ?blocks = "heap_blocks (snd (snd st))"
  obtain r st1 where st1: "run_execute (Some p) revision msg code st = Some (r, st1)"
    "ready base p (heap_blocks (snd (snd st1))) st1" "owned_result ?blocks r (snd (snd st1))"
    using execute_ready [OF assms(1,2)] by blast
  obtain bs where bs: "output_view r (snd (snd st1)) = Some bs"
    using output_view_owned [OF st1(3)] by blast
  obtain bs' where bs': "output_view expected (snd (snd st1)) = Some bs'"
    using output_view_kept [OF assms(3) st1(3)] output_view_owned [OF assms(3)] by auto
  obtain st2 where st2: "bench_loop other (Some p) revision msg code (max (num_iterations clock) 1) st1 = Some st2"
    "ready base p (heap_blocks (snd (snd st1))) st2"
    using bench_loop_ready [OF st1(2) assms(2)] by blast
  have same: "heap_ok (snd (snd st2))" "heap_blocks (snd (snd st2)) = heap_blocks (snd (snd st1))"
    using st2(2) by (auto simp: ready_def)
  have "ready base p (heap_blocks (snd (snd st2))) st2"
    using st2(2) same(2) by simp
  from end_ready' [OF this owned_same_blocks [OF st1(3) same]]
  obtain st3 where "end_result other r st2 = Some st3" "ready base p ?blocks st3"
    by blast
  then show ?thesis
    using st1(1) bs bs' st2(1) by (simp add: bench_def Let_def)
qed

lemma run_code_ready:
  assumes "ready base p blocks st" "message_ok msg"
  shows "\<exists>out st'. run_code other clock b (Some p) revision msg code st = Some (0, out, st') \<and>
    ready base p blocks st'"
proof -
  obtain r st1 where st1: "run_execute (Some p) revision msg code st = Some (r, st1)"
    "ready base p (heap_blocks (snd (snd st1))) st1" "owned_result blocks r (snd (snd st1))"
    using execute_ready [OF assms] by blast
  obtain bench_text st2 where st2: "(if b then bench other clock (Some p) revision msg code r st1
      else Some ([], st1)) = Some (bench_text, st2)" "ready base p (heap_blocks (snd (snd st1))) st2"
    using bench_ready [OF st1(2) assms(2) st1(3), of clock revision code] st1(2) by (cases b) auto
  have same: "heap_ok (snd (snd st2))" "heap_blocks (snd (snd st2)) = heap_blocks (snd (snd st1))"
    using st2(2) by (auto simp: ready_def)
  note owned = owned_same_blocks [OF st1(3) same]
  obtain bs where bs: "output_view r (snd (snd st2)) = Some bs"
    using output_view_owned [OF owned] by blast
  have "ready base p (heap_blocks (snd (snd st2))) st2"
    using st2(2) same(2) by simp
  from end_ready' [OF this owned] obtain st3 where "end_result other r st2 = Some st3" "ready base p blocks st3"
    by blast
  then show ?thesis
    using st1(1) st2(1) bs by (cases st3) (auto simp: run_code_def Let_def)
qed

lemma with_code_ready: "ready base p blocks (w, h, hp) \<Longrightarrow> ready base p blocks (w, with_code addr code h, hp)"
  by (simp add: ready_def canned_ok_def with_code_def split: option.splits)

lemma run_ready:
  assumes "ready base p (heap_blocks hp) (w, mocked_host_new k, hp)" "int64_ok gas"
  shows "\<exists>exit_code out st'. run other clock k (Some p) revision gas code input create b w hp =
    Some (exit_code, out, st') \<and> ready base p (heap_blocks hp) st'"
proof -
  have msg: "message_ok (run_message gas input)" "message_ok ((run_message gas input)\<lparr>msg_recipient := a\<rparr>)"
    "message_ok (create_message a)" for a
    using assms(2) by (simp_all add: message_ok_def run_message_def create_message_def message_zero_def
        int32_ok_def int64_ok_def create_gas_def)
  obtain addr where addr: "create_address = Some addr"
    using create_address_exists by blast
  show ?thesis
  proof (cases create)
    case False
    then show ?thesis
      using run_code_ready [OF assms(1) msg(1), of clock b revision code] by (auto simp: run_def Let_def)
  next
    case True
    obtain r st1 where st1: "run_execute (Some p) revision (create_message addr) code
        (w, mocked_host_new k, hp) = Some (r, st1)"
      "ready base p (heap_blocks (snd (snd st1))) st1" "owned_result (heap_blocks hp) r (snd (snd st1))"
      using execute_ready [OF assms(1) msg(3)] by blast
    obtain w1 h1 hp1 where split: "st1 = (w1, h1, hp1)" by (cases st1)
    obtain bs where bs: "output_view r hp1 = Some bs"
      using output_view_owned [OF st1(3)] by (auto simp: split)
    show ?thesis
    proof (cases "status_code r = QRVMC_SUCCESS")
      case False
      then show ?thesis
        using True st1(1) end_ready' [OF st1(2,3)] by (auto simp: run_def addr Let_def)
    next
      case success: True
      have "ready base p (heap_blocks hp1) (w1, with_code addr bs h1, hp1)" "owned_result (heap_blocks hp) r hp1"
        using st1(2,3) by (simp_all add: split with_code_ready)
      from end_ready [OF this] obtain st2 where st2: "end_result other r (w1, with_code addr bs h1, hp1) = Some st2"
        "ready base p (heap_blocks hp) st2" by blast
      from run_code_ready [OF st2(2) msg(2), of clock b revision addr bs] show ?thesis
        using True success st1(1) st2(1) bs by (auto simp: run_def addr split Let_def)
    qed
  qed
qed

end

subsection \<open>Both VMs are runnable\<close>

interpretation example_runnable: runnable_vm "ExampleVM_methods other version" other for other version
proof
  fix h hp msg revision code s
  assume "canned_ok h" "heap_ok hp" "message_ok msg"
  then obtain r h' hp' where "execute (Host_get_interface mocked_methods) other msg code h hp = Done r h' hp'"
    "canned_ok h'" "owned_result (heap_blocks hp) r hp'"
    using execute_owned [OF mocked_host_contract] by blast
  then show "\<exists>r s' h' hp'. vm_execute (ExampleVM_methods other version)
      (Some (Host_get_interface mocked_methods)) revision msg code s h hp = Some (r, s', h', hp') \<and>
      canned_ok h' \<and> owned_result (heap_blocks hp) r hp'"
    by (simp add: ExampleVM_methods_def ExampleVM_execute_def)
qed

interpretation precompiles_runnable: runnable_vm "qrvmc_create_example_precompiles_vm version" other
  for other version
proof
  fix h hp msg revision code s
  assume ok: "canned_ok h" "heap_ok hp" "message_ok msg"
  have "view_covers (msg_input_data msg) (msg_input_size msg)"
    using ok(3) by (simp add: message_ok_def view_covers_def split: option.splits)
  then obtain r hp' where run: "precompiles_execute msg hp = Some (r, hp')"
    by (rule precompiles_return)
  have input: "msg_input_size msg = 0 \<or> (\<exists>bs. msg_input_data msg = Some bs \<and> msg_input_size msg \<le> length bs)"
    using ok(3) by (auto simp: message_ok_def split: option.splits)
  have "owned_result (heap_blocks hp) r hp'"
    using precompiles_heap [OF run]
  proof
    assume "release r = None \<and> output_size r = 0 \<and> hp' = hp"
    then show ?thesis using ok(2) by (simp add: owned_result_def)
  next
    assume "\<exists>gas. qrvmc_make_result QRVMC_SUCCESS gas 0 (msg_input_data msg) (msg_input_size msg) hp = Some (r, hp')"
    then show ?thesis using make_result_owned [OF ok(2) input] by blast
  qed
  then show "\<exists>r s' h' hp'. vm_execute (qrvmc_create_example_precompiles_vm version)
      (Some (Host_get_interface mocked_methods)) revision msg code s h hp = Some (r, s', h', hp') \<and>
      canned_ok h' \<and> owned_result (heap_blocks hp) r hp'"
    using run ok(1) by (simp add: qrvmc_create_example_precompiles_vm_def)
qed

subsection \<open>A program\<close>

text \<open>\<open>ADDRESS\<close>, \<open>PUSH1 0\<close>, \<open>MSTORE\<close>, \<open>MSIZE\<close>, \<open>PUSH1 0\<close>, \<open>RETURN\<close>: it returns its own address.\<close>

definition address_program :: "u8 list" where
  "address_program = [0x30, 0x60, 0x00, 0x52, 0x59, 0x60, 0x00, 0xf3]"

lemma address_program_nth [simp]:
  "length address_program = 8" "address_program \<noteq> []" "address_program ! 0 = 0x30"
  "address_program ! Suc 0 = 0x60" "address_program ! 1 = 0x60" "address_program ! 3 = 0x52"
  "address_program ! 4 = 0x59" "address_program ! 5 = 0x60" "address_program ! 7 = 0xf3"
  by (simp_all add: address_program_def)

lemma address_program_run:
  assumes "6 \<le> msg_gas msg" "\<not> heap_fails hp (heap_next hp)"
  shows "\<exists>r hp'. execute host other msg address_program h hp = Done r h hp' \<and>
    status_code r = QRVMC_SUCCESS \<and> gas_left r = msg_gas msg - 6 \<and>
    output_view r hp' = Some (address_bytes (msg_recipient msg))"
proof -
  let ?v = "to_uint512_address (msg_recipient msg)"
  let ?m = "\<lparr>mem_size = 64, mem_data = bytes64_bytes ?v @ replicate 960 0\<rparr>"
  let ?at = "\<lambda>n pc xs m. reach host other msg address_program (execute_start msg h hp) (msg_gas msg - n) pc xs m h hp"
  have zero: "push_value address_program 1 1 = bytes64_zero" "push_value address_program 5 1 = bytes64_zero"
    by (rule push_value_zero; simp add: address_program_def)+
  have store: "Memory_store (to_uint32 bytes64_zero) (Some (bytes64_bytes ?v)) 64 Memory_new = Some (True, ?m)"
    by (simp add: to_uint32_zero Memory_store_def Memory_expand_def Memory_new_def memory_limit_def
        blit_def Let_def)
  have 1: "?at 1 1 [?v] Memory_new"
    using reach_address [OF reach_start [of host other msg address_program h hp]] assms(1) by simp
  have 2: "?at 2 3 [bytes64_zero, ?v] Memory_new"
    using reach_push1 [OF 1] assms(1) by (simp add: zero [simplified] numeral_3_eq_3)
  have 3: "?at 3 4 [] ?m"
    using reach_mstore [OF 2 _ _ _ store] assms(1) by simp
  have 4: "?at 4 5 [to_uint512 64] ?m"
    using reach_msize [OF 3] assms(1) by simp
  have 5: "?at 5 7 [bytes64_zero, to_uint512 64] ?m"
    using reach_push1 [OF 4] assms(1) by (simp add: zero [simplified])
  have "view_covers (Some (bytes64_bytes ?v @ replicate 960 0)) 64" by simp
  then obtain r hp' where make: "qrvmc_make_result QRVMC_SUCCESS (msg_gas msg - 6) 0
      (Some (bytes64_bytes ?v @ replicate 960 0)) 64 hp = Some (r, hp')"
    by (rule make_result_returns)
  have "Memory_expand (to_uint32 bytes64_zero) (to_uint32 (to_uint512 64)) ?m = Some (0, ?m)"
    by (simp add: to_uint32_zero to_uint32_to_uint512 Memory_expand_def memory_limit_def)
  from reach_return [OF 5 _ _ _ this, of r hp'] make
  have "execute_loop host other msg address_program (execute_start msg h hp) = Done r h hp'"
    using assms(1) by (simp add: to_uint32_to_uint512)
  moreover have "bytes64_bytes ?v = address_bytes (msg_recipient msg)"
    by (simp add: to_uint512_address_def)
  then have "status_code r = QRVMC_SUCCESS \<and> gas_left r = msg_gas msg - 6 \<and>
      output_view r hp' = Some (address_bytes (msg_recipient msg))"
    using make assms(2)
    by (auto simp: qrvmc_make_result_def malloc_def heap_write_def heap_read_def output_view_def Let_def)
  ultimately show ?thesis
    using assms(1) by (auto simp: execute_from_start)
qed

lemma hex_zeros: "hex (replicate n 0) = replicate (2 * n) CHR ''0''"
proof (induction n)
  case (Suc n)
  have "hex_byte 0 = ''00''"
    by (simp add: hex_byte_def)
  then show ?case using Suc by (simp add: hex_Cons)
qed simp

subsection \<open>Properties\<close>



text \<open>The test program of the tool that returns its address, prints what the repository's test
expects: with at least 6 units of gas it succeeds, has used 6, and prints the zero address as 128
hexadecimal digits; the exit code is 0.\<close>

lemma run_prints_output:
  assumes "heap_ok hp" "\<not> heap_fails hp (heap_next hp)" "int64_ok gas" "6 \<le> gas"
    and "w p = Some (ExampleVM_methods other version, s)"
  shows "\<exists>st. run other clock k (Some p) QRVMC_ZOND gas address_program input False False w hp =
    Some (0, ''Executing on Zond with '' @ decimal gas @ '' gas limit'' @ newline @ newline @
      ''Result:   success'' @ newline @ ''Gas used: 6'' @ newline @
      ''Output:   '' @ replicate 128 CHR ''0'' @ newline, st)"
proof -
  let ?h = "mocked_host_new k" and ?msg = "run_message gas input"
  let ?H = "Host_get_interface mocked_methods"
  have canned: "canned_ok ?h"
    by (simp add: canned_ok_def mocked_host_new_def view_result_zero_def)
  have msg: "message_ok ?msg" "msg_gas ?msg = gas" "msg_recipient ?msg = address_zero"
    using assms(3) by (simp_all add: message_ok_def run_message_def message_zero_def int32_ok_def)
  obtain r hp1 where run: "execute ?H other ?msg address_program ?h hp = Done r ?h hp1"
    "status_code r = QRVMC_SUCCESS" "gas_left r = gas - 6" "output_view r hp1 = Some (address_bytes address_zero)"
    using address_program_run [of ?msg hp ?H other ?h] msg assms(2,4) by auto
  have owned: "owned_result (heap_blocks hp) r hp1"
    using execute_owned [OF mocked_host_contract canned assms(1) msg(1), of other address_program] run(1) by auto
  obtain hp2 where rel: "qrvmc_release_result other r hp1 = Some hp2"
    using owned_result_released [OF owned] by blast
  have "w(p \<mapsto> (ExampleVM_methods other version, s)) = w"
    using assms(5) by (simp add: fun_upd_idem)
  then have exec: "run_execute (Some p) QRVMC_ZOND ?msg address_program (w, ?h, hp) = Some (r, (w, ?h, hp1))"
    using assms(5) run(1)
    by (simp add: run_execute_def VM_execute_Host_def VM_execute_def qrvmc_execute_def ExampleVM_methods_def
        ExampleVM_execute_def)
  have ended: "end_result other r (w, ?h, hp1) = Some (w, ?h, hp2)"
    using rel by (auto simp: end_result_def Result_release_resources_def qrvmc_release_result_def
        split: option.splits)
  have "decimal 6 = ''6''"
    by (simp add: decimal_def decimal_nat.simps digit_char_def) code_simp
  moreover have "hex (address_bytes address_zero) = replicate 128 CHR ''0''"
    using hex_zeros [of 64] by (simp add: address_zero.rep_eq)
  ultimately show ?thesis
    by (simp add: run_def run_code_def exec run(2-4) ended run_heading_def msg(2) Let_def)
qed

end
