(* ===== verification/LoaderInstances.thy ===== *)
theory LoaderInstances
  imports Loader
begin

text \<open>
  What loading does to the VM instances, for a system whose modules create instances of one VM, which
  its destroy function deletes: loading and configuring adds one instance, whatever the options made
  of its state, or changes no instance.
\<close>

definition adds_instance ::
    "('s, 'h) qrvmc_vm \<Rightarrow> ('s, 'h) vm_instances \<Rightarrow> nat option \<Rightarrow> ('s, 'h) vm_instances \<Rightarrow> bool" where
  "adds_instance vm vms r vms' \<longleftrightarrow>
    (case r of None \<Rightarrow> vms' = vms
     | Some p \<Rightarrow> vms p = None \<and> (\<exists>s. vms' = vms(p \<mapsto> (vm, s))))"

lemma adds_instance_simps [simp]:
  "adds_instance vm vms None vms' \<longleftrightarrow> vms' = vms"
  "adds_instance vm vms (Some p) vms' \<longleftrightarrow> vms p = None \<and> (\<exists>s. vms' = vms(p \<mapsto> (vm, s)))"
  by (simp_all add: adds_instance_def)

definition creates_vm :: "('s, 'h, 'e, 'f) dll_system \<Rightarrow> ('s, 'h) qrvmc_vm \<Rightarrow> bool" where
  "creates_vm S vm \<longleftrightarrow> (\<forall>s. vm_destroy vm s = None) \<and>
    (\<forall>f vms e r vms' e'. sys_create S f vms e = (r, vms', e') \<longrightarrow> adds_instance vm vms r vms')"

lemma creates_vmD:
  assumes "creates_vm S vm"
  shows "vm_destroy vm s = None" "sys_create S f vms e = (r, vms', e') \<Longrightarrow> adds_instance vm vms r vms'"
  using assms unfolding creates_vm_def by blast+

lemma creates_vm_instance:
  assumes "creates_vm S vm"
  shows "create_returns_instance S"
  unfolding create_returns_instance_def
proof (intro allI impI)
  fix f vms e p vms' e'
  assume "sys_create S f vms e = (Some p, vms', e')"
  from creates_vmD(2) [OF assms this] show "vms' p \<noteq> None" by auto
qed

lemma destroy_added:
  assumes "ld_vms w = vms(p \<mapsto> (vm, s))" "vms p = None" "vm_destroy vm s = None"
  shows "\<exists>w'. destroy_vm p w = Some w' \<and> ld_vms w' = vms"
  using assms by (simp add: destroy_vm_def qrvmc_destroy_def log_event_def fun_upd_idem)

lemma load_internal_vms:
  assumes "c_text filename" "load_internal S filename cell ho w = Some (f, cell', ho', w')"
  shows "ld_vms w' = ld_vms w" "f \<noteq> None \<Longrightarrow> \<exists>h. ho' = set_out (Some h) ho"
proof -
  obtain ec g ho1 w1 where "load_module S filename ho (w\<lparr>ld_error_msg := Msg_null\<rparr>) = Some (ec, g, ho1, w1)"
    "load_outcome ho (w\<lparr>ld_error_msg := Msg_null\<rparr>) ec g ho1 w1"
    using load_module_outcome [OF assms(1)] by blast
  then show "ld_vms w' = ld_vms w" "f \<noteq> None \<Longrightarrow> \<exists>h. ho' = set_out (Some h) ho"
    using assms(2) by (auto simp: load_internal_def load_outcome_def)
qed

lemma load_and_create_vms:
  assumes "c_text filename" "creates_vm S vm"
    "load_and_create_internal S filename cell ho w = Some (r, cell', ho', w')"
  shows "adds_instance vm (ld_vms w) r (ld_vms w')"
proof -
  obtain f cell1 ho1 w1 where load: "load_internal S filename cell (Some None) w = Some (f, cell1, ho1, w1)"
    using assms(3) by (auto simp: load_and_create_internal_def split: Option.bind_splits)
  note w1 = load_internal_vms(1) [OF assms(1) load]
  show ?thesis
  proof (cases f)
    case None
    then show ?thesis
      using assms(3) load w1 by (simp add: load_and_create_internal_def)
  next
    case (Some g)
    obtain h where h: "ho1 = Some (Some h)"
      using load_internal_vms(2) [OF assms(1) load] Some by (auto simp: set_out_def)
    obtain p vms e where create: "sys_create S g (ld_vms w1) (ld_system w1) = (p, vms, e)"
      using prod_cases3 by blast
    note adds = creates_vmD(2) [OF assms(2) create]
    show ?thesis
    proof (cases p)
      case None
      then show ?thesis
        using assms(3) load Some create adds w1
        by (auto simp: load_and_create_internal_def call_create_fn_def h)
    next
      case p: (Some q)
      then obtain s where s: "ld_vms w q = None" "vms = (ld_vms w)(q \<mapsto> (vm, s))"
        using adds w1 by auto
      let ?w2 = "set_error (''QRVMC ABI version '' @ decimal (vm_abi_version vm) @ '' of '' @ the filename @
        '' mismatches the expected version '' @ decimal QRVMC_ABI_VERSION)
        (log_event (Created q) (w1\<lparr>ld_vms := vms, ld_system := e\<rparr>))"
      obtain w3 where w3: "destroy_vm q ?w2 = Some w3" "ld_vms w3 = ld_vms w"
        using destroy_added [of ?w2 "ld_vms w" q vm s] s creates_vmD(1) [OF assms(2)]
        by (auto simp: log_event_def)
      show ?thesis
        using assms(3) load Some create s w3
        by (auto simp: load_and_create_internal_def call_create_fn_def h p qrvmc_is_abi_compatible_def
            log_event_def split: if_splits)
    qed
  qed
qed

lemma set_vm_option_vms:
  assumes "ld_vms w = vms(p \<mapsto> (vm, s))" "set_vm_option path p name option w = Some (ec, w')"
  shows "\<exists>s'. ld_vms w' = vms(p \<mapsto> (vm, s'))"
proof -
  obtain f where f: "vm_set_option vm = Some f"
    using assms by (cases "vm_set_option vm") (simp_all add: set_vm_option_def)
  obtain r s' where "f name (Some option) s = (r, s')" by fastforce
  then show ?thesis
    using assms f by (cases r) (auto simp: set_vm_option_def log_event_def)
qed

lemma apply_options_vms:
  assumes "ld_vms w = vms(p \<mapsto> (vm, s))" "apply_options path p opts w = Some (ec, w')"
  shows "\<exists>s'. ld_vms w' = vms(p \<mapsto> (vm, s'))"
  using assms
proof (induction opts arbitrary: w s)
  case (Cons no opts)
  obtain name option where no: "no = (name, option)" by fastforce
  show ?case
  proof (cases "vm_set_option vm")
    case None
    then show ?thesis using Cons.prems by (auto simp: no)
  next
    case (Some f)
    obtain ec1 w1 where step: "set_vm_option path p name option w = Some (ec1, w1)"
      using Cons.prems Some by (auto simp: no split: option.splits)
    obtain s' where s': "ld_vms w1 = vms(p \<mapsto> (vm, s'))"
      using set_vm_option_vms [OF Cons.prems(1) step] by blast
    show ?thesis
      using Cons.prems Cons.IH [OF s'] s' Some step by (auto simp: no split: if_splits)
  qed
qed auto

lemma load_and_configure_vms:
  assumes "c_text config" "creates_vm S vm"
    "qrvmc_load_and_configure S config cell w = Some (r, cell', w')"
  shows "adds_instance vm (ld_vms w) r (ld_vms w')"
proof (cases "\<exists>text. config = Some text \<and> length text < PATH_MAX_LENGTH")
  case False
  then show ?thesis
    using assms(3) by (cases config)
      (auto simp: qrvmc_load_and_configure_def strcpy_sx_def buf_write_def PATH_MAX_LENGTH_def Let_def)
next
  case True
  then obtain str where cfg: "config = Some str" "length str < PATH_MAX_LENGTH" by blast
  have nul: "NUL \<notin> set str" using assms(1) cfg(1) by (simp add: c_text_def)
  then have path: "c_text (Some (before CHR '','' str))"
    by (auto simp: c_text_def before_def dest: set_takeWhileD)
  note rules = assms(3) [unfolded cfg(1) load_and_configure_text [OF nul cfg(2) creates_vm_instance [OF assms(2)]]
      load_and_configure_rules_def]
  obtain r1 cell1 ho1 w1 where load: "load_and_create_internal S (Some (before CHR '','' str)) cell (Some None) w =
      Some (r1, cell1, ho1, w1)"
    using rules by (auto split: option.splits)
  note adds = load_and_create_vms [OF path assms(2) load]
  show ?thesis
  proof (cases r1)
    case None
    then show ?thesis using rules load adds by simp
  next
    case (Some p)
    then obtain s where s: "ld_vms w p = None" "ld_vms w1 = (ld_vms w)(p \<mapsto> (vm, s))"
      using adds by auto
    obtain ec w2 where opts: "apply_options (before CHR '','' str) p (config_options (after CHR '','' str)) w1 =
        Some (ec, w2)"
      using rules load Some by (auto split: option.splits)
    obtain s' where s': "ld_vms w2 = (ld_vms w)(p \<mapsto> (vm, s'))"
      using apply_options_vms [OF s(2) opts] by blast
    obtain w3 where w3: "destroy_vm p w2 = Some w3" "ld_vms w3 = ld_vms w"
      using destroy_added [OF s' s(1) creates_vmD(1) [OF assms(2)]] by blast
    have "(r, w') = (Some p, w2) \<or> r = None \<and> (\<exists>h. w' = DLL_CLOSE S h w3)"
      using rules load Some opts w3(1) by (auto split: if_splits Option.bind_splits)
    then show ?thesis
      using s(1) s' w3(2) by auto
  qed
qed

end
