(* ===== verification/Tool.thy ===== *)
theory Tool
  imports Run LoaderInstances
begin

text \<open>
  The command line tool, \<open>tools/qrvmc/main.cpp\<close>: reading the arguments, and \<open>main\<close> from the parsed
  command line on. The parser of the command line is the library CLI11: what it returns, the exit code
  for its exceptions and its check for an existing file are parameters. The file system is a parameter
  too, as are the dynamic linker and the clock of the components that the tool calls.
\<close>

subsection \<open>Arguments\<close>

text \<open>The exceptions that can reach \<open>main\<close>, with what they hold.\<close>

datatype tool_exception = CLI_error string | Invalid_argument string | Bad_optional_access

definition load_from_hex :: "(string \<Rightarrow> string option) \<Rightarrow> string \<Rightarrow> tool_exception + u8 list" where
  "load_from_hex files str =
    (if str \<noteq> [] \<and> str ! 0 = CHR ''@'' then
       (let path = drop 1 str in
        case files path of
          None \<Rightarrow> Inl (Invalid_argument (''cannot open '' @ path))
        | Some content \<Rightarrow>
            (case from_spaced_hex content of
               None \<Rightarrow> Inl (Invalid_argument (''invalid hex in '' @ path))
             | Some out \<Rightarrow> Inr out))
     else
       (case from_hex str of None \<Rightarrow> Inl Bad_optional_access | Some bs \<Rightarrow> Inr bs))"

text \<open>The text of the error, empty when the argument is accepted.\<close>

definition HexOrFileValidator :: "(string \<Rightarrow> string) \<Rightarrow> string \<Rightarrow> string" where
  "HexOrFileValidator existing_file str =
    (if str \<noteq> [] \<and> str ! 0 = CHR ''@'' then existing_file (drop 1 str)
     else if \<not> validate_hex str then ''invalid hex''
     else [])"

subsection \<open>The program\<close>

text \<open>
  The command line after parsing: how often \<open>--vm\<close> was given and its value, the flag \<open>--version\<close>,
  whether the subcommand \<open>run\<close> was given, with its arguments.
\<close>

record command_line =
  vm_option_count :: nat
  vm_config :: string
  version_flag :: bool
  run_cmd :: bool
  code_arg :: string
  gas_arg :: int
  rev_arg :: qrvmc_revision
  input_arg :: string
  create_arg :: bool
  bench_arg :: bool
  argv :: "string list"

text \<open>
  Loading the VM: the owned pointer, and the exit code with the text for the error stream when \<open>main\<close>
  returns right then.
\<close>

definition tool_load ::
    "('s, 'h, 'e, 'f) dll_system \<Rightarrow> command_line \<Rightarrow> ('s, 'h, 'e) loader_world \<Rightarrow>
      (nat option \<times> (int \<times> string) option \<times> ('s, 'h, 'e) loader_world) option" where
  "tool_load S cl w =
    (if vm_option_count cl \<noteq> 0 then
       do {
         (vm, ec, w) \<leftarrow> qrvmc_load_and_configure S (Some (vm_config cl)) (Some QRVMC_LOADER_UNSPECIFIED_ERROR) w;
         ec \<leftarrow> ec;
         Some (if ec \<noteq> QRVMC_LOADER_SUCCESS then
             (let (error, w) = qrvmc_last_error_msg w;
                  text = (case error of Some msg \<Rightarrow> msg @ newline
                    | None \<Rightarrow> ''Loading error '' @ decimal (loader_error_value ec) @ newline)
              in (vm, Some (loader_error_value ec, text), w))
           else (vm, None, w))
       }
     else Some (None, None, w))"

definition tool_version ::
    "string \<Rightarrow> command_line \<Rightarrow> nat option \<Rightarrow> ('s, 'h) vm_instances \<Rightarrow> string option" where
  "tool_version project_version cl vm w =
    do {
      vm_text \<leftarrow> (if VM_bool vm then
            do {
              name \<leftarrow> VM_name vm w;
              version \<leftarrow> VM_version vm w;
              Some (name @ '' '' @ version @ '' ('' @ vm_config cl @ '')'' @ newline)
            }
          else Some []);
      Some (vm_text @ ''QRVMC '' @ project_version @
        (if length (argv cl) \<ge> 1 then '' ('' @ argv cl ! 0 @ '')'' else []) @ newline)
    }"

text \<open>The subcommand: an exception or the exit code, and what was written before.\<close>

definition tool_run ::
    "release_table \<Rightarrow> timing \<Rightarrow> nat \<Rightarrow> (string \<Rightarrow> string option) \<Rightarrow> command_line \<Rightarrow> nat option \<Rightarrow>
      ('s, mocked_host) vm_instances \<Rightarrow> heap \<Rightarrow>
      ((tool_exception + int) \<times> string \<times> ('s, mocked_host) vm_instances \<times> heap) option" where
  "tool_run other clock host_id files cl vm w hp =
    (if vm_option_count cl = 0 then Some (Inl (CLI_error ''--vm''), [], w, hp)
     else
       (let config = ''Config: '' @ vm_config cl @ newline in
        case load_from_hex files (code_arg cl) of
          Inl e \<Rightarrow> Some (Inl e, config, w, hp)
        | Inr code \<Rightarrow>
            (case load_from_hex files (input_arg cl) of
               Inl e \<Rightarrow> Some (Inl e, config, w, hp)
             | Inr input \<Rightarrow>
                 do {
                   (exit_code, out, w, _, hp) \<leftarrow> run other clock host_id vm (rev_arg cl) (gas_arg cl) code input
                     (create_arg cl) (bench_arg cl) w hp;
                   Some (Inr exit_code, config @ out, w, hp)
                 })))"

definition tool_commands ::
    "release_table \<Rightarrow> timing \<Rightarrow> nat \<Rightarrow> (string \<Rightarrow> string option) \<Rightarrow> string \<Rightarrow> command_line \<Rightarrow> nat option \<Rightarrow>
      ('s, mocked_host) vm_instances \<Rightarrow> heap \<Rightarrow>
      ((tool_exception + int) \<times> string \<times> ('s, mocked_host) vm_instances \<times> heap) option" where
  "tool_commands other clock host_id files project_version cl vm w hp =
    (if version_flag cl then map_option (\<lambda>out. (Inr 0, out, w, hp)) (tool_version project_version cl vm w)
     else if run_cmd cl then tool_run other clock host_id files cl vm w hp
     else Some (Inr 0, [], w, hp))"

text \<open>
  The handlers of \<open>main\<close>: exceptions of the parser go to \<open>app.exit\<close>, which returns the exit code and
  writes a text; the others are reported.
\<close>

definition tool_caught :: "(string \<Rightarrow> int \<times> string) \<Rightarrow> tool_exception \<Rightarrow> int \<times> string" where
  "tool_caught app_exit e =
    (case e of
       CLI_error text \<Rightarrow> app_exit text
     | Invalid_argument text \<Rightarrow> (-1, ''Error: '' @ text @ newline)
     | Bad_optional_access \<Rightarrow> (-1, ''Error: '' @ ''bad optional access'' @ newline))"

text \<open>
  The whole \<open>main\<close>: exit code, output, error output, and the world. The object \<open>vm\<close> ends with its
  scope, also when an exception leaves it.
\<close>

definition tool_main ::
    "release_table \<Rightarrow> ('s, mocked_host, 'e, 'f) dll_system \<Rightarrow> timing \<Rightarrow> nat \<Rightarrow> (string \<Rightarrow> string option) \<Rightarrow>
      (string \<Rightarrow> int \<times> string) \<Rightarrow> string \<Rightarrow> string + command_line \<Rightarrow>
      ('s, mocked_host, 'e) loader_world \<Rightarrow> heap \<Rightarrow>
      (int \<times> string \<times> string \<times> ('s, mocked_host, 'e) loader_world \<times> heap) option" where
  "tool_main other S clock host_id files app_exit project_version parsed w hp =
    (case parsed of
       Inl parse_error \<Rightarrow>
         (case tool_caught app_exit (CLI_error parse_error) of (exit_code, err) \<Rightarrow> Some (exit_code, [], err, w, hp))
     | Inr cl \<Rightarrow>
         do {
           (vm, failure, w) \<leftarrow> tool_load S cl w;
           (outcome, out, vms, hp) \<leftarrow>
             (case failure of
                Some (ec, _) \<Rightarrow> Some (Inr ec, [], ld_vms w, hp)
              | None \<Rightarrow> tool_commands other clock host_id files project_version cl vm (ld_vms w) hp);
           (_, vms) \<leftarrow> VM_reset vm vms;
           let (exit_code, err) = (case outcome of
               Inr exit_code \<Rightarrow> (exit_code, case failure of Some (_, text) \<Rightarrow> text | None \<Rightarrow> [])
             | Inl e \<Rightarrow> tool_caught app_exit e);
           Some (exit_code, out, err, w\<lparr>ld_vms := vms\<rparr>, hp)
         })"

subsection \<open>Cleaning up\<close>

text \<open>The end of a result of \<open>run\<close> is a state with the instance, for every VM that can run.\<close>

context runnable_vm
begin

lemma tool_commands_ready:
  assumes "adds_instance vm base r w" "r = None \<longleftrightarrow> vm_option_count cl = 0" "heap_ok hp" "int64_ok (gas_arg cl)"
  shows "\<exists>outcome out w' hp'. tool_commands other clock k files version cl r w hp = Some (outcome, out, w', hp') \<and>
    adds_instance vm base r w' \<and> heap_blocks hp' = heap_blocks hp"
proof (cases r)
  case None
  then show ?thesis
    using assms(1,2) by (simp add: tool_commands_def tool_version_def tool_run_def VM_bool_def)
next
  case (Some p)
  then obtain s where s: "base p = None" "w = base(p \<mapsto> (vm, s))" using assms(1) by auto
  have "canned_ok (mocked_host_new k)"
    by (simp add: canned_ok_def mocked_host_new_def view_result_zero_def)
  then have "ready base p (heap_blocks hp) (w, mocked_host_new k, hp)"
    using s assms(3) by (auto simp: ready_def)
  note run = run_ready [OF this assms(4)]
  show ?thesis
  proof (cases "load_from_hex files (code_arg cl)")
    case (Inl e)
    then show ?thesis
      using Some s assms(2) by (auto simp: tool_commands_def tool_version_def tool_run_def VM_name_def
          VM_version_def VM_bool_def Let_def)
  next
    case (Inr code)
    note code = Inr
    show ?thesis
    proof (cases "load_from_hex files (input_arg cl)")
      case (Inl e)
      then show ?thesis
        using Some s assms(2) code by (auto simp: tool_commands_def tool_version_def tool_run_def
            VM_name_def VM_version_def VM_bool_def Let_def)
    next
      case (Inr input)
      obtain exit_code out st' where st': "run other clock k (Some p) (rev_arg cl) (gas_arg cl) code input
          (create_arg cl) (bench_arg cl) w hp = Some (exit_code, out, st')" "ready base p (heap_blocks hp) st'"
        using run [of clock "rev_arg cl" code input "create_arg cl" "bench_arg cl"] by blast
      obtain w' h' hp' s' where split: "st' = (w', h', hp')" "w' = base(p \<mapsto> (vm, s'))"
        "heap_blocks hp' = heap_blocks hp"
        using st'(2) by (cases st') (auto simp: ready_def)
      show ?thesis
        using Some s assms(2) code Inr st'(1) split
        by (auto simp: tool_commands_def tool_version_def tool_run_def VM_name_def
            VM_version_def VM_bool_def Let_def)
    qed
  qed
qed

lemma tool_load_returns:
  assumes "creates_vm S vm" "NUL \<notin> set (vm_config cl)"
  shows "\<exists>r failure w' evs. tool_load S cl w = Some (r, failure, w') \<and> adds_instance vm (ld_vms w) r (ld_vms w') \<and>
    (failure = None \<longrightarrow> (r = None \<longleftrightarrow> vm_option_count cl = 0)) \<and> (failure \<noteq> None \<longrightarrow> r = None) \<and>
    ld_events w' = ld_events w @ evs \<and>
    (if r = None then loader_protocol No_module evs = Some No_module
     else \<exists>p h. r = Some p \<and> loader_protocol No_module evs = Some (Running h p))"
proof (cases "vm_option_count cl = 0")
  case True
  then show ?thesis by (simp add: tool_load_def)
next
  case False
  have cfg: "c_text (Some (vm_config cl))"
    using assms(2) by (simp add: c_text_def)
  obtain ec r w1 evs where load: "qrvmc_load_and_configure S (Some (vm_config cl))
      (Some QRVMC_LOADER_UNSPECIFIED_ERROR) w = Some (r, set_out ec (Some QRVMC_LOADER_UNSPECIFIED_ERROR), w1)"
    "ld_events w1 = ld_events w @ evs"
    "case r of
       None \<Rightarrow> ec \<noteq> QRVMC_LOADER_SUCCESS \<and> loader_protocol No_module evs = Some No_module
     | Some p \<Rightarrow> ec = QRVMC_LOADER_SUCCESS \<and> ld_vms w1 p \<noteq> None \<and> fst (qrvmc_last_error_msg w1) = None \<and>
         (\<exists>h. loader_protocol No_module evs = Some (Running h p))"
    using load_and_configure_balanced [OF cfg creates_vm_instance [OF assms(1)]] by blast
  note adds = load_and_configure_vms [OF cfg assms(1) load(1)]
  show ?thesis
    using False load adds
    by (cases r) (auto simp: tool_load_def set_out_def qrvmc_last_error_msg_def Let_def)
qed

lemma tool_main_returns:
  assumes "creates_vm S vm" "NUL \<notin> set (vm_config cl)" "heap_ok hp" "int64_ok (gas_arg cl)"
  shows "\<exists>exit_code out err w' hp' evs.
    tool_main other S clock k files app_exit version (Inr cl) w hp = Some (exit_code, out, err, w', hp') \<and>
    heap_blocks hp' = heap_blocks hp \<and> ld_vms w' = ld_vms w \<and> ld_events w' = ld_events w @ evs \<and>
    (loader_protocol No_module evs = Some No_module \<or>
     (\<exists>p h. loader_protocol No_module evs = Some (Running h p)))"
proof -
  obtain r failure w1 evs where load: "tool_load S cl w = Some (r, failure, w1)"
    "adds_instance vm (ld_vms w) r (ld_vms w1)"
    "failure = None \<longrightarrow> (r = None \<longleftrightarrow> vm_option_count cl = 0)" "failure \<noteq> None \<longrightarrow> r = None"
    "ld_events w1 = ld_events w @ evs"
    "if r = None then loader_protocol No_module evs = Some No_module
     else \<exists>p h. r = Some p \<and> loader_protocol No_module evs = Some (Running h p)"
    using tool_load_returns [OF assms(1,2)] by blast
  obtain outcome out w2 hp2 where mid: "(case failure of
        Some (ec, _) \<Rightarrow> Some (Inr ec, [], ld_vms w1, hp)
      | None \<Rightarrow> tool_commands other clock k files version cl r (ld_vms w1) hp) = Some (outcome, out, w2, hp2)"
    "adds_instance vm (ld_vms w) r w2" "heap_blocks hp2 = heap_blocks hp"
  proof (cases failure)
    case None
    then show ?thesis
      using tool_commands_ready [OF load(2) _ assms(3,4), of clock k files version] load(3) that by auto
  next
    case (Some f)
    then show ?thesis using load(2) that by (cases f) auto
  qed
  have "VM_reset r w2 = Some (None, ld_vms w)"
    using mid(2) creates_vmD(1) [OF assms(1)]
    by (cases r) (auto simp: VM_reset_def qrvmc_destroy_def fun_upd_idem)
  then show ?thesis
    using load(1,5,6) mid by (auto simp: tool_main_def split: prod.split if_splits)
qed

end

subsection \<open>A module\<close>

text \<open>A system with the module of the example VM.\<close>

definition example_modules :: "release_table \<Rightarrow> string \<Rightarrow> (ExampleVM, mocked_host, unit, unit) dll_system" where
  "example_modules other project_version =
    \<lparr>sys_open = \<lambda>f e. (if f = ''./libexample-vm.so'' then Some 0 else None, e), sys_close = \<lambda>_ e. e,
     sys_get_create_fn = \<lambda>_ f e. (if f = ''qrvmc_create_example_vm'' then Some () else None, e),
     sys_error_msg = \<lambda>e. (Some ''no such file'', e),
     sys_create = \<lambda>_ vms e.
       (case qrvmc_create_example_vm other project_version (if vms 0 = None then Some 0 else None) vms of
          (r, vms') \<Rightarrow> (r, vms', e)),
     garbage = \<lambda>_. CHR ''?''\<rparr>"

lemma example_modules_create: "creates_vm (example_modules other version) (ExampleVM_methods other version)"
  by (auto simp: creates_vm_def example_modules_def qrvmc_create_example_vm_def ExampleVM_methods_def
      ExampleVM_destroy_def split: if_splits)

lemma example_modules_load:
  assumes "ld_vms w 0 = None"
  shows "\<exists>w'. qrvmc_load_and_configure (example_modules other version) (Some ''./libexample-vm.so'')
      (Some QRVMC_LOADER_UNSPECIFIED_ERROR) w = Some (Some 0, Some QRVMC_LOADER_SUCCESS, w') \<and>
    ld_vms w' = (ld_vms w)(0 \<mapsto> (ExampleVM_methods other version, ExampleVM_new))"
proof -
  let ?S = "example_modules other version" and ?file = "''./libexample-vm.so''"
  have name: "create_fn_name (garbage ?S) ?file = Some ''qrvmc_create_example_vm''"
    using create_fn_name_rules [of ?file "garbage ?S"]
    by (simp add: PATH_MAX_LENGTH_def create_name_rules_def base_name_of_def create_prefix_def before_def)
  have parts: "before CHR '','' ?file = ?file" "after CHR '','' ?file = []"
    by (simp_all add: before_def after_def)
  obtain w1 where "load_module ?S (Some ?file) (Some None) (w\<lparr>ld_error_msg := Msg_null\<rparr>) =
      Some (QRVMC_LOADER_SUCCESS, Some (), Some (Some 0), w1)" "ld_vms w1 = ld_vms w"
    using name
    by (simp add: load_module_def DLL_OPEN_def DLL_GET_CREATE_FN_def example_modules_def log_event_def
        PATH_MAX_LENGTH_def set_out_def)
  then obtain w2 where "load_and_create_internal ?S (Some ?file) (Some QRVMC_LOADER_UNSPECIFIED_ERROR) (Some None) w =
      Some (Some 0, Some QRVMC_LOADER_SUCCESS, Some (Some 0), w2)"
    "ld_vms w2 = (ld_vms w)(0 \<mapsto> (ExampleVM_methods other version, ExampleVM_new))"
    using assms
    by (simp add: load_and_create_internal_def load_internal_def call_create_fn_def example_modules_def
        qrvmc_create_example_vm_def qrvmc_is_abi_compatible_def ExampleVM_methods_def log_event_def
        set_out_def)
  then show ?thesis
    using load_and_configure_text [of ?file ?S "Some QRVMC_LOADER_UNSPECIFIED_ERROR" w]
      creates_vm_instance [OF example_modules_create] parts
    by (simp add: PATH_MAX_LENGTH_def load_and_configure_rules_def config_options.simps [of "[]"] set_out_def)
qed

definition test_command_line :: "bool \<Rightarrow> int \<Rightarrow> command_line" where
  "test_command_line version gas =
    \<lparr>vm_option_count = 1, vm_config = ''./libexample-vm.so'', version_flag = version, run_cmd = \<not> version,
     code_arg = ''30600052596000f3'', gas_arg = gas, rev_arg = QRVMC_ZOND, input_arg = [],
     create_arg = False, bench_arg = False, argv = [''qrvmc'']\<rparr>"

definition fresh_world :: "(ExampleVM, mocked_host, unit) loader_world" where
  "fresh_world = \<lparr>ld_vms = \<lambda>_. None, ld_system = (), ld_events = [], ld_error_msg = Msg_null,
    ld_error_buffer = []\<rparr>"

lemma test_code: "load_from_hex files ''30600052596000f3'' = Inr address_program"
proof -
  have "decode_pairs ''30600052596000f3'' = Some address_program" by code_simp
  then show ?thesis by (simp add: load_from_hex_def from_hex_decode strip_0x_def)
qed

lemma no_input: "load_from_hex files [] = Inr []"
  by (simp add: load_from_hex_def from_hex_decode strip_0x_def)

lemma tool_runs_test:
  assumes "heap_ok hp" "\<not> heap_fails hp (heap_next hp)" "int64_ok gas" "6 \<le> gas" "ld_vms w 0 = None"
  shows "\<exists>w' hp'. tool_main other (example_modules other vm_ver) clock k files app_exit version
        (Inr (test_command_line False gas)) w hp =
      Some (0, ''Config: ./libexample-vm.so'' @ newline @
        ''Executing on Zond with '' @ decimal gas @ '' gas limit'' @ newline @ newline @
        ''Result:   success'' @ newline @ ''Gas used: 6'' @ newline @
        ''Output:   '' @ replicate 128 CHR ''0'' @ newline, [], w', hp')"
proof -
  let ?vm = "ExampleVM_methods other vm_ver"
  obtain w1 where load: "qrvmc_load_and_configure (example_modules other vm_ver) (Some ''./libexample-vm.so'')
      (Some QRVMC_LOADER_UNSPECIFIED_ERROR) w = Some (Some 0, Some QRVMC_LOADER_SUCCESS, w1)"
    "ld_vms w1 0 = Some (?vm, ExampleVM_new)"
    using example_modules_load [OF assms(5)] by fastforce
  have destroy: "vm_destroy ?vm s = None" for s
    by (simp add: ExampleVM_methods_def ExampleVM_destroy_def)
  obtain st where st: "run other clock k (Some 0) QRVMC_ZOND gas address_program [] False False (ld_vms w1) hp =
      Some (0, ''Executing on Zond with '' @ decimal gas @ '' gas limit'' @ newline @ newline @
        ''Result:   success'' @ newline @ ''Gas used: 6'' @ newline @
        ''Output:   '' @ replicate 128 CHR ''0'' @ newline, st)"
    using run_prints_output [OF assms(1-4), where w = "ld_vms w1" and p = 0, OF load(2)] by blast
  have "ld_vms w1 = (ld_vms w1)(0 \<mapsto> (?vm, ExampleVM_new))" "canned_ok (mocked_host_new k)"
    using load(2) by (simp_all add: fun_upd_idem canned_ok_def mocked_host_new_def view_result_zero_def)
  then have "example_runnable.ready other vm_ver (ld_vms w1) 0 (heap_blocks hp)
      (ld_vms w1, mocked_host_new k, hp)"
    using assms(1) unfolding example_runnable.ready_def by blast
  from example_runnable.run_ready [OF this assms(3)]
  obtain exit_code out st' where "run other clock k (Some 0) QRVMC_ZOND gas address_program [] False False
      (ld_vms w1) hp = Some (exit_code, out, st')"
    "example_runnable.ready other vm_ver (ld_vms w1) 0 (heap_blocks hp) st'" by blast
  then have ready: "example_runnable.ready other vm_ver (ld_vms w1) 0 (heap_blocks hp) st"
    using st by simp
  obtain w2 h2 hp2 where w2: "st = (w2, h2, hp2)" by (cases st)
  obtain s2 where "w2 0 = Some (?vm, s2)"
    using ready unfolding example_runnable.ready_def w2 by auto
  with w2 show ?thesis
    using load st destroy
    by (simp add: tool_main_def tool_load_def tool_commands_def tool_run_def test_command_line_def
        test_code no_input VM_reset_def qrvmc_destroy_def Let_def)
qed

lemma tool_prints_version:
  assumes "ld_vms w 0 = None"
  shows "\<exists>w'. tool_main other (example_modules other vm_ver) clock k files app_exit version
        (Inr (test_command_line True gas)) w hp =
      Some (0, ''example_vm '' @ vm_ver @ '' (./libexample-vm.so)'' @ newline @
        ''QRVMC '' @ version @ '' (qrvmc)'' @ newline, [], w', hp)"
proof -
  let ?vm = "ExampleVM_methods other vm_ver"
  obtain w1 where load: "qrvmc_load_and_configure (example_modules other vm_ver) (Some ''./libexample-vm.so'')
      (Some QRVMC_LOADER_UNSPECIFIED_ERROR) w = Some (Some 0, Some QRVMC_LOADER_SUCCESS, w1)"
    "ld_vms w1 0 = Some (?vm, ExampleVM_new)"
    using example_modules_load [OF assms] by fastforce
  have destroy: "vm_destroy ?vm s = None" for s
    by (simp add: ExampleVM_methods_def ExampleVM_destroy_def)
  show ?thesis
    using load destroy
    by (simp add: tool_main_def tool_load_def tool_commands_def tool_version_def test_command_line_def
        VM_name_def VM_version_def VM_bool_def VM_reset_def qrvmc_destroy_def ExampleVM_methods_def)
qed

lemma tool_needs_vm:
  "tool_main other (example_modules other vm_ver) clock k files app_exit version
        (Inr ((test_command_line False gas)\<lparr>vm_option_count := 0\<rparr>)) w hp =
      Some (fst (app_exit ''--vm''), [], snd (app_exit ''--vm''), w, hp)"
  by (cases "app_exit ''--vm''")
      (simp add: tool_main_def tool_load_def tool_commands_def tool_run_def test_command_line_def
        VM_reset_def tool_caught_def)

subsection \<open>Properties\<close>

text \<open>C4: The command line tool cleans up. For every command line, files, configuration and module of
the example VM, and whatever the dynamic linker does, \<open>main\<close> returns an exit code: also when an
argument cannot be read or the VM cannot be loaded, the instance of the VM is destroyed, once, every
result of an execution is released, and a module stays open only when its VM was loaded. There is no
undefined behaviour, so the tool never runs without a VM.\<close>

theorem tool_main_cleans_up:
  assumes "creates_vm S (ExampleVM_methods other module_version)" "heap_ok hp"
    and "\<And>cl. parsed = Inr cl \<Longrightarrow> NUL \<notin> set (vm_config cl) \<and> int64_ok (gas_arg cl)"
  shows "\<exists>exit_code out err w' hp' evs.
    tool_main other S clock k files app_exit version parsed w hp = Some (exit_code, out, err, w', hp') \<and>
    heap_blocks hp' = heap_blocks hp \<and> ld_vms w' = ld_vms w \<and> ld_events w' = ld_events w @ evs \<and>
    (loader_protocol No_module evs = Some No_module \<or>
     (\<exists>p h. loader_protocol No_module evs = Some (Running h p)))"
proof (cases parsed)
  case (Inl e)
  then show ?thesis
    by (cases "app_exit e") (simp add: tool_main_def tool_caught_def)
next
  case (Inr cl)
  then show ?thesis
    using example_runnable.tool_main_returns [OF assms(1) _ assms(2), of cl clock k files app_exit version w]
      assms(3) by simp
qed

theorem tool_main_cleans_up_witness:
  "\<exists>exit_code out err w' hp' evs.
    tool_main (\<lambda>_ _ _. None) (example_modules (\<lambda>_ _ _. None) ''1'') \<lparr>num_iterations = 2, bench_time = ''5''\<rparr>
      0 (\<lambda>_. None) (\<lambda>_. (106, [])) ''1'' (Inr (test_command_line False 3)) fresh_world heap_empty =
      Some (exit_code, out, err, w', hp') \<and>
    heap_blocks hp' = heap_blocks heap_empty \<and> ld_vms w' = ld_vms fresh_world \<and>
    ld_events w' = ld_events fresh_world @ evs \<and>
    (loader_protocol No_module evs = Some No_module \<or>
     (\<exists>p h. loader_protocol No_module evs = Some (Running h p)))"
  by (rule tool_main_cleans_up [OF example_modules_create])
    (simp_all add: test_command_line_def int64_ok_def)

text \<open>C38: Arguments that the parser checked with \<open>HexOrFileValidator\<close> give bytes or a report that names
the file. An argument after \<open>@\<close> stands for the pairs of hex digits of the file without its white
space; it fails exactly when the file cannot be opened or holds something else. Any other accepted
argument gives the bytes of its own digits, so that the exception of an empty \<open>optional\<close> never
arises.\<close>

theorem tool_reads_arguments:
  assumes "HexOrFileValidator existing_file str = []"
  shows "if take 1 str = ''@'' then
      (let path = drop 1 str;
           digits = map_option (filter (\<lambda>c. of_char c \<notin> {9, 10, 11, 12, 13, 32 :: nat})) (files path)
       in load_from_hex files str =
         (case digits of
            None \<Rightarrow> Inl (Invalid_argument (''cannot open '' @ path))
          | Some s \<Rightarrow> (case decode_pairs (strip_0x s) of
              None \<Rightarrow> Inl (Invalid_argument (''invalid hex in '' @ path))
            | Some bs \<Rightarrow> Inr bs)))
    else \<exists>bs. decode_pairs (strip_0x str) = Some bs \<and> load_from_hex files str = Inr bs"
proof -
  have at: "take 1 str = ''@'' \<longleftrightarrow> str \<noteq> [] \<and> str ! 0 = CHR ''@''"
    by (cases str) auto
  show ?thesis
  proof (cases "take 1 str = ''@''")
    case True
    then show ?thesis
      using at by (simp add: load_from_hex_def from_spaced_hex_filters from_hex_decode Let_def
          split: option.split)
  next
    case False
    then have "\<exists>bs. decode_pairs (strip_0x str) = Some bs"
      using assms at
      by (auto simp: HexOrFileValidator_def validate_hex_from_hex from_hex_decode split: if_splits)
    then show ?thesis
      using False at by (auto simp: load_from_hex_def from_hex_decode)
  qed
qed

theorem tool_reads_arguments_witness:
  "load_from_hex (\<lambda>_. None) ''0xaA'' = Inr [170] \<and>
   load_from_hex [''code.hex'' \<mapsto> ''60 0'' @ newline @ ''0''] ''@code.hex'' = Inr [96, 0] \<and>
   load_from_hex [''code.hex'' \<mapsto> ''60 0''] ''@code.hex'' = Inl (Invalid_argument ''invalid hex in code.hex'')"
proof (intro conjI)
  have digits: "decode_pairs ''aA'' = Some [170]" "decode_pairs ''6000'' = Some [96, 0]"
    "decode_pairs ''600'' = None"
    by code_simp+
  have "HexOrFileValidator (\<lambda>_. []) ''0xaA'' = []"
    by (simp add: HexOrFileValidator_def validate_hex_from_hex from_hex_decode strip_0x_def digits
        del: decode_pairs.simps)
  from tool_reads_arguments [OF this, of "\<lambda>_. None"]
  show "load_from_hex (\<lambda>_. None) ''0xaA'' = Inr [170]"
    by (simp add: strip_0x_def digits del: decode_pairs.simps)
  have path: "HexOrFileValidator (\<lambda>_. []) ''@code.hex'' = []"
    by (simp add: HexOrFileValidator_def)
  show "load_from_hex [''code.hex'' \<mapsto> ''60 0'' @ newline @ ''0''] ''@code.hex'' = Inr [96, 0]"
    using tool_reads_arguments [OF path, of "[''code.hex'' \<mapsto> ''60 0'' @ newline @ ''0'']"]
    by (simp add: strip_0x_def digits newline_def Let_def del: decode_pairs.simps)
  show "load_from_hex [''code.hex'' \<mapsto> ''60 0''] ''@code.hex'' = Inl (Invalid_argument ''invalid hex in code.hex'')"
    using tool_reads_arguments [OF path, of "[''code.hex'' \<mapsto> ''60 0'']"]
    by (simp add: strip_0x_def digits Let_def del: decode_pairs.simps)
qed

text \<open>C6: The tests of the tool that the repository lists: with the module of the example VM, the tool
runs the code that returns its address and reports success, 6 units of gas and 64 zero bytes; with
the flag \<open>--version\<close> it prints the names and versions of the VM and of itself; and the subcommand
without a VM is an error of the command line, before anything is written.\<close>

theorem tool_main_tests:
  assumes "heap_ok hp" "\<not> heap_fails hp (heap_next hp)" "int64_ok gas" "6 \<le> gas" "ld_vms w 0 = None"
  shows "(\<exists>w' hp'. tool_main other (example_modules other vm_ver) clock k files app_exit version
        (Inr (test_command_line False gas)) w hp =
      Some (0, ''Config: ./libexample-vm.so'' @ newline @
        ''Executing on Zond with '' @ decimal gas @ '' gas limit'' @ newline @ newline @
        ''Result:   success'' @ newline @ ''Gas used: 6'' @ newline @
        ''Output:   '' @ replicate 128 CHR ''0'' @ newline, [], w', hp')) \<and>
    (\<exists>w'. tool_main other (example_modules other vm_ver) clock k files app_exit version
        (Inr (test_command_line True gas)) w hp =
      Some (0, ''example_vm '' @ vm_ver @ '' (./libexample-vm.so)'' @ newline @
        ''QRVMC '' @ version @ '' (qrvmc)'' @ newline, [], w', hp)) \<and>
    tool_main other (example_modules other vm_ver) clock k files app_exit version
        (Inr ((test_command_line False gas)\<lparr>vm_option_count := 0\<rparr>)) w hp =
      Some (fst (app_exit ''--vm''), [], snd (app_exit ''--vm''), w, hp)"
  by (intro conjI)
    (rule tool_runs_test [OF assms], rule tool_prints_version [OF assms(5)], rule tool_needs_vm)

theorem tool_main_tests_witness:
  "\<exists>w' hp'. tool_main (\<lambda>_ _ _. None) (example_modules (\<lambda>_ _ _. None) ''1'') \<lparr>num_iterations = 2, bench_time = ''5''\<rparr>
      0 (\<lambda>_. None) (\<lambda>_. (106, [])) ''1'' (Inr (test_command_line False 99)) fresh_world heap_empty =
      Some (0, ''Config: ./libexample-vm.so'' @ newline @
        ''Executing on Zond with '' @ decimal 99 @ '' gas limit'' @ newline @ newline @
        ''Result:   success'' @ newline @ ''Gas used: 6'' @ newline @
        ''Output:   '' @ replicate 128 CHR ''0'' @ newline, [], w', hp')"
proof -
  have "\<not> heap_fails heap_empty (heap_next heap_empty)" "int64_ok 99" "(6 :: int) \<le> 99" "ld_vms fresh_world 0 = None"
    by (simp_all add: heap_empty_def int64_ok_def fresh_world_def)
  from tool_main_tests [OF heap_ok_empty this] show ?thesis by (rule conjunct1)
qed

end
