(* ===== verification/CliParser.thy ===== *)
theory CliParser
  imports Prelude
begin

text \<open>
  The command line parser of the VM tester, the class \<open>cli_parser\<close> of \<open>tools/vmtester/vmtester.cpp\<close>.
  Output and error output are returned as strings.
\<close>

subsection \<open>The parser\<close>

record cli_parser =
  application_name :: string
  application_version :: string
  arguments_names :: "string list"
  arguments :: "string list"

definition cli_parser_new :: "string \<Rightarrow> string \<Rightarrow> string list \<Rightarrow> cli_parser" where
  "cli_parser_new app_name app_version args_names =
    \<lparr>application_name = app_name, application_version = app_version, arguments_names = args_names,
     arguments = []\<rparr>"

definition end_of_line :: string where
  "end_of_line = [CHR 0x0A]"

text \<open>\<open>std::string::find_first_not_of\<close>, \<open>None\<close> for \<open>npos\<close>.\<close>

definition find_first_not_of :: "char \<Rightarrow> string \<Rightarrow> nat option" where
  "find_first_not_of c s =
    (let k = length (takeWhile (\<lambda>x. x = c) s) in if k < length s then Some k else None)"

text \<open>
  The state of the loop over the arguments: the two flags, \<open>num_args\<close> and the arguments kept so far.
\<close>

record parse_state =
  seen_help :: bool
  seen_version :: bool
  num_args :: nat
  kept :: "string list"

text \<open>One argument: the next state, or the text of the error.\<close>

definition parse_arg :: "string list \<Rightarrow> string \<Rightarrow> parse_state \<Rightarrow> string + parse_state" where
  "parse_arg names arg st =
    (let x = find_first_not_of CHR ''-'' arg;
         unknown = Inl (''Unknown option '' @ [CHR 0x22] @ arg @ [CHR 0x22] @ end_of_line)
     in case x of
          None \<Rightarrow> unknown
        | Some x \<Rightarrow>
            if x = 0 then
              (if num_args st + 1 > length names
               then Inl (''Unexpected argument '' @ [CHR 0x22] @ arg @ [CHR 0x22] @ end_of_line)
               else Inr (st\<lparr>num_args := num_args st + 1, kept := kept st @ [arg]\<rparr>))
            else if x \<le> 2 then
              (let name = drop x arg in
               if name = ''version'' then Inr (st\<lparr>seen_version := True\<rparr>)
               else if name = ''help'' then Inr (st\<lparr>seen_help := True\<rparr>)
               else unknown)
            else unknown)"

text \<open>The loop; with an error also the arguments that were stored before.\<close>

fun parse_args :: "string list \<Rightarrow> string list \<Rightarrow> parse_state \<Rightarrow> (string + unit) \<times> parse_state" where
  "parse_args names [] st = (Inr (), st)"
| "parse_args names (arg # args) st =
    (case parse_arg names arg st of
       Inl err \<Rightarrow> (Inl err, st)
     | Inr st \<Rightarrow> parse_args names args st)"

definition usage :: "cli_parser \<Rightarrow> string list \<Rightarrow> string" where
  "usage p argv =
    ''Usage: '' @ argv ! 0 @ concat (map (\<lambda>name. '' '' @ name) (arguments_names p)) @ end_of_line"

definition missing_arguments :: "cli_parser \<Rightarrow> nat \<Rightarrow> string" where
  "missing_arguments p n =
    concat (map (\<lambda>name. ''The '' @ name @ '' argument is required.'' @ end_of_line) (drop n (arguments_names p))) @
    ''Run with --help for more information.'' @ end_of_line"

text \<open>\<open>argc\<close> is the length of \<open>argv\<close>: the returned code, the parser, output and error output.\<close>

definition parse :: "cli_parser \<Rightarrow> string list \<Rightarrow> int \<times> cli_parser \<times> string \<times> string" where
  "parse p argv =
    (case parse_args (arguments_names p) (drop 1 argv)
        \<lparr>seen_help = False, seen_version = False, num_args = 0, kept = arguments p\<rparr> of
       (Inl err, st) \<Rightarrow> (-1, p\<lparr>arguments := kept st\<rparr>, [], err)
     | (Inr _, st) \<Rightarrow>
         (let p = p\<lparr>arguments := kept st\<rparr>;
              banner = application_name p @ '' '' @ application_version p @ end_of_line
          in if seen_help st then (0, p, banner @ usage p argv, [])
             else if seen_version st then (0, p, banner, [])
             else if num_args st < length (arguments_names p)
               then (-1, p, banner, missing_arguments p (num_args st))
             else (1, p, banner, [])))"

subsection \<open>What is accepted\<close>

definition positional :: "string \<Rightarrow> bool" where
  "positional arg \<longleftrightarrow> arg \<noteq> [] \<and> hd arg \<noteq> CHR ''-''"

lemma find_first_not_of_zero: "find_first_not_of CHR ''-'' arg = Some 0 \<longleftrightarrow> positional arg"
  by (cases arg) (auto simp: find_first_not_of_def positional_def)

lemma find_first_not_of_split:
  assumes "find_first_not_of c s = Some k"
  obtains x xs where "s = replicate k c @ x # xs" "drop k s = x # xs" "x \<noteq> c"
proof -
  have k: "k = length (takeWhile (\<lambda>x. x = c) s)" "k < length s"
    using assms by (simp_all add: find_first_not_of_def Let_def split: if_splits)
  have "takeWhile (\<lambda>x. x = c) s = replicate k c"
    unfolding k(1) by (rule replicate_length_same [symmetric]) (auto dest: set_takeWhileD)
  moreover have "take k s = takeWhile (\<lambda>x. x = c) s"
    unfolding k(1) by (rule takeWhile_eq_take [symmetric])
  moreover have "s ! k \<noteq> c"
    using nth_length_takeWhile [of "\<lambda>x. x = c" s] k by simp
  ultimately show ?thesis
    using that id_take_nth_drop [OF k(2)] Cons_nth_drop_Suc [OF k(2)] by metis
qed

text \<open>The flags have one dash or two.\<close>

definition version_options :: "string set" where
  "version_options = {''-version'', ''--version''}"

definition help_options :: "string set" where
  "help_options = {''-help'', ''--help''}"

lemma dashes_inject:
  "c \<noteq> d \<Longrightarrow> c' \<noteq> d \<Longrightarrow>
    replicate x d @ c # cs = replicate y d @ c' # cs' \<longleftrightarrow> x = y \<and> c # cs = c' # cs'"
proof (induction x arbitrary: y)
  case 0
  then show ?case by (cases y) auto
next
  case (Suc x)
  then show ?case by (cases y) auto
qed

lemma dashes_name:
  assumes "c \<noteq> CHR ''-''"
  shows "replicate x CHR ''-'' @ c # cs \<in> version_options \<longleftrightarrow> (x = 1 \<or> x = 2) \<and> c # cs = ''version''"
    and "replicate x CHR ''-'' @ c # cs \<in> help_options \<longleftrightarrow> (x = 1 \<or> x = 2) \<and> c # cs = ''help''"
proof -
  have names: "version_options = {replicate 1 CHR ''-'' @ CHR ''v'' # ''ersion'', replicate 2 CHR ''-'' @ CHR ''v'' # ''ersion''}"
    "help_options = {replicate 1 CHR ''-'' @ CHR ''h'' # ''elp'', replicate 2 CHR ''-'' @ CHR ''h'' # ''elp''}"
    by (simp_all add: version_options_def help_options_def numeral_2_eq_2)
  have v: "CHR ''v'' \<noteq> CHR ''-''" and h: "CHR ''h'' \<noteq> CHR ''-''" by simp_all
  show "replicate x CHR ''-'' @ c # cs \<in> version_options \<longleftrightarrow> (x = 1 \<or> x = 2) \<and> c # cs = ''version''"
    by (simp only: names insert_iff empty_iff dashes_inject [OF assms v] conj_disj_distribR simp_thms)
  show "replicate x CHR ''-'' @ c # cs \<in> help_options \<longleftrightarrow> (x = 1 \<or> x = 2) \<and> c # cs = ''help''"
    by (simp only: names insert_iff empty_iff dashes_inject [OF assms h] conj_disj_distribR simp_thms)
qed

lemma parse_arg_cases:
  "parse_arg names arg st =
    (if positional arg then
       (if num_args st < length names then Inr (st\<lparr>num_args := num_args st + 1, kept := kept st @ [arg]\<rparr>)
        else Inl (''Unexpected argument '' @ [CHR 0x22] @ arg @ [CHR 0x22] @ end_of_line))
     else if arg \<in> version_options then Inr (st\<lparr>seen_version := True\<rparr>)
     else if arg \<in> help_options then Inr (st\<lparr>seen_help := True\<rparr>)
     else Inl (''Unknown option '' @ [CHR 0x22] @ arg @ [CHR 0x22] @ end_of_line))"
proof (cases "positional arg")
  case True
  then show ?thesis
    using find_first_not_of_zero [of arg] by (simp add: parse_arg_def)
next
  case False
  show ?thesis
  proof (cases "find_first_not_of CHR ''-'' arg")
    case None
    then have "arg \<notin> version_options \<union> help_options"
      by (auto simp: find_first_not_of_def version_options_def help_options_def)
    then show ?thesis using None False by (simp add: parse_arg_def)
  next
    case (Some x)
    then have "x \<noteq> 0" using False find_first_not_of_zero [of arg] by (cases x) simp_all
    obtain c cs where arg: "arg = replicate x CHR ''-'' @ c # cs" "drop x arg = c # cs" "c \<noteq> CHR ''-''"
      by (rule find_first_not_of_split [OF Some])
    have "arg \<in> version_options \<longleftrightarrow> x \<le> 2 \<and> drop x arg = ''version''"
      "arg \<in> help_options \<longleftrightarrow> x \<le> 2 \<and> drop x arg = ''help''"
      using dashes_name [OF arg(3), of x cs] \<open>x \<noteq> 0\<close>
      unfolding arg(2) arg(1) [symmetric] by (auto simp: le_Suc_eq numeral_2_eq_2)
    then show ?thesis
      using Some \<open>x \<noteq> 0\<close> False by (auto simp: parse_arg_def Let_def)
  qed
qed

text \<open>
  A list of arguments is refused when it has an unknown option or more arguments than names.
\<close>

definition well_formed :: "nat \<Rightarrow> string list \<Rightarrow> bool" where
  "well_formed n args \<longleftrightarrow>
    (\<forall>a \<in> set args. positional a \<or> a \<in> version_options \<union> help_options) \<and>
    length (filter positional args) \<le> n"

lemma parse_args_spec:
  assumes "num_args st \<le> length names"
  shows "if well_formed (length names - num_args st) args
    then parse_args names args st = (Inr (), st\<lparr>num_args := num_args st + length (filter positional args),
      kept := kept st @ filter positional args,
      seen_version := seen_version st \<or> set args \<inter> version_options \<noteq> {},
      seen_help := seen_help st \<or> set args \<inter> help_options \<noteq> {}\<rparr>)
    else \<exists>err st'. parse_args names args st = (Inl err, st')"
  using assms
proof (induction args arbitrary: st)
  case Nil
  then show ?case by (simp add: well_formed_def)
next
  case (Cons a args)
  have disjoint: "\<not> positional a" if "a \<in> version_options \<union> help_options"
    using that by (auto simp: version_options_def help_options_def positional_def)
  have other: "a \<notin> help_options" if "a \<in> version_options"
    using that by (auto simp: version_options_def help_options_def)
  show ?case
  proof (cases "positional a")
    case True
    note pos = this
    show ?thesis
    proof (cases "num_args st < length names")
      case True
      let ?st = "st\<lparr>num_args := num_args st + 1, kept := kept st @ [a]\<rparr>"
      have "well_formed (length names - num_args st) (a # args) \<longleftrightarrow>
          well_formed (length names - num_args ?st) args"
        using pos True by (auto simp: well_formed_def)
      moreover have "a \<notin> version_options" "a \<notin> help_options"
        using pos disjoint by blast+
      ultimately show ?thesis
        using Cons.IH [of ?st] True pos by (simp add: parse_arg_cases split: if_splits)
    next
      case False
      then show ?thesis
        using pos Cons.prems by (simp add: parse_arg_cases well_formed_def)
    qed
  next
    case False
    show ?thesis
    proof (cases "a \<in> version_options \<union> help_options")
      case True
      let ?st = "if a \<in> version_options then st\<lparr>seen_version := True\<rparr> else st\<lparr>seen_help := True\<rparr>"
      have "well_formed (length names - num_args st) (a # args) \<longleftrightarrow>
          well_formed (length names - num_args ?st) args"
        using False True by (auto simp: well_formed_def)
      then show ?thesis
        using Cons.IH [of ?st] Cons.prems False True other
        by (cases "a \<in> version_options") (simp_all add: parse_arg_cases split: if_splits)
    next
      case unknown: False
      then show ?thesis
        using False by (simp add: parse_arg_cases well_formed_def)
    qed
  qed
qed

lemma parse_spec:
  "case parse (cli_parser_new app version names) argv of (code, p, out, err) \<Rightarrow>
    (let args = drop 1 argv;
         ok = well_formed (length names) args;
         flags = set args \<inter> (version_options \<union> help_options) \<noteq> {};
         given = filter positional args
     in code = (if \<not> ok then -1 else if flags then 0 else if length given < length names then -1 else 1) \<and>
        (code = 1 \<longrightarrow> arguments p = given \<and> length (arguments p) = length names) \<and>
        (err = [] \<longleftrightarrow> code \<ge> 0))"
proof -
  let ?args = "drop 1 argv"
  let ?st = "\<lparr>seen_help = False, seen_version = False, num_args = 0, kept = []\<rparr>"
  have err: "err \<noteq> []" if "parse_args names args st = (Inl err, st')" for args st err st'
    using that
    by (induction args arbitrary: st) (auto simp: parse_arg_cases split: if_splits sum.splits)
  show ?thesis
  proof (cases "well_formed (length names) ?args")
    case False
    then obtain e st' where "parse_args names ?args ?st = (Inl e, st')"
      using parse_args_spec [of ?st names ?args] by auto
    then show ?thesis
      using False err by (simp add: parse_def cli_parser_new_def Let_def)
  next
    case True
    then have "length (filter positional ?args) \<le> length names"
      by (simp add: well_formed_def)
    moreover have "parse_args names ?args ?st = (Inr (), \<lparr>seen_help = set ?args \<inter> help_options \<noteq> {},
        seen_version = set ?args \<inter> version_options \<noteq> {}, num_args = length (filter positional ?args),
        kept = filter positional ?args\<rparr>)"
      using parse_args_spec [of ?st names ?args] True by simp
    ultimately show ?thesis
      using True
      by (auto simp: parse_def cli_parser_new_def missing_arguments_def Let_def)
  qed
qed

subsection \<open>Properties\<close>

text \<open>C37: The tester's command line is read as it is documented. Options are \<open>help\<close> and \<open>version\<close> behind
one dash or two; everything that does not start with a dash is an argument, the empty text is not.
The code is negative exactly for an unknown option, for more arguments than names, and, without the
two flags, for fewer; it is zero when a flag asks to end; it is positive otherwise, and then each name
has its argument, in the order of the command line. Only an error writes to the error output.\<close>

theorem tester_command_line:
  "case parse (cli_parser_new app version names) argv of (code, p, out, err) \<Rightarrow>
    (let args = drop 1 argv;
         ok = well_formed (length names) args;
         flags = set args \<inter> (version_options \<union> help_options) \<noteq> {};
         given = filter positional args
     in code = (if \<not> ok then -1 else if flags then 0 else if length given < length names then -1 else 1) \<and>
        (code = 1 \<longrightarrow> arguments p = given \<and> length (arguments p) = length names) \<and>
        (err = [] \<longleftrightarrow> code \<ge> 0))"
  by (rule parse_spec)

theorem tester_command_line_witness:
  "fst (parse (cli_parser_new ''Tester'' ''1'' [''MODULE'']) [''t'', ''--version'', ''vm.so'']) = 0 \<and>
   arguments (fst (snd (parse (cli_parser_new ''Tester'' ''1'' [''MODULE'']) [''t'', ''vm.so'']))) = [''vm.so'']"
  using tester_command_line [where app = "''Tester''" and version = "''1''" and names = "[''MODULE'']"
      and argv = "[''t'', ''--version'', ''vm.so'']"]
    tester_command_line [where app = "''Tester''" and version = "''1''" and names = "[''MODULE'']"
      and argv = "[''t'', ''vm.so'']"]
  by (simp add: well_formed_def positional_def version_options_def help_options_def Let_def split: prod.splits)

end
