(* ===== verification/VmTester.thy ===== *)
theory VmTester
  imports Tool CliParser
begin

text \<open>
  The VM tester, \<open>tools/vmtester\<close>: the conformance tests of \<open>tests.cpp\<close> as functions on a VM instance,
  and \<open>main\<close> of \<open>vmtester.cpp\<close>. The test framework GoogleTest is not part of the repository: it
  contributes the order of the tests, which is the one of the file, and the exit code that it computes
  from their outcomes, a parameter.
\<close>

subsection \<open>The tests\<close>

text \<open>
  A test gets the raw pointer \<open>vm\<close>; the object \<open>owned_vm\<close> holds the same one. It returns whether all
  its expectations hold, and the world. Undefined behaviour, as reading an output outside of its
  memory, is \<open>None\<close>.
\<close>

type_synonym 's test_world = "('s, mocked_host) vm_instances \<times> heap"
type_synonym 's vm_test = "nat \<Rightarrow> 's test_world \<Rightarrow> (bool \<times> 's test_world) option"

definition test_abi_version_match :: "'s vm_test" where
  "test_abi_version_match vm = (\<lambda>(w, hp). do { ok \<leftarrow> qrvmc_is_abi_compatible vm w; Some (ok, w, hp) })"

definition test_name :: "'s vm_test" where
  "test_name vm = (\<lambda>(w, hp).
    do { name \<leftarrow> qrvmc_vm_name vm w; owned_name \<leftarrow> VM_name (Some vm) w;
         Some (length name \<noteq> 0 \<and> owned_name = name, w, hp) })"

definition test_version :: "'s vm_test" where
  "test_version vm = (\<lambda>(w, hp).
    do { version \<leftarrow> qrvmc_vm_version vm w; owned_version \<leftarrow> VM_version (Some vm) w;
         Some (length version \<noteq> 0 \<and> owned_version = version, w, hp) })"

definition test_capabilities :: "'s vm_test" where
  "test_capabilities vm = (\<lambda>(w, hp).
    do { qrvm1 \<leftarrow> qrvmc_vm_has_capability vm QRVMC_CAPABILITY_QRVM1 w;
         precompiles \<leftarrow> qrvmc_vm_has_capability vm QRVMC_CAPABILITY_PRECOMPILES w;
         Some (qrvm1 \<or> precompiles, w, hp) })"

definition read_buffer :: "heap_ptr \<Rightarrow> nat \<Rightarrow> heap \<Rightarrow> unit option" where
  "read_buffer ptr n hp =
    (case heap_read ptr hp of
       None \<Rightarrow> if n = 0 then Some () else None
     | Some bs \<Rightarrow> if n \<le> length bs then Some () else None)"

text \<open>The constraints on a result that the execution tests have in common.\<close>

definition validate_result :: "heap_ptr qrvmc_result \<Rightarrow> heap \<Rightarrow> bool option" where
  "validate_result r hp =
    do {
      let gas_ok = (status_code r \<noteq> QRVMC_SUCCESS \<and> status_code r \<noteq> QRVMC_REVERT \<longrightarrow> gas_left r = 0);
      let refund_ok = (status_code r \<noteq> QRVMC_SUCCESS \<longrightarrow> gas_refund r = 0);
      output_ok \<leftarrow> (if output_data r = None then Some (output_size r = 0)
        else if output_size r \<noteq> 0 then do { _ \<leftarrow> read_buffer (output_data r) (output_size r) hp; Some True }
        else Some True);
      Some (gas_ok \<and> refund_ok \<and> output_ok \<and> address_is_zero (qrvmc_result.create_address r))
    }"

definition test_execute ::
    "release_table \<Rightarrow> nat \<Rightarrow> view qrvmc_message \<Rightarrow> 's vm_test" where
  "test_execute other host_id msg vm = (\<lambda>(w, hp).
    do {
      (r, w, _, hp) \<leftarrow> qrvmc_execute vm (Some (Host_get_interface mocked_methods)) QRVMC_MAX_REVISION msg
        [0xfe, 0x00] w (mocked_host_new host_id) hp;
      ok \<leftarrow> validate_result r hp;
      hp \<leftarrow> qrvmc_release_result other r hp;
      Some (ok, w, hp)
    })"

definition test_execute_call :: "release_table \<Rightarrow> nat \<Rightarrow> 's vm_test" where
  "test_execute_call other host_id = test_execute other host_id (message_zero None)"

definition test_execute_create :: "release_table \<Rightarrow> nat \<Rightarrow> 's vm_test" where
  "test_execute_create other host_id =
    test_execute other host_id ((message_zero None)\<lparr>msg_kind := QRVMC_CREATE, msg_gas := 65536\<rparr>)"

text \<open>\<open>vm->set_option\<close> when there is such a function.\<close>

definition has_set_option :: "nat \<Rightarrow> ('s, mocked_host) vm_instances \<Rightarrow> bool option" where
  "has_set_option vm w = map_option (\<lambda>(m, _). vm_set_option m \<noteq> None) (w vm)"

definition test_set_option_unknown_name :: "'s vm_test" where
  "test_set_option_unknown_name vm = (\<lambda>(w, hp).
    do {
      available \<leftarrow> has_set_option vm w;
      if available then
        do {
          (r1, w) \<leftarrow> qrvmc_set_option vm ''unknown_option_csk9twq'' (Some ''v'') w;
          (r2, w) \<leftarrow> qrvmc_set_option vm ''unknown_option_csk9twq'' (Some ''x'') w;
          Some (r1 = QRVMC_SET_OPTION_INVALID_NAME \<and> r2 = QRVMC_SET_OPTION_INVALID_NAME, w, hp)
        }
      else Some (True, w, hp)
    })"

definition test_set_option_empty_value :: "'s vm_test" where
  "test_set_option_empty_value vm = (\<lambda>(w, hp).
    do {
      available \<leftarrow> has_set_option vm w;
      if available then
        do {
          (r, w) \<leftarrow> qrvmc_set_option vm ''unknown_option_csk9twq'' (Some []) w;
          Some (r = QRVMC_SET_OPTION_INVALID_NAME, w, hp)
        }
      else Some (True, w, hp)
    })"

definition test_set_option_unknown_value :: "'s vm_test" where
  "test_set_option_unknown_value vm = (\<lambda>(w, hp).
    do {
      (r, w) \<leftarrow> qrvmc_set_option vm ''verbose'' (Some ''1'') w;
      if r \<noteq> QRVMC_SET_OPTION_INVALID_NAME then
        do {
          (r2, w) \<leftarrow> qrvmc_set_option vm ''verbose'' (Some ''GjNOONsbUl'') w;
          (r3, w) \<leftarrow> qrvmc_set_option vm ''verbose'' (Some []) w;
          Some (r2 = QRVMC_SET_OPTION_INVALID_VALUE \<and> r3 = QRVMC_SET_OPTION_INVALID_VALUE, w, hp)
        }
      else Some (True, w, hp)
    })"

text \<open>
  The loop over the reserved addresses. The host and its context are null pointers; the context of the
  model is a host object that no method reaches.
\<close>

definition reserved_address :: "nat \<Rightarrow> qrvmc_address" where
  "reserved_address i =
    address_of_bytes (replicate 62 0 @ [word_of_nat (drop_bit 8 i), word_of_nat (i AND 0xff)])"

definition test_precompile_at :: "release_table \<Rightarrow> nat \<Rightarrow> nat \<Rightarrow> 's vm_test" where
  "test_precompile_at other host_id i vm = (\<lambda>(w, hp).
    do {
      (r, w, _, hp) \<leftarrow> qrvmc_execute vm None QRVMC_MAX_REVISION
        ((message_zero None)\<lparr>msg_gas := 65536, msg_code_address := reserved_address i\<rparr>) []
        w (mocked_host_new host_id) hp;
      let status_ok = status_code r \<in> {QRVMC_SUCCESS, QRVMC_OUT_OF_GAS, QRVMC_FAILURE, QRVMC_REVERT, QRVMC_REJECTED};
      ok \<leftarrow> validate_result r hp;
      hp \<leftarrow> qrvmc_release_result other r hp;
      Some (status_ok \<and> ok, w, hp)
    })"

primrec test_precompiles_from :: "release_table \<Rightarrow> nat \<Rightarrow> nat \<Rightarrow> nat \<Rightarrow> 's vm_test" where
  "test_precompiles_from other host_id i 0 vm = (\<lambda>world. Some (True, world))"
| "test_precompiles_from other host_id i (Suc n) vm = (\<lambda>world.
    do {
      (ok, world) \<leftarrow> test_precompile_at other host_id i vm world;
      (rest, world) \<leftarrow> test_precompiles_from other host_id (i + 1) n vm world;
      Some (ok \<and> rest, world)
    })"

definition test_precompile :: "release_table \<Rightarrow> nat \<Rightarrow> 's vm_test" where
  "test_precompile other host_id vm = (\<lambda>(w, hp).
    do {
      available \<leftarrow> qrvmc_vm_has_capability vm QRVMC_CAPABILITY_PRECOMPILES w;
      if \<not> available then Some (True, w, hp)
      else test_precompiles_from other host_id 0 0x10000 vm (w, hp)
    })"

subsection \<open>The program\<close>

definition conformance_tests :: "release_table \<Rightarrow> nat \<Rightarrow> 's vm_test list" where
  "conformance_tests other host_id =
    [test_abi_version_match, test_name, test_version, test_capabilities,
     test_execute_call other host_id, test_execute_create other host_id,
     test_set_option_unknown_name, test_set_option_empty_value, test_set_option_unknown_value,
     test_precompile other host_id]"

text \<open>Each test starts with \<open>SetUp\<close>, which fails without a VM.\<close>

primrec run_tests :: "'s vm_test list \<Rightarrow> nat option \<Rightarrow> 's test_world \<Rightarrow> (bool list \<times> 's test_world) option" where
  "run_tests [] owned_vm world = Some ([], world)"
| "run_tests (t # ts) owned_vm world =
    do {
      (ok, world) \<leftarrow> (case VM_get_raw_pointer owned_vm of None \<Rightarrow> Some (False, world) | Some vm \<Rightarrow> t vm world);
      (oks, world) \<leftarrow> run_tests ts owned_vm world;
      Some (ok # oks, world)
    }"

text \<open>
  \<open>main\<close> from the command line that GoogleTest leaves on: exit code, output before the tests, error
  output, the pointer that \<open>owned_vm\<close> holds, and the world.
\<close>

definition tester_main ::
    "release_table \<Rightarrow> ('s, mocked_host, 'e, 'f) dll_system \<Rightarrow> nat \<Rightarrow> (bool list \<Rightarrow> int) \<Rightarrow> string \<Rightarrow> string list \<Rightarrow>
      ('s, mocked_host, 'e) loader_world \<Rightarrow> heap \<Rightarrow>
      (int \<times> string \<times> string \<times> nat option \<times> ('s, mocked_host, 'e) loader_world \<times> heap) option" where
  "tester_main other S host_id run_all_tests project_version args w hp =
    (case parse (cli_parser_new ''QRVMC VM Tester'' project_version [''MODULE'']) args of
       (error_code, cli, out, err) \<Rightarrow>
         if error_code \<le> 0 then Some (error_code, out, err, None, w, hp)
         else
           (let qrvmc_module = arguments cli ! 0;
                out = out @ ''Testing '' @ qrvmc_module @ end_of_line
            in do {
                 (vm, ec, w) \<leftarrow> qrvmc_load_and_configure S (Some qrvmc_module) (Some QRVMC_LOADER_UNSPECIFIED_ERROR) w;
                 ec \<leftarrow> ec;
                 if ec \<noteq> QRVMC_LOADER_SUCCESS then
                   (let (error, w) = qrvmc_last_error_msg w in
                    do {
                      (_, vms) \<leftarrow> VM_reset vm (ld_vms w);
                      Some (loader_error_value ec, out,
                        (case error of Some msg \<Rightarrow> msg @ end_of_line
                         | None \<Rightarrow> ''Loading error '' @ decimal (loader_error_value ec) @ end_of_line),
                        None, w\<lparr>ld_vms := vms\<rparr>, hp)
                    })
                 else
                   do {
                     let (owned_vm, _) = VM_move vm;
                     (oks, vms, hp) \<leftarrow> run_tests (conformance_tests other host_id) owned_vm (ld_vms w, hp);
                     Some (run_all_tests oks, out @ end_of_line, [], owned_vm, w\<lparr>ld_vms := vms\<rparr>, hp)
                   }
               }))"

subsection \<open>Results without output\<close>

definition plain_result :: "heap_ptr qrvmc_result \<Rightarrow> bool" where
  "plain_result r \<longleftrightarrow> release r = None \<and> output_data r = None \<and> output_size r = 0 \<and> gas_refund r = 0 \<and>
    qrvmc_result.create_address r = address_zero \<and> (status_code r \<noteq> QRVMC_SUCCESS \<longrightarrow> gas_left r = 0)"

lemma plain_result_passes:
  assumes "plain_result r"
  shows "validate_result r hp = Some True" "qrvmc_release_result other r hp = Some hp"
  using assms
  by (simp_all add: plain_result_def validate_result_def qrvmc_release_result_def address_is_zero_def
      address_eq_def words_eq_def)

lemma test_execute_plain:
  assumes "w vm = Some (m, s)"
    and "vm_execute m (Some (Host_get_interface mocked_methods)) QRVMC_MAX_REVISION msg [0xfe, 0x00] s
      (mocked_host_new k) hp = Some (r, s', h', hp')" "plain_result r"
  shows "test_execute other k msg vm (w, hp) = Some (True, w(vm \<mapsto> (m, s')), hp')"
  using assms by (simp add: test_execute_def qrvmc_execute_def plain_result_passes)

subsection \<open>The example VM\<close>

lemma example_invalid_opcode:
  assumes "0 \<le> msg_gas msg"
  shows "\<exists>r. execute host other msg [0xfe, 0x00] h hp = Done r h hp \<and> plain_result r"
proof (cases "msg_gas msg = 0")
  case True
  then show ?thesis
    by (simp add: execute_from_start execute_loop.simps [of host other msg] execute_start_def fail_with_def
        finish_def qrvmc_make_result_def result_zero_def plain_result_def)
next
  case False
  then show ?thesis
    using assms
    by (simp add: execute_from_start execute_loop.simps [of host other msg] execute_start_def
        execute_instruction_def opcode_defs fail_with_def finish_def qrvmc_make_result_def result_zero_def
        plain_result_def)
qed

lemma example_executes:
  assumes "w vm = Some (ExampleVM_methods other version, s)" "0 \<le> msg_gas msg"
  shows "test_execute other k msg vm (w, hp) = Some (True, w, hp)"
proof -
  obtain r where "execute (Host_get_interface mocked_methods) other msg [0xfe, 0x00] (mocked_host_new k) hp =
      Done r (mocked_host_new k) hp" "plain_result r"
    using example_invalid_opcode [OF assms(2), of "Host_get_interface mocked_methods" other
        "mocked_host_new k" hp] by blast
  then show ?thesis
    using test_execute_plain [where w = w and vm = vm and k = k and hp = hp, OF assms(1)] assms(1)
    by (simp add: ExampleVM_methods_def ExampleVM_execute_def fun_upd_idem)
qed

lemma verbose_values:
  "ExampleVM_set_option ''verbose'' (Some ''1'') s = (QRVMC_SET_OPTION_SUCCESS, s\<lparr>verbose := 1\<rparr>)"
  "ExampleVM_set_option ''verbose'' (Some ''GjNOONsbUl'') s = (QRVMC_SET_OPTION_INVALID_VALUE, s)"
  "ExampleVM_set_option ''verbose'' (Some []) s = (QRVMC_SET_OPTION_INVALID_VALUE, s)"
proof -
  have "strtol_auto ''1'' = (1, [])" "strtol_auto ''GjNOONsbUl'' = (0, ''GjNOONsbUl'')" "strtol_auto [] = (0, [])"
    by code_simp+
  then show "ExampleVM_set_option ''verbose'' (Some ''1'') s = (QRVMC_SET_OPTION_SUCCESS, s\<lparr>verbose := 1\<rparr>)"
    "ExampleVM_set_option ''verbose'' (Some ''GjNOONsbUl'') s = (QRVMC_SET_OPTION_INVALID_VALUE, s)"
    "ExampleVM_set_option ''verbose'' (Some []) s = (QRVMC_SET_OPTION_INVALID_VALUE, s)"
    by (simp_all add: ExampleVM_set_option_def)
qed

lemma unknown_option: "ExampleVM_set_option ''unknown_option_csk9twq'' val s = (QRVMC_SET_OPTION_INVALID_NAME, s)"
  by (simp add: ExampleVM_set_option_def)

lemma example_info_tests:
  assumes "w vm = Some (ExampleVM_methods other version, s)" "version \<noteq> []"
  shows "test_abi_version_match vm (w, hp) = Some (True, w, hp)" "test_name vm (w, hp) = Some (True, w, hp)"
    "test_version vm (w, hp) = Some (True, w, hp)" "test_capabilities vm (w, hp) = Some (True, w, hp)"
    "test_precompile other' k vm (w, hp) = Some (True, w, hp)"
  using assms
  by (simp_all add: test_abi_version_match_def test_name_def test_version_def test_capabilities_def
      test_precompile_def qrvmc_is_abi_compatible_def qrvmc_vm_name_def qrvmc_vm_version_def VM_name_def
      VM_version_def qrvmc_vm_has_capability_def ExampleVM_methods_def ExampleVM_get_capabilities_def
      QRVMC_CAPABILITY_QRVM1_def QRVMC_CAPABILITY_PRECOMPILES_def)

lemma example_option_tests:
  assumes "w vm = Some (ExampleVM_methods other version, s)"
  shows "test_set_option_unknown_name vm (w, hp) = Some (True, w, hp)"
    "test_set_option_empty_value vm (w, hp) = Some (True, w, hp)"
    "test_set_option_unknown_value vm (w, hp) =
      Some (True, w(vm \<mapsto> (ExampleVM_methods other version, s\<lparr>verbose := 1\<rparr>)), hp)"
  using assms
  by (simp_all add: test_set_option_unknown_name_def test_set_option_empty_value_def
      test_set_option_unknown_value_def has_set_option_def qrvmc_set_option_def ExampleVM_methods_def
      verbose_values unknown_option fun_upd_idem)

lemma example_conforms:
  assumes "w vm = Some (ExampleVM_methods other version, s)" "version \<noteq> []"
  shows "run_tests (conformance_tests other k) (Some vm) (w, hp) =
    Some (replicate 10 True, w(vm \<mapsto> (ExampleVM_methods other version, s\<lparr>verbose := 1\<rparr>)), hp)"
proof -
  have gas: "0 \<le> msg_gas (message_zero None)"
    "0 \<le> msg_gas ((message_zero None)\<lparr>msg_kind := QRVMC_CREATE, msg_gas := 65536\<rparr>)"
    by (simp_all add: message_zero_def)
  note tests = example_info_tests [where w = w and vm = vm, OF assms] example_executes [where w = w and vm = vm, OF assms(1) gas(1)]
    example_executes [where w = w and vm = vm, OF assms(1) gas(2)] example_option_tests [where w = w and vm = vm, OF assms(1)]
  note last = example_info_tests(5) [where w = "w(vm \<mapsto> (ExampleVM_methods other version, s\<lparr>verbose := 1\<rparr>))" and
      vm = vm, OF fun_upd_same assms(2)]
  show ?thesis
    by (simp add: conformance_tests_def VM_get_raw_pointer_def test_execute_call_def
        test_execute_create_def tests last numeral_eq_Suc)
qed

subsection \<open>The precompiles VM\<close>

lemma precompiles_plain:
  assumes "msg_input_size msg = 0"
  shows "\<exists>r. precompiles_execute msg hp = Some (r, hp) \<and> plain_result r \<and>
    status_code r \<in> {QRVMC_SUCCESS, QRVMC_OUT_OF_GAS, QRVMC_REJECTED}"
  using assms
  by (auto simp: precompiles_execute_cases execute_identity_cost execute_empty_def not_implemented_def
      qrvmc_make_result_def result_zero_def plain_result_def Let_def)

lemma precompiles_execution_tests:
  assumes "w vm = Some (qrvmc_create_example_precompiles_vm version, ())" "msg_input_size msg = 0"
  shows "test_execute other k msg vm (w, hp) = Some (True, w, hp)"
    "test_precompile_at other k i vm (w, hp) = Some (True, w, hp)"
proof -
  have same: "w(vm \<mapsto> (qrvmc_create_example_precompiles_vm version, ())) = w"
    using assms(1) by (simp add: fun_upd_idem)
  obtain r where "precompiles_execute msg hp = Some (r, hp)" "plain_result r"
    using precompiles_plain [OF assms(2)] by blast
  then show "test_execute other k msg vm (w, hp) = Some (True, w, hp)"
    using test_execute_plain [where w = w and vm = vm and k = k and hp = hp, OF assms(1)] same
    by (simp add: qrvmc_create_example_precompiles_vm_def)
  let ?msg = "(message_zero None)\<lparr>msg_gas := 65536, msg_code_address := reserved_address i\<rparr>"
  obtain r where "precompiles_execute ?msg hp = Some (r, hp)" "plain_result r"
    "status_code r \<in> {QRVMC_SUCCESS, QRVMC_OUT_OF_GAS, QRVMC_REJECTED}"
    using precompiles_plain [of ?msg hp] by (auto simp: message_zero_def)
  then show "test_precompile_at other k i vm (w, hp) = Some (True, w, hp)"
    using assms(1) same
    by (auto simp: test_precompile_at_def qrvmc_execute_def plain_result_passes
        qrvmc_create_example_precompiles_vm_def)
qed

lemma precompiles_loop:
  assumes "w vm = Some (qrvmc_create_example_precompiles_vm version, ())"
  shows "test_precompiles_from other k i n vm (w, hp) = Some (True, w, hp)"
proof (induction n arbitrary: i)
  case (Suc n)
  have "msg_input_size (message_zero None) = 0" by (simp add: message_zero_def)
  from precompiles_execution_tests(2) [where w = w and vm = vm, OF assms this] show ?case
    using Suc by simp
qed simp

lemma precompiles_info_tests:
  assumes "w vm = Some (qrvmc_create_example_precompiles_vm version, ())" "version \<noteq> []"
  shows "test_abi_version_match vm (w, hp) = Some (True, w, hp)" "test_name vm (w, hp) = Some (True, w, hp)"
    "test_version vm (w, hp) = Some (True, w, hp)" "test_capabilities vm (w, hp) = Some (True, w, hp)"
    "test_set_option_unknown_name vm (w, hp) = Some (True, w, hp)"
    "test_set_option_empty_value vm (w, hp) = Some (True, w, hp)"
    "test_set_option_unknown_value vm (w, hp) = Some (True, w, hp)"
    "test_precompile other k vm (w, hp) = Some (True, w, hp)"
  using assms precompiles_loop [where w = w and vm = vm and other = other and k = k and i = 0 and n = "0x10000" and hp = hp, OF assms(1)]
  by (simp_all add: test_abi_version_match_def test_name_def test_version_def test_capabilities_def
      test_precompile_def qrvmc_is_abi_compatible_def qrvmc_vm_name_def qrvmc_vm_version_def VM_name_def
      VM_version_def qrvmc_vm_has_capability_def test_set_option_unknown_name_def test_set_option_empty_value_def
      test_set_option_unknown_value_def has_set_option_def qrvmc_set_option_def
      qrvmc_create_example_precompiles_vm_def QRVMC_CAPABILITY_PRECOMPILES_def
      del: test_precompiles_from.simps)

lemma precompiles_conforms:
  assumes "w vm = Some (qrvmc_create_example_precompiles_vm version, ())" "version \<noteq> []"
  shows "run_tests (conformance_tests other k) (Some vm) (w, hp) = Some (replicate 10 True, w, hp)"
proof -
  have size: "msg_input_size (message_zero None) = 0"
    "msg_input_size ((message_zero None)\<lparr>msg_kind := QRVMC_CREATE, msg_gas := 65536\<rparr>) = 0"
    by (simp_all add: message_zero_def)
  show ?thesis
    by (simp add: conformance_tests_def VM_get_raw_pointer_def test_execute_call_def test_execute_create_def
        precompiles_info_tests [where w = w and vm = vm, OF assms] precompiles_execution_tests(1) [where w = w and vm = vm, OF assms(1) size(1)]
        precompiles_execution_tests(1) [where w = w and vm = vm, OF assms(1) size(2)] numeral_eq_Suc)
qed

text \<open>The module of an accepted command line is loaded or not, without undefined behaviour.\<close>

lemma tester_loads:
  assumes "creates_vm S vm" "\<forall>arg \<in> set args. NUL \<notin> set arg" "code > 0"
    and "parse (cli_parser_new ''QRVMC VM Tester'' version [''MODULE'']) args = (code, cli, out, err)"
  shows "\<exists>ec r w'. qrvmc_load_and_configure S (Some (arguments cli ! 0))
      (Some QRVMC_LOADER_UNSPECIFIED_ERROR) w = Some (r, set_out ec (Some QRVMC_LOADER_UNSPECIFIED_ERROR), w') \<and>
    (case r of None \<Rightarrow> ec \<noteq> QRVMC_LOADER_SUCCESS | Some p \<Rightarrow> ec = QRVMC_LOADER_SUCCESS) \<and>
    adds_instance vm (ld_vms w) r (ld_vms w')"
proof -
  have "arguments cli = filter positional (drop 1 args)" "length (arguments cli) = 1"
    using parse_spec [where app = "''QRVMC VM Tester''" and version = version and names = "[''MODULE'']"
        and argv = args] assms(3,4)
    by (auto simp: Let_def split: if_splits)
  then have "arguments cli ! 0 \<in> set args"
    by (metis filter_is_subset in_set_dropD length_greater_0_conv less_numeral_extra(1) nth_mem
        list.size(3) zero_neq_one subsetD)
  then have cfg: "c_text (Some (arguments cli ! 0))"
    using assms(2) by (simp add: c_text_def)
  obtain ec r w1 evs where load: "qrvmc_load_and_configure S (Some (arguments cli ! 0))
      (Some QRVMC_LOADER_UNSPECIFIED_ERROR) w = Some (r, set_out ec (Some QRVMC_LOADER_UNSPECIFIED_ERROR), w1)"
    "case r of None \<Rightarrow> ec \<noteq> QRVMC_LOADER_SUCCESS | Some p \<Rightarrow> ec = QRVMC_LOADER_SUCCESS"
    using load_and_configure_balanced [OF cfg creates_vm_instance [OF assms(1)],
        of "Some QRVMC_LOADER_UNSPECIFIED_ERROR" w]
    by (fastforce split: option.splits)
  then show ?thesis
    using load_and_configure_vms [OF cfg assms(1)] by blast
qed

subsection \<open>Properties\<close>

text \<open>C7: Both VMs of the repository pass the conformance tests, from every heap: each test returns, so
that no output is read outside its memory and every result is released as it must be, and all its
expectations hold. For the precompiles VM this covers each of the 65536 reserved addresses, without a
host. The tests lose no memory, and leave the instances as they were, up to the verbosity that one of
them sets.\<close>

theorem conformance_tests_pass:
  assumes "version \<noteq> []"
    and "w p = Some (ExampleVM_methods other version, s)"
    and "w' p' = Some (qrvmc_create_example_precompiles_vm version, ())"
  shows "run_tests (conformance_tests other k) (Some p) (w, hp) =
      Some (replicate 10 True, w(p \<mapsto> (ExampleVM_methods other version, s\<lparr>verbose := 1\<rparr>)), hp) \<and>
    run_tests (conformance_tests other k) (Some p') (w', hp) = Some (replicate 10 True, w', hp)"
  using example_conforms [where w = w and vm = p, OF assms(2,1)]
    precompiles_conforms [where w = w' and vm = p', OF assms(3,1)] by blast

theorem conformance_tests_pass_witness:
  "run_tests (conformance_tests (\<lambda>_ _ _. None) 0) (Some 1)
      ([1 \<mapsto> (ExampleVM_methods (\<lambda>_ _ _. None) ''1.0'', ExampleVM_new)], heap_empty) =
    Some (replicate 10 True, [1 \<mapsto> (ExampleVM_methods (\<lambda>_ _ _. None) ''1.0'', \<lparr>verbose = 1\<rparr>)], heap_empty) \<and>
   run_tests (conformance_tests (\<lambda>_ _ _. None) 0) (Some 2)
      ([2 \<mapsto> (qrvmc_create_example_precompiles_vm ''1.0'', ())], heap_empty) =
    Some (replicate 10 True, [2 \<mapsto> (qrvmc_create_example_precompiles_vm ''1.0'', ())], heap_empty)"
  using conformance_tests_pass [where w = "[1 \<mapsto> (ExampleVM_methods (\<lambda>_ _ _. None) ''1.0'', ExampleVM_new)]"
      and p = 1 and w' = "[2 \<mapsto> (qrvmc_create_example_precompiles_vm ''1.0'', ())]" and p' = 2
      and version = "''1.0''" and other = "\<lambda>_ _ _. None" and s = ExampleVM_new and k = 0 and hp = heap_empty]
  by (simp add: ExampleVM_new_def)



end
