(* ===== verification/Spec2Isabelle.thy ===== *)
theory Spec2Isabelle
  imports Prelude Bytes Hex Abi Results HostInterface MockedHost
    Instructions ExampleVM VMContract VMSemantics VMSteps VM CString ExampleInstance Precompiles
    ExampleHost Loader VMRuns ExampleProgram Run LoaderInstances Tool
    CliParser VmTester
begin

text \<open>
  QRVMC is a C interface between a client, the host, and virtual machines that execute contracts, with
  C++ wrappers, a loader for VMs in shared libraries, two example VMs, an example host, a host for
  tests, and tools. This library models the program's C and C++ code under \<open>src/\<close>, component by
  component. This theory only collects the others; each opens with what it holds.

  The parts and how they interact. A client fills a message (\<open>Abi\<close>), gets a VM instance from a create
  function or through the loader (\<open>Loader\<close>), holds it in an object of class \<open>VM\<close> (\<open>VM\<close>) and executes
  code. The VM calls back into the host through a table of functions (\<open>HostInterface\<close>), which a
  C++ host gets from \<open>Host::get_interface\<close> and a C++ VM reaches through \<open>HostContext\<close>. It returns a
  result whose output is a block that the release function of the result frees (\<open>Results\<close>).

  Theories and sources.

  \<^item> \<open>Prelude\<close>: big-endian numbers, overwriting parts of lists, ranges of the integer types.
  \<^item> \<open>Bytes\<close>: \<open>address\<close> and \<open>bytes64\<close> of \<open>include/qrvmc/qrvmc.hpp\<close>, with the loads, the comparison
    operators that work on 64-bit words, and the hash.
  \<^item> \<open>Hex\<close>: \<open>include/qrvmc/hex.hpp\<close>, \<open>filter_iterator.hpp\<close> and the literals. An iterator is a record of
    its functions, so that the one decoding loop is used over both iterators.
  \<^item> \<open>Abi\<close>: the structs and enums of \<open>include/qrvmc/qrvmc.h\<close> and their texts in \<open>helpers.h\<close>.
  \<^item> \<open>Results\<close>: \<open>qrvmc_make_result\<close>, \<open>qrvmc_release_result\<close>, the optional storage and the class
    \<open>Result\<close>. The heap maps addresses to blocks; freeing a block that is not there and reading outside a
    block are undefined, \<open>None\<close>; an oracle in the heap says which allocations fail.
  \<^item> \<open>HostInterface\<close>: the host methods as a record of functions on the state of a host, and the two
    adapters. A host method may return \<open>None\<close>, for undefined behaviour.
  \<^item> \<open>MockedHost\<close>: \<open>include/qrvmc/mocked_host.hpp\<close>. The inputs that it records are elements of a buffer
    with an identity, so that a pointer dangles when the buffer is moved.
  \<^item> \<open>Instructions\<close>: the opcodes and the two tables of \<open>lib/instructions\<close>.
  \<^item> \<open>ExampleVM\<close>, \<open>VMContract\<close>, \<open>VMSemantics\<close>, \<open>VMSteps\<close>, \<open>VMRuns\<close>, \<open>ExampleInstance\<close>: the interpreter of
    \<open>examples/example_vm/example_vm.cpp\<close> with a function for each opcode, what it guarantees over any
    host, its agreement with the tables, its loop as a transition system, rules to run a program
    step by step, and the instance with its options.
  \<^item> \<open>VM\<close>: \<open>struct qrvmc_vm\<close>, the C helpers on it, and the class \<open>VM\<close>. Instances live at addresses.
  \<^item> \<open>CString\<close>: \<open>strtol\<close> and printing of numbers, from the C library.
  \<^item> \<open>Precompiles\<close>, \<open>ExampleHost\<close>, \<open>ExampleProgram\<close>: the rest of \<open>examples/\<close>.
  \<^item> \<open>Loader\<close>, \<open>LoaderInstances\<close>: \<open>lib/loader/loader.c\<close> on character buffers, and its effect on the
    instances.
  \<^item> \<open>Run\<close>, \<open>Tool\<close>: \<open>lib/tooling/run.cpp\<close> and \<open>tools/qrvmc/main.cpp\<close>.
  \<^item> \<open>CliParser\<close>, \<open>VmTester\<close>: \<open>tools/vmtester\<close>, the conformance tests included.

  Conventions. C++ objects are records, pointers that own are addresses or options, machine integers
  are words where the code computes with them, and integers with the range as an invariant for the
  signed 64-bit gas, whose arithmetic is shown not to overflow. Buffers are lists, and an access
  outside of them gives \<open>None\<close>. Undefined behaviour is \<open>None\<close> or \<open>Fault\<close> everywhere, so a property that
  says that a function returns says that there is none.

  What the lemmas show.

  \<^item> Containers, hex and literals: the word-wise operators are the operators on numbers, the one-pass
    decoder is the decoder of pairs, and printing and reading are inverse.
  \<^item> Results, class \<open>Result\<close>, class \<open>VM\<close>: each block is freed and each instance destroyed once, in every
    sequence of operations that a program can perform.
  \<^item> Hosts: the adapters pass everything on, both hosts are storages, the mocked host records what it
    documents within its limits, and its net gas metering is the documented one.
  \<^item> Interpreter: for every code and every host that keeps the contract, no undefined behaviour and no
    leak; gas in range even for a host that lies; calls within depth, gas and static mode; stack
    heights as in the tables; enough gas is enough. The evaluator computes what the transition system
    of the loop reaches, and the invariants hold before every iteration. The contract of a host is the locale
    \<open>execution_host\<close> of \<open>VMContract\<close>; its interpretations are the mocked host, the example host and,
    for what holds without a contract, every host.
  \<^item> Loader: the name of the create function and the syntax of configurations are the documented ones,
    and loading is all or nothing, by a protocol of events for the module and the instance.
  \<^item> Programs: the example program, the tool and the tester return for every input, clean up, and
    print what the repository's tests expect; both VMs pass the conformance tests. What the tool
    needs of a VM is the locale \<open>runnable_vm\<close> of \<open>Run\<close>, with both VMs as interpretations.

  Bounds and fuel. No function has fuel. The interpreter loop terminates because the program counter
  grows, the decoding loop and the loops over buffers because what is left gets shorter; the
  loop over an abstract iterator is a partial function, which is shown to return on both iterators.
  The stack has 1024 items, the memory 1024 bytes, calls nest at most 1024 deep, the mocked host
  records at most 200 accesses and 100 calls, names have less than 4096 characters and error messages
  less than 511: all as in the code.

  Parameters. The dynamic linker with the modules it loads, the clock of the benchmark, the files that
  the tool reads, the outcome and exit codes of the command line library CLI11, the exit code of the
  test framework GoogleTest, release functions other than the one of the repository, the failures of
  the allocator, and the contents of uninitialised memory. Nothing is assumed of them except what a
  property names: a create function returns null or an instance, which is what its documentation says.

  Not modelled. The branches of the preprocessor for Windows and for the mock of the loader's tests;
  the parsing of the tool's command line itself, which is CLI11; output that nothing depends on (the
  line of the example VM when it is verbose, the exact layout of what the example program prints);
  \<open>include/qrvmc/utils.h\<close>, macros for compiler attributes; header files that only declare functions
  that are modelled where they are defined; moving a mocked host, which is generated by the compiler;
  threads: the error message of the loader is local to a thread, so one thread is what is modelled.
\<close>

end
